(* ===== verification/Prelude.thy ===== *)
theory Prelude
  imports Main "HOL-Library.Sublist"
begin

text \<open>
  The prelude of the development: the names of the basic types, the collections the component
  theories fill, and the generic facts about lists and result sums they share.

  A Go \<open>string\<close> and a Go \<open>[]byte\<close> are both byte sequences; the model writes them as \<open>char list\<close>,
  one \<open>char\<close> per byte. An error value that the code only tests against \<open>nil\<close> or prints is its
  text; a call that returns \<open>(T, error)\<close> is a sum, \<open>Inl\<close> the error.
\<close>

type_synonym bytes = string

type_synonym 'a result = "string + 'a"

text \<open>
  \<open>aoa_unfold\<close> collects the definitions a handler is made of, so that a proof about one whole
  handler unfolds it in one step; \<open>admit\<close> collects the facts that say what a stage of the
  request pipeline has established when it lets the request pass.
\<close>

named_theorems aoa_unfold "definitions of the handlers, unfolded together"
named_theorems admit "what a stage of the pipeline guarantees when it lets a request pass"

section \<open>Sequencing of fallible calls\<close>

text \<open>\<open>x, err := f(); if err != nil { return err }\<close>\<close>

definition bind_res :: "'e + 'a \<Rightarrow> ('a \<Rightarrow> 'e + 'b) \<Rightarrow> 'e + 'b" where
  "bind_res r f = (case r of Inl e \<Rightarrow> Inl e | Inr x \<Rightarrow> f x)"

text \<open>\<open>if cond { return err }\<close>\<close>

definition guard_res :: "'e \<Rightarrow> bool \<Rightarrow> 'e + unit" where
  "guard_res e ok = (if ok then Inr () else Inl e)"

lemma bind_res_simps [simp]:
  "bind_res (Inl e) f = Inl e"
  "bind_res (Inr x) f = f x"
  by (simp_all add: bind_res_def)

lemma bind_res_Inr [iff]:
  "bind_res r f = Inr y \<longleftrightarrow> (\<exists>x. r = Inr x \<and> f x = Inr y)"
  by (cases r) auto

lemma bind_res_split_Inl:
  "bind_res r f = Inl e \<longleftrightarrow> r = Inl e \<or> (\<exists>x. r = Inr x \<and> f x = Inl e)"
  by (cases r) auto

lemma guard_res_Inr [iff]: "guard_res e ok = Inr u \<longleftrightarrow> ok"
  by (simp add: guard_res_def)

lemma guard_res_Inl [iff]: "guard_res e ok = Inl d \<longleftrightarrow> \<not> ok \<and> d = e"
  by (auto simp: guard_res_def)

lemma guard_res_cases [simp]:
  "ok \<Longrightarrow> guard_res e ok = Inr ()"
  "\<not> ok \<Longrightarrow> guard_res e ok = Inl e"
  by (simp_all add: guard_res_def)

text \<open>Mapping the error of a call, as \<open>fmt.Errorf("...: %w", err)\<close> does.\<close>

definition wrap_err :: "string \<Rightarrow> 'a result \<Rightarrow> 'a result" where
  "wrap_err p r = (case r of Inl e \<Rightarrow> Inl (p @ '': '' @ e) | Inr x \<Rightarrow> Inr x)"

lemma wrap_err_Inr [iff]: "wrap_err p r = Inr x \<longleftrightarrow> r = Inr x"
  by (cases r) (auto simp: wrap_err_def)

lemma wrap_err_simps [simp]:
  "wrap_err p (Inr x) = Inr x"
  "wrap_err p (Inl e) = Inl (p @ '': '' @ e)"
  by (simp_all add: wrap_err_def)

section \<open>Lists\<close>

lemma filter_not_Nil_iff: "filter P xs = [] \<longleftrightarrow> (\<forall>x \<in> set xs. \<not> P x)"
  by (induction xs) auto

lemma dropWhile_hd: "dropWhile P xs = y # ys \<Longrightarrow> \<not> P y"
  by (induction xs) (auto split: if_splits)

lemma dropWhile_set: "y \<in> set (dropWhile P xs) \<Longrightarrow> y \<in> set xs"
  by (induction xs) (auto split: if_splits)

lemma map_add_upd_same: "(m(k \<mapsto> v)) k = Some v"
  by simp

end
