(* ===== verification/GoText.thy ===== *)
theory GoText
  imports Prelude
begin

text \<open>
  What the code uses of Go's \<open>unicode/utf8\<close>, \<open>strings\<close>, \<open>strconv\<close> and of \<open>fmt\<close>'s \<open>%q\<close>.
  Strings are byte sequences; where a function of the library reads runes, the model decodes
  UTF-8 as \<open>utf8.DecodeRuneInString\<close> does: an invalid byte is U+FFFD of width 1.
\<close>

section \<open>Bytes and runes\<close>

abbreviation byte :: "char \<Rightarrow> nat" where
  "byte c \<equiv> of_char c"

definition cont_byte :: "nat \<Rightarrow> bool" where
  "cont_byte b \<longleftrightarrow> 128 \<le> b \<and> b \<le> 191"

text \<open>The rune at the start of a non-empty string and its width (\<open>utf8.DecodeRuneInString\<close>).\<close>

fun decode2 :: "nat \<Rightarrow> string \<Rightarrow> nat \<times> nat" where
  "decode2 b0 (c1 # _) =
     (if cont_byte (byte c1) then ((b0 - 192) * 64 + (byte c1 - 128), 2) else (65533, 1))"
| "decode2 b0 [] = (65533, 1)"

fun decode3 :: "nat \<Rightarrow> string \<Rightarrow> nat \<times> nat" where
  "decode3 b0 (c1 # c2 # _) =
     (if cont_byte (byte c1) \<and> cont_byte (byte c2)
         \<and> (b0 = 224 \<longrightarrow> 160 \<le> byte c1) \<and> (b0 = 237 \<longrightarrow> byte c1 \<le> 159)
      then ((b0 - 224) * 4096 + (byte c1 - 128) * 64 + (byte c2 - 128), 3) else (65533, 1))"
| "decode3 b0 _ = (65533, 1)"

fun decode4 :: "nat \<Rightarrow> string \<Rightarrow> nat \<times> nat" where
  "decode4 b0 (c1 # c2 # c3 # _) =
     (if cont_byte (byte c1) \<and> cont_byte (byte c2) \<and> cont_byte (byte c3)
         \<and> (b0 = 240 \<longrightarrow> 144 \<le> byte c1) \<and> (b0 = 244 \<longrightarrow> byte c1 \<le> 143)
      then ((b0 - 240) * 262144 + (byte c1 - 128) * 4096 + (byte c2 - 128) * 64
              + (byte c3 - 128), 4)
      else (65533, 1))"
| "decode4 b0 _ = (65533, 1)"

definition decode_rune :: "char \<Rightarrow> string \<Rightarrow> nat \<times> nat" where
  "decode_rune c cs =
     (let b = byte c in
      if b < 128 then (b, 1)
      else if 194 \<le> b \<and> b \<le> 223 then decode2 b cs
      else if 224 \<le> b \<and> b \<le> 239 then decode3 b cs
      else if 240 \<le> b \<and> b \<le> 244 then decode4 b cs
      else (65533, 1))"

lemma decode_rune_ascii [simp]: "byte c < 128 \<Longrightarrow> decode_rune c cs = (byte c, 1)"
  by (simp add: decode_rune_def)

text \<open>A string as the sequence of its runes, each with the bytes it was decoded from.\<close>

fun runes :: "string \<Rightarrow> (nat \<times> string) list" where
  "runes [] = []"
| "runes (c # cs) =
     (let (r, w) = decode_rune c cs in (r, c # take (w - 1) cs) # runes (drop (w - 1) cs))"

lemma runes_bytes [simp]: "concat (map snd (runes s)) = s"
  by (induction s rule: runes.induct) (auto simp: Let_def split: prod.splits)

lemma runes_eq_Nil [simp]: "runes s = [] \<longleftrightarrow> s = []"
  by (cases s) (auto simp: Let_def split: prod.splits)

definition ascii :: "string \<Rightarrow> bool" where
  "ascii s \<longleftrightarrow> (\<forall>c \<in> set s. byte c < 128)"

lemma ascii_simps [simp]:
  "ascii []"
  "ascii (c # s) \<longleftrightarrow> byte c < 128 \<and> ascii s"
  "ascii (s @ t) \<longleftrightarrow> ascii s \<and> ascii t"
  by (auto simp: ascii_def)

lemma runes_ascii: "ascii s \<Longrightarrow> runes s = map (\<lambda>c. (byte c, [c])) s"
  by (induction s) auto

text \<open>UTF-8 encoding of a rune (\<open>utf8.AppendRune\<close>).\<close>

definition encode_rune :: "nat \<Rightarrow> string" where
  "encode_rune r =
     (if r < 128 then [char_of r]
      else if r < 2048 then [char_of (192 + r div 64), char_of (128 + r mod 64)]
      else if r > 1114111 \<or> (55296 \<le> r \<and> r \<le> 57343)
      then [CHR 0xEF, CHR 0xBF, CHR 0xBD]
      else if r < 65536 then
        [char_of (224 + r div 4096), char_of (128 + r div 64 mod 64), char_of (128 + r mod 64)]
      else
        [char_of (240 + r div 262144), char_of (128 + r div 4096 mod 64),
         char_of (128 + r div 64 mod 64), char_of (128 + r mod 64)])"

section \<open>strings\<close>

text \<open>\<open>unicode.IsSpace\<close>\<close>

definition is_space :: "nat \<Rightarrow> bool" where
  "is_space r \<longleftrightarrow> (9 \<le> r \<and> r \<le> 13) \<or> r = 32 \<or> r = 133 \<or> r = 160 \<or> r = 5760
     \<or> (8192 \<le> r \<and> r \<le> 8202) \<or> r = 8232 \<or> r = 8233 \<or> r = 8239 \<or> r = 8287 \<or> r = 12288"

text \<open>\<open>strings.TrimSpace\<close>\<close>

definition trim_space :: "string \<Rightarrow> string" where
  "trim_space s =
     concat (map snd (rev (dropWhile (is_space \<circ> fst)
       (rev (dropWhile (is_space \<circ> fst) (runes s))))))"

text \<open>\<open>strings.Fields\<close>: the maximal runs of runes that are not white space.\<close>

fun fields_from :: "(nat \<times> string) list \<Rightarrow> string \<Rightarrow> string list" where
  "fields_from [] cur = (if cur = [] then [] else [cur])"
| "fields_from ((r, b) # rs) cur =
     (if is_space r then (if cur = [] then [] else [cur]) @ fields_from rs []
      else fields_from rs (cur @ b))"

definition str_fields :: "string \<Rightarrow> string list" where
  "str_fields s = fields_from (runes s) []"

text \<open>\<open>strings.Cut\<close> at a one-byte separator: \<open>None\<close> when it does not occur.\<close>

fun cut :: "char \<Rightarrow> string \<Rightarrow> (string \<times> string) option" where
  "cut sep [] = None"
| "cut sep (c # cs) =
     (if c = sep then Some ([], cs)
      else map_option (\<lambda>(a, b). (c # a, b)) (cut sep cs))"

text \<open>\<open>strings.SplitN\<close> with a one-byte separator and a positive limit.\<close>

fun split_n :: "nat \<Rightarrow> char \<Rightarrow> string \<Rightarrow> string list" where
  "split_n 0 sep s = []"
| "split_n (Suc 0) sep s = [s]"
| "split_n (Suc (Suc n)) sep s =
     (case cut sep s of None \<Rightarrow> [s] | Some (a, b) \<Rightarrow> a # split_n (Suc n) sep b)"

lemma cut_None: "cut sep s = None \<longleftrightarrow> sep \<notin> set s"
  by (induction s) auto

lemma cut_Some: "cut sep s = Some (a, b) \<longleftrightarrow> s = a @ sep # b \<and> sep \<notin> set a"
proof (induction s arbitrary: a)
  case Nil
  show ?case by simp
next
  case (Cons c cs)
  show ?case
  proof (cases "c = sep")
    case True
    then show ?thesis by (cases a) auto
  next
    case False
    with Cons.IH show ?thesis by (cases a) auto
  qed
qed

lemma cut_append [simp]: "sep \<notin> set a \<Longrightarrow> cut sep (a @ sep # b) = Some (a, b)"
  by (simp add: cut_Some)

text \<open>\<open>strings.Join\<close>\<close>

fun join :: "string \<Rightarrow> string list \<Rightarrow> string" where
  "join sep [] = []"
| "join sep [x] = x"
| "join sep (x # y # xs) = x @ sep @ join sep (y # xs)"

text \<open>\<open>strings.TrimRight\<close> with a one-byte cutset, \<open>TrimPrefix\<close> and \<open>TrimSuffix\<close>.\<close>

definition trim_right :: "char \<Rightarrow> string \<Rightarrow> string" where
  "trim_right c s = rev (dropWhile (\<lambda>x. x = c) (rev s))"

definition trim_prefix :: "string \<Rightarrow> string \<Rightarrow> string" where
  "trim_prefix p s = (if prefix p s then drop (length p) s else s)"

definition trim_suffix :: "string \<Rightarrow> string \<Rightarrow> string" where
  "trim_suffix p s = (if suffix p s then take (length s - length p) s else s)"

lemma trim_right_last: "trim_right c s = [] \<or> last (trim_right c s) \<noteq> c"
proof (cases "dropWhile (\<lambda>x. x = c) (rev s)")
  case Nil
  then show ?thesis by (simp add: trim_right_def)
next
  case (Cons y ys)
  then show ?thesis by (auto simp: trim_right_def dest: dropWhile_hd)
qed

definition lower_char :: "char \<Rightarrow> char" where
  "lower_char c = (if 65 \<le> byte c \<and> byte c \<le> 90 then char_of (byte c + 32) else c)"

definition upper_char :: "char \<Rightarrow> char" where
  "upper_char c = (if 97 \<le> byte c \<and> byte c \<le> 122 then char_of (byte c - 32) else c)"

text \<open>
  \<open>strings.EqualFold\<close>: equality under Unicode case folding. The only runes outside ASCII that
  fold with an ASCII letter are U+017F (with s) and U+212A (with k); the model folds these and
  ASCII, which is exact whenever one of the two strings is ASCII. That is the case in every call
  of the code whose other operand is a literal, an HTTP method, a URL scheme or a host that
  net/http accepted; two hosts that both hold non-ASCII bytes are compared byte for byte.
\<close>

fun efold :: "string \<Rightarrow> string" where
  "efold [] = []"
| "efold (c # cs) =
     (if byte c = 197 \<and> cs \<noteq> [] \<and> byte (hd cs) = 191 then CHR ''s'' # efold (tl cs)
      else if byte c = 226 \<and> take 2 (map byte cs) = [132, 170] then CHR ''k'' # efold (drop 2 cs)
      else lower_char c # efold cs)"

definition equal_fold :: "string \<Rightarrow> string \<Rightarrow> bool" where
  "equal_fold s t \<longleftrightarrow> efold s = efold t"

lemma equal_fold_refl [simp]: "equal_fold s s"
  by (simp add: equal_fold_def)

lemma equal_fold_sym: "equal_fold s t \<longleftrightarrow> equal_fold t s"
  by (auto simp: equal_fold_def)

lemma equal_fold_trans: "equal_fold s t \<Longrightarrow> equal_fold t u \<Longrightarrow> equal_fold s u"
  by (simp add: equal_fold_def)

lemma efold_ascii: "ascii s \<Longrightarrow> efold s = map lower_char s"
  by (induction s) auto

section \<open>strconv\<close>

abbreviation dquote :: char where "dquote \<equiv> CHR 0x22"
abbreviation bslash :: char where "bslash \<equiv> CHR 0x5C"

definition digit_char :: "nat \<Rightarrow> char" where
  "digit_char d = char_of (48 + d)"

definition hex_char :: "nat \<Rightarrow> char" where
  "hex_char d = (if d < 10 then char_of (48 + d) else char_of (87 + d))"

fun hex_digits :: "nat \<Rightarrow> nat \<Rightarrow> string" where
  "hex_digits 0 n = []"
| "hex_digits (Suc k) n = hex_digits k (n div 16) @ [hex_char (n mod 16)]"

fun nat_digits :: "nat \<Rightarrow> string" where
  "nat_digits n = (if n < 10 then [digit_char n] else nat_digits (n div 10) @ [digit_char (n mod 10)])"

declare nat_digits.simps [simp del]

text \<open>\<open>strconv.FormatInt(i, 10)\<close>\<close>

definition format_int :: "int \<Rightarrow> string" where
  "format_int i = (if i < 0 then CHR ''-'' # nat_digits (nat (- i)) else nat_digits (nat i))"

definition digit_val :: "char \<Rightarrow> nat option" where
  "digit_val c = (if 48 \<le> byte c \<and> byte c \<le> 57 then Some (byte c - 48) else None)"

fun parse_digits :: "nat \<Rightarrow> string \<Rightarrow> nat option" where
  "parse_digits acc [] = Some acc"
| "parse_digits acc (c # cs) =
     (case digit_val c of None \<Rightarrow> None | Some d \<Rightarrow> parse_digits (10 * acc + d) cs)"

definition parse_nat :: "string \<Rightarrow> nat option" where
  "parse_nat s = (if s = [] then None else parse_digits 0 s)"

text \<open>\<open>strconv.ParseInt(s, 10, 64)\<close>, \<open>None\<close> for a syntax or a range error.\<close>

definition parse_int64 :: "string \<Rightarrow> int option" where
  "parse_int64 s =
     (case s of
        [] \<Rightarrow> None
      | c # cs \<Rightarrow>
          (if c = CHR ''-'' then
             (case parse_nat cs of None \<Rightarrow> None
              | Some n \<Rightarrow> if n \<le> 2 ^ 63 then Some (- int n) else None)
           else
             (case parse_nat (if c = CHR ''+'' then cs else s) of None \<Rightarrow> None
              | Some n \<Rightarrow> if n < 2 ^ 63 then Some (int n) else None)))"

lemma digit_val_digit_char [simp]: "d < 10 \<Longrightarrow> digit_val (digit_char d) = Some d"
  by (simp add: digit_val_def digit_char_def)

lemma parse_digits_append:
  "parse_digits acc (s @ t) =
     (case parse_digits acc s of None \<Rightarrow> None | Some n \<Rightarrow> parse_digits n t)"
  by (induction s arbitrary: acc) (auto split: option.splits)

lemma nat_digits_nonempty [simp]: "nat_digits n \<noteq> []"
  by (subst nat_digits.simps) simp

lemma parse_digits_nat_digits: "parse_digits 0 (nat_digits n) = Some n"
proof (induction n rule: nat_digits.induct)
  case (1 n)
  show ?case
  proof (cases "n < 10")
    case True
    then show ?thesis by (simp add: nat_digits.simps [of n])
  next
    case False
    with 1 show ?thesis by (simp add: nat_digits.simps [of n] parse_digits_append)
  qed
qed

lemma parse_nat_nat_digits [simp]: "parse_nat (nat_digits n) = Some n"
  by (simp add: parse_nat_def parse_digits_nat_digits)

lemma nat_digits_hd: "48 \<le> byte (hd (nat_digits n)) \<and> byte (hd (nat_digits n)) \<le> 57"
proof (induction n rule: nat_digits.induct)
  case (1 n)
  then show ?case
    by (cases "n < 10") (simp_all add: nat_digits.simps [of n] digit_char_def)
qed

lemma parse_int64_format_int:
  assumes "- (2 ^ 63) \<le> i" and "i < 2 ^ 63"
  shows "parse_int64 (format_int i) = Some i"
proof (cases "i < 0")
  case True
  with assms show ?thesis by (simp add: parse_int64_def format_int_def nat_le_iff)
next
  case False
  obtain c cs where cs: "nat_digits (nat i) = c # cs"
    by (cases "nat_digits (nat i)") simp_all
  with nat_digits_hd [of "nat i"] have "48 \<le> byte c" by simp
  then have "c \<noteq> CHR ''-''" "c \<noteq> CHR ''+''" by auto
  moreover have "parse_nat (c # cs) = Some (nat i)" using cs by (metis parse_nat_nat_digits)
  ultimately show ?thesis using False assms cs
    by (simp add: parse_int64_def format_int_def nat_less_iff)
qed

text \<open>
  \<open>strconv.Quote\<close>, which \<open>fmt\<close>'s \<open>%q\<close> calls. Which runes above U+00FF are printable is a table
  of the library (\<open>strconv.IsPrint\<close>); it is the parameter \<open>uprint\<close>.
\<close>

definition is_print :: "(nat \<Rightarrow> bool) \<Rightarrow> nat \<Rightarrow> bool" where
  "is_print uprint r =
     (if r \<le> 255 then (32 \<le> r \<and> r < 127) \<or> (161 \<le> r \<and> r \<noteq> 173) else uprint r)"

definition quote_rune :: "(nat \<Rightarrow> bool) \<Rightarrow> nat \<times> string \<Rightarrow> string" where
  "quote_rune uprint rb =
     (let (r, b) = rb in
      if r = 65533 \<and> length b = 1 then bslash # CHR ''x'' # hex_digits 2 (byte (hd b))
      else if r = 34 \<or> r = 92 then bslash # b
      else if is_print uprint r then b
      else if r = 7 then [bslash, CHR ''a'']
      else if r = 8 then [bslash, CHR ''b'']
      else if r = 12 then [bslash, CHR ''f'']
      else if r = 10 then [bslash, CHR ''n'']
      else if r = 13 then [bslash, CHR ''r'']
      else if r = 9 then [bslash, CHR ''t'']
      else if r = 11 then [bslash, CHR ''v'']
      else if r < 32 \<or> r = 127 then bslash # CHR ''x'' # hex_digits 2 r
      else if r < 65536 then bslash # CHR ''u'' # hex_digits 4 r
      else bslash # CHR ''U'' # hex_digits 8 r)"

definition quote :: "(nat \<Rightarrow> bool) \<Rightarrow> string \<Rightarrow> string" where
  "quote uprint s = dquote # concat (map (quote_rune uprint) (runes s)) @ [dquote]"

lemma byte_eqI: "byte c = byte d \<Longrightarrow> c = d"
  by simp

lemma byte_dquote: "byte c = 34 \<longleftrightarrow> c = dquote"
proof -
  have "byte dquote = 34" by simp
  then show ?thesis using byte_eqI [of c dquote] by metis
qed

lemma byte_bslash: "byte c = 92 \<longleftrightarrow> c = bslash"
proof -
  have "byte bslash = 92" by simp
  then show ?thesis using byte_eqI [of c bslash] by metis
qed

text \<open>Reading a quoted string: the rest after the closing quote.\<close>

fun skip_quoted :: "string \<Rightarrow> string option" where
  "skip_quoted [] = None"
| "skip_quoted (c # cs) =
     (if c = dquote then Some cs
      else if c = bslash then (case cs of [] \<Rightarrow> None | _ # r \<Rightarrow> skip_quoted r)
      else skip_quoted cs)"

definition plain :: "string \<Rightarrow> bool" where
  "plain s \<longleftrightarrow> dquote \<notin> set s \<and> bslash \<notin> set s"

lemma skip_quoted_plain [simp]: "plain s \<Longrightarrow> skip_quoted (s @ t) = skip_quoted t"
  by (induction s) (auto simp: plain_def)

lemma hex_char_byte:
  assumes "d < 16"
  shows "32 < byte (hex_char d)" "byte (hex_char d) < 127"
    "hex_char d \<noteq> dquote" "hex_char d \<noteq> bslash"
proof -
  have b: "byte (hex_char d) = (if d < 10 then 48 + d else 87 + d)"
    using assms by (simp add: hex_char_def)
  then show "32 < byte (hex_char d)" "byte (hex_char d) < 127" using assms by auto
  have "byte (hex_char d) \<noteq> byte dquote" "byte (hex_char d) \<noteq> byte bslash"
    unfolding b using assms by auto
  then show "hex_char d \<noteq> dquote" "hex_char d \<noteq> bslash" by metis+
qed

lemma hex_digits_set: "c \<in> set (hex_digits k n) \<Longrightarrow> \<exists>d < 16. c = hex_char d"
  by (induction k arbitrary: n) (auto, metis mod_less_divisor zero_less_numeral)

lemma plain_hex_digits [simp]: "plain (hex_digits k n)"
  by (auto simp: plain_def dest!: hex_digits_set dest: hex_char_byte)

text \<open>What the bytes of a decoded rune can be.\<close>

lemma decode_rune_cases:
  assumes "decode_rune c cs = (r, w)"
  shows "(w = 1 \<and> (r = byte c \<and> r < 128 \<or> r = 65533))
    \<or> (r \<ge> 128 \<and> 128 \<le> byte c \<and> (\<forall>d \<in> set (take (w - 1) cs). 128 \<le> byte d) \<and> 1 < w \<and> w \<le> Suc (length cs))"
  using assms
  by (cases "(byte c, cs)" rule: decode2.cases; cases "(byte c, cs)" rule: decode3.cases;
      cases "(byte c, cs)" rule: decode4.cases)
    (auto simp: decode_rune_def cont_byte_def Let_def split: if_splits)

definition rune_chunk :: "nat \<times> string \<Rightarrow> bool" where
  "rune_chunk rb \<longleftrightarrow>
     (\<exists>c. snd rb = [c] \<and> (fst rb = byte c \<and> fst rb < 128 \<or> fst rb = 65533))
     \<or> (128 \<le> fst rb \<and> 1 < length (snd rb) \<and> (\<forall>d \<in> set (snd rb). 128 \<le> byte d))"

lemma runes_chunks: "rb \<in> set (runes s) \<Longrightarrow> rune_chunk rb"
proof (induction s rule: runes.induct)
  case 1
  then show ?case by simp
next
  case (2 c cs)
  obtain r w where rw: "decode_rune c cs = (r, w)" by (cases "decode_rune c cs")
  have "rune_chunk (r, c # take (w - 1) cs)"
    using decode_rune_cases [OF rw] by (auto simp: rune_chunk_def)
  with 2 rw show ?case by auto
qed

text \<open>The quoted form of one rune never ends the string and never holds a control byte.\<close>

lemma skip_quoted_quote_rune:
  assumes "rune_chunk rb"
  shows "skip_quoted (quote_rune uprint rb @ t) = skip_quoted t"
proof -
  obtain r b where rb: "rb = (r, b)" by (cases rb)
  consider (bad) c where "b = [c]" "r = 65533"
    | (low) c where "b = [c]" "r = byte c" "r < 128"
    | (high) "128 \<le> r" "1 < length b" "\<forall>d \<in> set b. 128 \<le> byte d"
    using assms rb by (auto simp: rune_chunk_def)
  then show ?thesis
  proof cases
    case bad
    then show ?thesis
      using rb skip_quoted_plain [of "hex_digits 2 (byte c)" t]
      by (simp add: quote_rune_def del: hex_digits.simps)
  next
    case low
    then have "c = dquote \<longleftrightarrow> r = 34" "c = bslash \<longleftrightarrow> r = 92"
      by (simp_all add: byte_dquote byte_bslash)
    with low show ?thesis
      using rb skip_quoted_plain [of "hex_digits 2 r" t] skip_quoted_plain [of "hex_digits 4 r" t]
      by (auto simp: quote_rune_def simp del: hex_digits.simps)
  next
    case high
    then have "plain b" by (auto simp: plain_def)
    with high show ?thesis
      using rb skip_quoted_plain [of "hex_digits 4 r" t] skip_quoted_plain [of "hex_digits 8 r" t]
      by (auto simp: quote_rune_def simp del: hex_digits.simps)
  qed
qed

text \<open>A quoted string is read back up to its own closing quote, whatever it holds.\<close>

lemma skip_quoted_quote:
  "skip_quoted (tl (quote uprint s) @ t) = Some t"
proof -
  have "skip_quoted (concat (map (quote_rune uprint) rs) @ dquote # t) = Some t"
    if "\<forall>rb \<in> set rs. rune_chunk rb" for rs
    using that by (induction rs) (simp_all add: skip_quoted_quote_rune)
  then show ?thesis by (simp add: quote_def runes_chunks)
qed

definition no_ctl :: "string \<Rightarrow> bool" where
  "no_ctl s \<longleftrightarrow> (\<forall>c \<in> set s. 32 \<le> byte c \<and> byte c \<noteq> 127)"

lemma no_ctl_simps [simp]:
  "no_ctl []"
  "no_ctl (c # s) \<longleftrightarrow> 32 \<le> byte c \<and> byte c \<noteq> 127 \<and> no_ctl s"
  "no_ctl (s @ t) \<longleftrightarrow> no_ctl s \<and> no_ctl t"
  by (auto simp: no_ctl_def)

lemma no_ctl_hex_digits [simp]: "no_ctl (hex_digits k n)"
  unfolding no_ctl_def
proof
  fix c assume "c \<in> set (hex_digits k n)"
  then obtain d where "d < 16" "c = hex_char d" using hex_digits_set by blast
  with hex_char_byte [of d] show "32 \<le> byte c \<and> byte c \<noteq> 127" by simp
qed

lemma no_ctl_quote_rune:
  assumes "rune_chunk rb"
  shows "no_ctl (quote_rune uprint rb)"
proof -
  obtain r b where rb: "rb = (r, b)" by (cases rb)
  have "no_ctl b" if "128 \<le> r" "1 < length b"
    using assms rb that by (fastforce simp: rune_chunk_def no_ctl_def)
  with assms rb show ?thesis
    by (auto simp: quote_rune_def rune_chunk_def is_print_def simp del: hex_digits.simps)
qed

lemma no_ctl_quote: "no_ctl (quote uprint s)"
proof -
  have "no_ctl (concat (map (quote_rune uprint) rs))" if "\<forall>rb \<in> set rs. rune_chunk rb" for rs
    using that by (induction rs) (simp_all add: no_ctl_quote_rune)
  then show ?thesis by (simp add: quote_def runes_chunks)
qed

end
