(* ===== verification/GoJson.thy ===== *)
theory GoJson
  imports GoText
begin

text \<open>
  Go's \<open>encoding/json\<close> as the code uses it: the text is parsed to a value tree, and a decoder of
  the shape of the Go struct reads the tree. A number keeps its literal, since what it means
  depends on the Go type it is decoded into. \<open>json.Unmarshal\<close> of a value of the wrong type goes
  on and reports the error at the end; every caller discards the result then, so a decoder
  returns \<open>None\<close>.
\<close>

datatype json =
    JNull
  | JBool bool
  | JNum string
  | JStr string
  | JArr "json list"
  | JObj "(string \<times> json) list"

section \<open>Parsing\<close>

definition is_ws :: "char \<Rightarrow> bool" where
  "is_ws c \<longleftrightarrow> byte c = 32 \<or> byte c = 9 \<or> byte c = 10 \<or> byte c = 13"

definition skip_ws :: "string \<Rightarrow> string" where
  "skip_ws s = dropWhile is_ws s"

definition hex_val :: "char \<Rightarrow> nat option" where
  "hex_val c =
     (let b = byte c in
      if 48 \<le> b \<and> b \<le> 57 then Some (b - 48)
      else if 97 \<le> b \<and> b \<le> 102 then Some (b - 87)
      else if 65 \<le> b \<and> b \<le> 70 then Some (b - 55)
      else None)"

fun hex4 :: "string \<Rightarrow> nat option" where
  "hex4 (a # b # c # d # _) =
     (case (hex_val a, hex_val b, hex_val c, hex_val d) of
        (Some w, Some x, Some y, Some z) \<Rightarrow> Some (w * 4096 + x * 256 + y * 16 + z)
      | _ \<Rightarrow> None)"
| "hex4 _ = None"

text \<open>A second \<open>\uXXXX\<close> escape, for a surrogate pair.\<close>

fun low_surrogate :: "string \<Rightarrow> nat option" where
  "low_surrogate (a # b # r) =
     (if a = bslash \<and> b = CHR ''u'' then
        (case hex4 r of None \<Rightarrow> None
         | Some u \<Rightarrow> if 56320 \<le> u \<and> u \<le> 57343 then Some u else None)
      else None)"
| "low_surrogate _ = None"

definition simple_escape :: "char \<Rightarrow> char option" where
  "simple_escape c =
     (if c = dquote \<or> c = bslash \<or> c = CHR ''/'' then Some c
      else if c = CHR ''b'' then Some (CHR 0x08)
      else if c = CHR ''f'' then Some (CHR 0x0C)
      else if c = CHR ''n'' then Some (CHR 0x0A)
      else if c = CHR ''r'' then Some (CHR 0x0D)
      else if c = CHR ''t'' then Some (CHR 0x09)
      else None)"

definition prepend :: "string \<Rightarrow> (string \<times> string) option \<Rightarrow> (string \<times> string) option" where
  "prepend p r = map_option (\<lambda>(a, b). (p @ a, b)) r"

text \<open>
  The rest of a string literal after its opening quote: the string it denotes and what follows
  the closing quote. Invalid UTF-8 and lone surrogates become U+FFFD.
\<close>

function json_string :: "string \<Rightarrow> (string \<times> string) option" where
  "json_string [] = None"
| "json_string (c # cs) =
     (if c = dquote then Some ([], cs)
      else if c = bslash then
        (case cs of
           [] \<Rightarrow> None
         | e # r \<Rightarrow>
             (if e = CHR ''u'' then
                (case hex4 r of
                   None \<Rightarrow> None
                 | Some u \<Rightarrow>
                     (if 55296 \<le> u \<and> u \<le> 56319 \<and> low_surrogate (drop 4 r) \<noteq> None then
                        prepend (encode_rune ((u - 55296) * 1024
                            + (the (low_surrogate (drop 4 r)) - 56320) + 65536))
                          (json_string (drop 10 r))
                      else prepend (encode_rune u) (json_string (drop 4 r))))
              else
                (case simple_escape e of
                   None \<Rightarrow> None
                 | Some d \<Rightarrow> prepend [d] (json_string r))))
      else if byte c < 32 then None
      else if byte c < 128 then prepend [c] (json_string cs)
      else prepend (encode_rune (fst (decode_rune c cs)))
             (json_string (drop (snd (decode_rune c cs) - 1) cs)))"
  by pat_completeness auto
termination
  by (relation "measure length") auto

text \<open>Number literals: \<open>-? (0 | [1-9][0-9]*) (. [0-9]+)? ([eE] [+-]? [0-9]+)?\<close>\<close>

definition is_digit :: "char \<Rightarrow> bool" where
  "is_digit c \<longleftrightarrow> 48 \<le> byte c \<and> byte c \<le> 57"

definition digits1 :: "string \<Rightarrow> (string \<times> string) option" where
  "digits1 s = (let d = takeWhile is_digit s in if d = [] then None else Some (d, drop (length d) s))"

definition json_int :: "string \<Rightarrow> (string \<times> string) option" where
  "json_int s =
     (case s of [] \<Rightarrow> None
      | c # cs \<Rightarrow> if c = CHR ''0'' then Some (''0'', cs) else digits1 s)"

definition json_frac :: "string \<Rightarrow> (string \<times> string) option" where
  "json_frac s =
     (case s of
        c # cs \<Rightarrow> if c = CHR ''.'' then prepend ''.'' (digits1 cs) else Some ([], s)
      | [] \<Rightarrow> Some ([], s))"

definition json_exp :: "string \<Rightarrow> (string \<times> string) option" where
  "json_exp s =
     (case s of
        e # cs \<Rightarrow>
          (if e = CHR ''e'' \<or> e = CHR ''E'' then
             (case cs of
                g # r \<Rightarrow> if g = CHR ''+'' \<or> g = CHR ''-'' then prepend [e, g] (digits1 r)
                         else prepend [e] (digits1 cs)
              | [] \<Rightarrow> None)
           else Some ([], s))
      | [] \<Rightarrow> Some ([], s))"

definition json_number :: "string \<Rightarrow> (string \<times> string) option" where
  "json_number s =
     (let (sgn, s1) = (case s of c # cs \<Rightarrow> if c = CHR ''-'' then (''-'', cs) else ([], s) | [] \<Rightarrow> ([], s))
      in case json_int s1 of None \<Rightarrow> None
         | Some (i, s2) \<Rightarrow>
             (case json_frac s2 of None \<Rightarrow> None
              | Some (f, s3) \<Rightarrow> prepend (sgn @ i @ f) (json_exp s3)))"

text \<open>The nesting limit of Go's scanner.\<close>

definition max_nesting :: nat where "max_nesting = 10000"

definition keyword :: "string \<Rightarrow> json \<Rightarrow> string \<Rightarrow> (json \<times> string) option" where
  "keyword k v s = (if prefix k s then Some (v, drop (length k) s) else None)"

text \<open>
  A value, the elements of a non-empty array and the members of a non-empty object. The first
  argument is fuel, the second the number of open arrays and objects.
\<close>

fun json_value :: "nat \<Rightarrow> nat \<Rightarrow> string \<Rightarrow> (json \<times> string) option"
  and json_elems :: "nat \<Rightarrow> nat \<Rightarrow> string \<Rightarrow> (json list \<times> string) option"
  and json_members :: "nat \<Rightarrow> nat \<Rightarrow> string \<Rightarrow> ((string \<times> json) list \<times> string) option"
where
  "json_value 0 d s = None"
| "json_value (Suc n) d s =
     (case skip_ws s of
        [] \<Rightarrow> None
      | c # cs \<Rightarrow>
          if c = CHR ''{'' then
            (if max_nesting \<le> d then None
             else if prefix ''}'' (skip_ws cs) then Some (JObj [], tl (skip_ws cs))
             else map_option (\<lambda>(m, r). (JObj m, r)) (json_members n (Suc d) cs))
          else if c = CHR ''['' then
            (if max_nesting \<le> d then None
             else if prefix '']'' (skip_ws cs) then Some (JArr [], tl (skip_ws cs))
             else map_option (\<lambda>(m, r). (JArr m, r)) (json_elems n (Suc d) cs))
          else if c = dquote then map_option (\<lambda>(t, r). (JStr t, r)) (json_string cs)
          else if c = CHR ''t'' then keyword ''true'' (JBool True) (c # cs)
          else if c = CHR ''f'' then keyword ''false'' (JBool False) (c # cs)
          else if c = CHR ''n'' then keyword ''null'' JNull (c # cs)
          else map_option (\<lambda>(l, r). (JNum l, r)) (json_number (c # cs)))"
| "json_elems 0 d s = None"
| "json_elems (Suc n) d s =
     (case json_value n d s of
        None \<Rightarrow> None
      | Some (v, r) \<Rightarrow>
          (case skip_ws r of
             [] \<Rightarrow> None
           | c # cs \<Rightarrow>
               if c = CHR '','' then map_option (\<lambda>(vs, r'). (v # vs, r')) (json_elems n d cs)
               else if c = CHR '']'' then Some ([v], cs)
               else None))"
| "json_members 0 d s = None"
| "json_members (Suc n) d s =
     (case skip_ws s of
        [] \<Rightarrow> None
      | q # qs \<Rightarrow>
          if q \<noteq> dquote then None
          else
            (case json_string qs of
               None \<Rightarrow> None
             | Some (k, r) \<Rightarrow>
                 if \<not> prefix '':'' (skip_ws r) then None
                 else
                   (case json_value n d (tl (skip_ws r)) of
                      None \<Rightarrow> None
                    | Some (v, r2) \<Rightarrow>
                        (case skip_ws r2 of
                           [] \<Rightarrow> None
                         | c # cs \<Rightarrow>
                             if c = CHR '','' then
                               map_option (\<lambda>(ms, r'). ((k, v) # ms, r')) (json_members n d cs)
                             else if c = CHR ''}'' then Some ([(k, v)], cs)
                             else None))))"

definition json_parse :: "string \<Rightarrow> json option" where
  "json_parse s =
     (case json_value (2 * length s + 2) 0 s of
        None \<Rightarrow> None
      | Some (v, r) \<Rightarrow> if skip_ws r = [] then Some v else None)"

section \<open>Decoding into Go values\<close>

text \<open>The field a key names: an exact match, else one under case folding.\<close>

definition key_is :: "string \<Rightarrow> string \<Rightarrow> bool" where
  "key_is name k \<longleftrightarrow> equal_fold k name"

fun dec_string :: "json \<Rightarrow> string \<Rightarrow> string option" where
  "dec_string (JStr s) old = Some s"
| "dec_string JNull old = Some old"
| "dec_string _ old = None"

fun dec_int64 :: "json \<Rightarrow> int \<Rightarrow> int option" where
  "dec_int64 (JNum l) old = parse_int64 l"
| "dec_int64 JNull old = Some old"
| "dec_int64 _ old = None"

fun dec_fields :: "(string \<Rightarrow> json \<Rightarrow> 'a \<Rightarrow> 'a option) \<Rightarrow> (string \<times> json) list \<Rightarrow> 'a \<Rightarrow> 'a option" where
  "dec_fields f [] x = Some x"
| "dec_fields f ((k, v) # ms) x =
     (case f k v x of None \<Rightarrow> None | Some y \<Rightarrow> dec_fields f ms y)"

fun dec_struct :: "(string \<Rightarrow> json \<Rightarrow> 'a \<Rightarrow> 'a option) \<Rightarrow> json \<Rightarrow> 'a \<Rightarrow> 'a option" where
  "dec_struct f (JObj ms) x = dec_fields f ms x"
| "dec_struct f JNull x = Some x"
| "dec_struct f _ x = None"

text \<open>\<open>json.Unmarshal(text, &x)\<close> with \<open>x\<close> the zero value.\<close>

definition unmarshal :: "(string \<Rightarrow> json \<Rightarrow> 'a \<Rightarrow> 'a option) \<Rightarrow> 'a \<Rightarrow> string \<Rightarrow> 'a option" where
  "unmarshal f zero s = (case json_parse s of None \<Rightarrow> None | Some j \<Rightarrow> dec_struct f j zero)"

section \<open>The parser consumes its input, and its fuel is enough\<close>

lemma length_skip_ws: "length (skip_ws s) \<le> length s"
  by (simp add: skip_ws_def length_dropWhile_le)

lemma skip_ws_Cons: "skip_ws s = c # cs \<Longrightarrow> length cs < length s"
  using length_skip_ws [of s] by simp

lemma prepend_Some: "prepend p x = Some (a, r) \<longleftrightarrow> (\<exists>b. x = Some (b, r) \<and> a = p @ b)"
  by (auto simp: prepend_def)

lemma json_string_length: "json_string s = Some (t, r) \<Longrightarrow> length r < length s"
proof (induction s arbitrary: t rule: json_string.induct)
  case 1
  then show ?case by simp
next
  case (2 c cs)
  show ?case
  proof (cases "c = dquote \<or> c \<noteq> bslash")
    case True
    with "2.prems" "2.IH"(4,5) show ?thesis
      by (fastforce simp: prepend_Some split: if_splits)
  next
    case False
    with "2.prems" "2.IH"(1,2,3) show ?thesis
      by (fastforce simp: prepend_Some split: if_splits list.splits option.splits)
  qed
qed

lemma digits1_length: "digits1 s = Some (t, r) \<Longrightarrow> length r < length s"
proof -
  assume a: "digits1 s = Some (t, r)"
  then have "r = drop (length t) s" "t \<noteq> []" "t = takeWhile is_digit s"
    by (auto simp: digits1_def Let_def split: if_splits)
  moreover from this have "0 < length t" "length t \<le> length s"
    by (auto simp: length_takeWhile_le)
  moreover have "length r = length s - length t" using calculation(1) by simp
  ultimately show ?thesis by linarith
qed

lemma json_int_length: "json_int s = Some (t, r) \<Longrightarrow> length r < length s"
  by (auto simp: json_int_def split: list.splits if_splits dest: digits1_length)

lemma json_frac_length: "json_frac s = Some (t, r) \<Longrightarrow> length r \<le> length s"
  by (fastforce simp: json_frac_def prepend_Some split: list.splits if_splits dest: digits1_length)

lemma json_exp_length: "json_exp s = Some (t, r) \<Longrightarrow> length r \<le> length s"
  by (fastforce simp: json_exp_def prepend_Some split: list.splits if_splits dest: digits1_length)

lemma json_number_length: "json_number s = Some (t, r) \<Longrightarrow> length r < length s"
  by (fastforce simp: json_number_def prepend_Some Let_def split: list.splits if_splits option.splits
      dest!: json_int_length json_frac_length json_exp_length)

lemma keyword_length: "keyword k v s = Some (w, r) \<Longrightarrow> k \<noteq> [] \<Longrightarrow> length r < length s"
  by (auto simp: keyword_def split: if_splits) (metis diff_less length_greater_0_conv
      order_less_le_trans prefix_length_le)

lemma prefix1_tl: "prefix [c] s \<Longrightarrow> length (tl s) < length s"
  by (cases s) auto

lemma json_lengths:
  "json_value n d s = Some (v, r) \<Longrightarrow> length r < length s"
  "json_elems n d s = Some (vs, r) \<Longrightarrow> length r < length s"
  "json_members n d s = Some (ms, r) \<Longrightarrow> length r < length s"
proof (induction n d s and n d s and n d s arbitrary: v r and vs r and ms r
    rule: json_value_json_elems_json_members.induct)
  case (2 n d s)
  show ?case
  proof (cases "skip_ws s")
    case Nil
    with "2.prems" show ?thesis by simp
  next
    case (Cons c cs)
    have l: "length cs < length s" using skip_ws_Cons [OF Cons] .
    have t: "length (tl (skip_ws cs)) \<le> length cs" using length_skip_ws [of cs] by simp
    have k: "length r < length s" if "keyword w x (c # cs) = Some (v, r)" "w \<noteq> []" for w x
      using keyword_length [OF that] l length_skip_ws [of s] Cons by simp
    have m: "length r < length s" if "json_number (c # cs) = Some (x, r)" for x
      using json_number_length [OF that] l length_skip_ws [of s] Cons by simp
    consider (obj) "c = CHR ''{''" | (arr) "c = CHR ''[''" | (other) "c \<noteq> CHR ''{''" "c \<noteq> CHR ''[''"
      by blast
    then show ?thesis
    proof cases
      case obj
      with "2.prems" Cons l t "2.IH"(1) [OF Cons obj] show ?thesis
        by (auto split: if_splits)
    next
      case arr
      then have "c \<noteq> CHR ''{''" by simp
      with "2.prems" Cons l t arr "2.IH"(2) [OF Cons _ arr] show ?thesis
        by (auto split: if_splits)
    next
      case other
      from "2.prems" Cons other consider x where "json_string cs = Some (x, r)"
        | w x where "keyword w x (c # cs) = Some (v, r)" "w \<noteq> []"
        | x where "json_number (c # cs) = Some (x, r)"
        by (auto split: if_splits)
      then show ?thesis
      proof cases
        case (1 x)
        then show ?thesis using l json_string_length [OF 1] by simp
      next
        case (2 w x)
        then show ?thesis by (rule k)
      next
        case (3 x)
        then show ?thesis by (rule m)
      qed
    qed
  qed
next
  case (4 n d s)
  show ?case
  proof (cases "json_value n d s")
    case None
    with "4.prems" show ?thesis by simp
  next
    case (Some vr)
    obtain v' r' where vr: "vr = (v', r')" by (cases vr)
    with Some "4.IH"(1) have r': "length r' < length s" by simp
    from "4.prems" Some vr obtain c cs where c: "skip_ws r' = c # cs"
      by (auto split: list.splits)
    have l: "length cs < length r'" using skip_ws_Cons [OF c] .
    show ?thesis
    proof (cases "c = CHR '',''")
      case True
      with "4.prems" Some vr c obtain ws where ws: "json_elems n d cs = Some (ws, r)" by auto
      have "length r < length cs" by (rule "4.IH"(2) [OF Some vr [symmetric] c True ws])
      with l r' show ?thesis by simp
    next
      case False
      with "4.prems" Some vr c l r' show ?thesis by (auto split: if_splits)
    qed
  qed
next
  case (6 n d s)
  show ?case
  proof (cases "skip_ws s")
    case Nil
    with "6.prems" show ?thesis by simp
  next
    case (Cons q qs)
    have qs: "length qs < length s" using skip_ws_Cons [OF Cons] .
    from "6.prems" Cons obtain k r1 where k: "json_string qs = Some (k, r1)" and q: "q = dquote"
      and p: "prefix '':'' (skip_ws r1)"
      by (auto split: if_splits option.splits)
    have r1: "length r1 < length qs" using json_string_length [OF k] .
    have t: "length (tl (skip_ws r1)) < length qs"
      using r1 length_skip_ws [of r1] by simp
    from "6.prems" Cons k q p obtain v2 r2
      where v2: "json_value n d (tl (skip_ws r1)) = Some (v2, r2)"
      by (auto split: option.splits)
    with "6.IH"(1) [OF Cons _ k _] q p have "length r2 < length (tl (skip_ws r1))" by simp
    then have r2: "length r2 < length s" using t qs by simp
    from "6.prems" Cons k q p v2 obtain c cs where c: "skip_ws r2 = c # cs"
      by (auto split: list.splits)
    have l: "length cs < length r2" using skip_ws_Cons [OF c] .
    show ?thesis
    proof (cases "c = CHR '',''")
      case True
      with "6.prems" Cons k q p v2 c obtain ws where ws: "json_members n d cs = Some (ws, r)"
        by auto
      from "6.IH"(2) [OF Cons _ k _ _ v2 _ c True ws] q p have "length r < length cs" by simp
      with l r2 show ?thesis by simp
    next
      case False
      with "6.prems" Cons k q p v2 c l r2 show ?thesis by (auto split: if_splits)
    qed
  qed
qed simp_all

text \<open>With fuel beyond twice the length of the text the result no longer depends on the fuel.\<close>

lemma json_fuel:
  "(2 * length s + 1 \<le> n \<longrightarrow> json_value (n + k) d s = json_value n d s)
   \<and> (2 * length s + 2 \<le> n \<longrightarrow> json_elems (n + k) d s = json_elems n d s)
   \<and> (2 * length s + 2 \<le> n \<longrightarrow> json_members (n + k) d s = json_members n d s)"
proof (induction n arbitrary: d s)
  case 0
  show ?case by simp
next
  case (Suc n)
  have v: "json_value (n + k) d' s' = json_value n d' s'" if "2 * length s' + 1 \<le> n" for d' s'
    using Suc.IH that by blast
  have e: "json_elems (n + k) d' s' = json_elems n d' s'" if "2 * length s' + 2 \<le> n" for d' s'
    using Suc.IH that by blast
  have m: "json_members (n + k) d' s' = json_members n d' s'" if "2 * length s' + 2 \<le> n" for d' s'
    using Suc.IH that by blast
  have "json_value (Suc n + k) d s = json_value (Suc n) d s" if l: "2 * length s + 1 \<le> Suc n"
  proof (cases "skip_ws s")
    case (Cons c cs)
    from skip_ws_Cons [OF Cons] l have "2 * length cs + 2 \<le> n" by simp
    from e [OF this] m [OF this] show ?thesis using Cons by simp
  qed simp
  moreover have "json_elems (Suc n + k) d s = json_elems (Suc n) d s"
    if l: "2 * length s + 2 \<le> Suc n"
  proof (cases "json_value n d s")
    case None
    with v [of s d] l show ?thesis by simp
  next
    case (Some vr)
    obtain w r where vr: "vr = (w, r)" by (cases vr)
    have "json_elems (n + k) d cs = json_elems n d cs" if "skip_ws r = c # cs" for c cs
      using json_lengths(1) [of n d s w r] skip_ws_Cons [OF that] Some vr l by (intro e) simp
    with Some v [of s d] l vr show ?thesis by (simp split: list.split)
  qed
  moreover have "json_members (Suc n + k) d s = json_members (Suc n) d s"
    if l: "2 * length s + 2 \<le> Suc n"
  proof (cases "skip_ws s")
    case (Cons q qs)
    have qs: "length qs < length s" using skip_ws_Cons [OF Cons] .
    show ?thesis
    proof (cases "json_string qs")
      case (Some kr)
      obtain x r where kr: "kr = (x, r)" by (cases kr)
      have r: "length (tl (skip_ws r)) < length qs"
        using json_string_length [of qs x r] Some kr length_skip_ws [of r] by simp
      have "json_members (n + k) d cs = json_members n d cs"
        if "json_value n d (tl (skip_ws r)) = Some (w, r2)" "skip_ws r2 = c # cs" for w r2 c cs
        using json_lengths(1) [OF that(1)] skip_ws_Cons [OF that(2)] r qs l by (intro m) simp
      moreover have "json_value (n + k) d (tl (skip_ws r)) = json_value n d (tl (skip_ws r))"
        using r qs l by (intro v) simp
      ultimately show ?thesis using Cons Some kr by (simp split: option.split list.split)
    qed (use Cons in simp)
  qed simp
  ultimately show ?case by blast
qed

text \<open>So the parser's own fuel decides: more of it parses no other text.\<close>

lemma json_parse_fuel:
  assumes "2 * length s + 2 \<le> n"
  shows "json_parse s =
    (case json_value n 0 s of None \<Rightarrow> None
     | Some (v, r) \<Rightarrow> if skip_ws r = [] then Some v else None)"
proof -
  obtain k where k: "n = (2 * length s + 2) + k" using assms le_Suc_ex by blast
  have "2 * length s + 1 \<le> 2 * length s + 2" by simp
  with json_fuel [of s "2 * length s + 2" k 0]
  have "json_value ((2 * length s + 2) + k) 0 s = json_value (2 * length s + 2) 0 s" by blast
  then show ?thesis by (simp only: json_parse_def k)
qed

declare json_value.simps [simp del] json_elems.simps [simp del] json_members.simps [simp del]

end
