(* ===== verification/GoHttp.thy ===== *)
theory GoHttp
  imports GoText
begin

text \<open>
  The parts of \<open>net/http\<close> the middleware touches: header maps, the fields of a server request it
  reads, and the response it writes.
\<close>

section \<open>Headers\<close>

text \<open>\<open>http.Header\<close>: the values under each canonical key; an absent key has none.\<close>

type_synonym header = "string \<Rightarrow> string list"

definition token_char :: "char \<Rightarrow> bool" where
  "token_char c \<longleftrightarrow> (let b = byte c in
     (97 \<le> b \<and> b \<le> 122) \<or> (65 \<le> b \<and> b \<le> 90) \<or> (48 \<le> b \<and> b \<le> 57)
     \<or> c \<in> set ''!#$%&*+-.^_`|~'' \<or> b = 39)"

fun canonical_from :: "bool \<Rightarrow> string \<Rightarrow> string" where
  "canonical_from up [] = []"
| "canonical_from up (c # cs) =
     (if up then upper_char c else lower_char c) # canonical_from (c = CHR ''-'') cs"

text \<open>\<open>textproto.CanonicalMIMEHeaderKey\<close>\<close>

definition canonical_key :: "string \<Rightarrow> string" where
  "canonical_key k = (if (\<forall>c \<in> set k. token_char c) then canonical_from True k else k)"

definition header_values :: "header \<Rightarrow> string \<Rightarrow> string list" where
  "header_values h k = h (canonical_key k)"

definition header_get :: "header \<Rightarrow> string \<Rightarrow> string" where
  "header_get h k = (case header_values h k of [] \<Rightarrow> [] | v # _ \<Rightarrow> v)"

definition header_set :: "string \<Rightarrow> string \<Rightarrow> header \<Rightarrow> header" where
  "header_set k v h = h(canonical_key k := [v])"

definition header_add :: "string \<Rightarrow> string \<Rightarrow> header \<Rightarrow> header" where
  "header_add k v h = h(canonical_key k := h (canonical_key k) @ [v])"

definition no_header :: header where
  "no_header = (\<lambda>_. [])"

text \<open>A header map as a server builds it from the header lines, in their order.\<close>

definition header_of :: "(string \<times> string) list \<Rightarrow> header" where
  "header_of kvs = fold (\<lambda>(k, v). header_add k v) kvs no_header"

text \<open>The spellings \<open>DPoP\<close>, \<open>dpop\<close> and \<open>DPOP\<close> are one header.\<close>

lemma canonical_dpop:
  "canonical_key ''DPoP'' = ''Dpop''" "canonical_key ''dpop'' = ''Dpop''"
  "canonical_key ''DPOP'' = ''Dpop''"
  by code_simp+

section \<open>Requests and responses\<close>

text \<open>\<open>*http.Request\<close>: \<open>req_path\<close> is \<open>r.URL.Path\<close>, that is, the decoded path.\<close>

record request =
  req_method :: string
  req_path :: string
  req_host :: string
  req_tls :: bool
  req_header :: header
  req_remote_addr :: string

record response =
  resp_header :: header
  resp_status :: "nat option"
  resp_body :: string

definition new_response :: response where
  "new_response = \<lparr>resp_header = no_header, resp_status = None, resp_body = []\<rparr>"

definition set_header :: "string \<Rightarrow> string \<Rightarrow> response \<Rightarrow> response" where
  "set_header k v w = w\<lparr>resp_header := header_set k v (resp_header w)\<rparr>"

definition add_header :: "string \<Rightarrow> string \<Rightarrow> response \<Rightarrow> response" where
  "add_header k v w = w\<lparr>resp_header := header_add k v (resp_header w)\<rparr>"

text \<open>
  \<open>WriteHeader\<close>: the first call decides, but a status between 100 and 199 other than 101 is only
  informational: the server sends it at once as an interim response, which a client skips, and the
  response stays open. A status that allows no body makes \<open>Write\<close> fail with \<open>ErrBodyNotAllowed\<close>: nothing
  is written. \<open>Write\<close> before any \<open>WriteHeader\<close> sends 200.
\<close>

definition informational :: "nat \<Rightarrow> bool" where
  "informational s \<longleftrightarrow> 100 \<le> s \<and> s \<le> 199 \<and> s \<noteq> 101"

definition body_allowed :: "nat \<Rightarrow> bool" where
  "body_allowed s \<longleftrightarrow> \<not> (100 \<le> s \<and> s \<le> 199) \<and> s \<noteq> 204 \<and> s \<noteq> 304"

definition write_header :: "nat \<Rightarrow> response \<Rightarrow> response" where
  "write_header s w =
     (if resp_status w = None \<and> \<not> informational s then w\<lparr>resp_status := Some s\<rparr> else w)"

definition write_body :: "string \<Rightarrow> response \<Rightarrow> response" where
  "write_body b w =
     (let w1 = write_header 200 w
      in case resp_status w1 of
           Some s \<Rightarrow> if body_allowed s then w1\<lparr>resp_body := resp_body w1 @ b\<rparr> else w1
         | None \<Rightarrow> w1)"

definition user_agent :: "request \<Rightarrow> string" where
  "user_agent r = header_get (req_header r) ''User-Agent''"

section \<open>The client side of a fetch\<close>

text \<open>
  What \<open>client.Do\<close> followed by reading the body brings back: a transport error, or a status and
  the body (or the error of reading it). Which reply a server sends is not the program's choice.
\<close>

datatype http_reply = TransportError string | Reply nat "bytes result"

text \<open>\<open>io.ReadAll(io.LimitReader(body, 1<<20))\<close>\<close>

definition body_limit :: nat where "body_limit = 1048576"

definition read_limited :: "bytes result \<Rightarrow> bytes result" where
  "read_limited b = (case b of Inl e \<Rightarrow> Inl e | Inr s \<Rightarrow> Inr (take body_limit s))"

lemma final_status [simp]: "200 \<le> s \<Longrightarrow> \<not> informational s"
  by (simp add: informational_def)

lemma body_of_final [simp]: "200 \<le> s \<Longrightarrow> s \<noteq> 204 \<Longrightarrow> s \<noteq> 304 \<Longrightarrow> body_allowed s"
  by (simp add: body_allowed_def)

lemma informational_not: "body_allowed s \<Longrightarrow> \<not> informational s"
  by (auto simp: informational_def body_allowed_def)

lemma response_sel [simp]:
  "resp_header (set_header k v w) = header_set k v (resp_header w)"
  "resp_header (add_header k v w) = header_add k v (resp_header w)"
  "resp_header (write_header s w) = resp_header w"
  "resp_status (set_header k v w) = resp_status w"
  "resp_status (add_header k v w) = resp_status w"
  "resp_body (set_header k v w) = resp_body w"
  "resp_body (add_header k v w) = resp_body w"
  "resp_body (write_header s w) = resp_body w"
  "resp_status (write_header s w) = (if resp_status w = None \<and> \<not> informational s then Some s else resp_status w)"
  "resp_header (write_body b w) = resp_header w"
  "resp_status (write_body b w) = (if resp_status w = None then Some 200 else resp_status w)"
  by (simp_all add: set_header_def add_header_def write_header_def write_body_def Let_def split: option.split)

text \<open>The two ways in which a handler writes a body that is sent.\<close>

lemma write_body_after: "resp_status w = Some s \<Longrightarrow> body_allowed s \<Longrightarrow> write_body b w = w\<lparr>resp_body := resp_body w @ b\<rparr>"
  by (simp add: write_body_def write_header_def)

lemma write_body_first: "resp_status w = None \<Longrightarrow> write_body b w = w\<lparr>resp_status := Some 200, resp_body := resp_body w @ b\<rparr>"
  by (simp add: write_body_def write_header_def)

lemma write_body_sent [simp]:
  "resp_status w = Some s \<Longrightarrow> resp_body (write_body b w) = resp_body w @ (if body_allowed s then b else [])"
  "resp_status w = None \<Longrightarrow> resp_body (write_body b w) = resp_body w @ b"
  by (simp_all add: write_body_def Let_def write_header_def)

end
