(* ===== verification/GoTime.thy ===== *)
theory GoTime
  imports Prelude
begin

text \<open>
  Go's \<open>time.Time\<close> and \<open>time.Duration\<close>. An instant is a number of nanoseconds since
  January 1 of year 1 (so Go's zero \<open>Time\<close> is 0), a duration a number of nanoseconds. Go keeps
  the seconds of an instant in an \<open>int64\<close>: \<open>time.Unix\<close> adds its offset with wrap-around,
  \<open>Add\<close> saturates, \<open>Sub\<close> saturates the difference to an \<open>int64\<close> of nanoseconds.
\<close>

type_synonym instant = int
type_synonym duration = int

definition nanos :: int where "nanos = 1000000000"

abbreviation second :: duration where "second \<equiv> nanos"

definition minutes :: "int \<Rightarrow> duration" where "minutes n = n * 60 * nanos"

definition zero_time :: instant where "zero_time = 0"

text \<open>Seconds from year 1 to the Unix epoch.\<close>

definition unix_to_internal :: int where "unix_to_internal = 62135596800"

definition wrap64 :: "int \<Rightarrow> int" where
  "wrap64 n = (n + 2 ^ 63) mod 2 ^ 64 - 2 ^ 63"

definition sat64 :: "int \<Rightarrow> int" where
  "sat64 n = (if n > 2 ^ 63 - 1 then 2 ^ 63 - 1 else if n < - (2 ^ 63) then - (2 ^ 63) else n)"

text \<open>\<open>time.Unix(sec, 0)\<close>\<close>

definition time_unix :: "int \<Rightarrow> instant" where
  "time_unix sec = wrap64 (sec + unix_to_internal) * nanos"

text \<open>\<open>t.Unix()\<close>: seconds since the epoch, rounded down.\<close>

definition unix_seconds :: "instant \<Rightarrow> int" where
  "unix_seconds t = wrap64 (t div nanos - unix_to_internal)"

text \<open>\<open>t.Add(d)\<close>: the seconds saturate, the nanoseconds within the second are kept.\<close>

definition time_add :: "instant \<Rightarrow> duration \<Rightarrow> instant" where
  "time_add t d =
     (let s = (t + d) div nanos; n = (t + d) mod nanos
      in (if s > 2 ^ 63 - 1 then 2 ^ 63 - 1 else if s < - (2 ^ 63) then - (2 ^ 63 - 1) else s)
           * nanos + n)"

text \<open>\<open>t.Sub(u)\<close>, \<open>t.Before(u)\<close> and \<open>t.After(u)\<close>.\<close>

definition time_sub :: "instant \<Rightarrow> instant \<Rightarrow> duration" where
  "time_sub t u = sat64 (t - u)"

definition before :: "instant \<Rightarrow> instant \<Rightarrow> bool" where
  "before t u \<longleftrightarrow> t < u"

definition after :: "instant \<Rightarrow> instant \<Rightarrow> bool" where
  "after t u \<longleftrightarrow> u < t"

text \<open>An instant whose seconds are far from the ends of \<open>int64\<close>: every date a clock shows.\<close>

definition sane_time :: "instant \<Rightarrow> bool" where
  "sane_time t \<longleftrightarrow> 0 \<le> t \<and> t < 2 ^ 62 * nanos"

definition sane_duration :: "duration \<Rightarrow> bool" where
  "sane_duration d \<longleftrightarrow> - (2 ^ 63) \<le> d \<and> d < 2 ^ 63"

lemma nanos_pos [simp]: "0 < nanos" "nanos \<noteq> 0"
  by (simp_all add: nanos_def)

lemma time_add_exact:
  assumes "- (2 ^ 63) * nanos \<le> t + d" and "t + d < 2 ^ 63 * nanos"
  shows "time_add t d = t + d"
proof -
  have "(t + d) div nanos < 2 ^ 63" using assms(2) by (simp add: nanos_def) 
  moreover have "- (2 ^ 63) \<le> (t + d) div nanos" using assms(1) by (simp add: nanos_def)
  ultimately show ?thesis by (simp add: time_add_def Let_def)
qed

lemma time_add_sane [simp]: "sane_time t \<Longrightarrow> sane_duration d \<Longrightarrow> time_add t d = t + d"
  by (rule time_add_exact) (simp_all add: sane_time_def sane_duration_def nanos_def)

lemma wrap64_id: "- (2 ^ 63) \<le> n \<Longrightarrow> n < 2 ^ 63 \<Longrightarrow> wrap64 n = n"
  by (simp add: wrap64_def)

lemma wrap64_range: "- (2 ^ 63) \<le> wrap64 n" "wrap64 n < 2 ^ 63"
proof -
  have "0 \<le> (n + 2 ^ 63) mod 2 ^ 64" "(n + 2 ^ 63) mod 2 ^ 64 < (2 ^ 64 :: int)" by simp_all
  then show "- (2 ^ 63) \<le> wrap64 n" "wrap64 n < 2 ^ 63" by (simp_all add: wrap64_def)
qed

lemma time_unix_exact: "0 \<le> sec \<Longrightarrow> sec < 2 ^ 62 \<Longrightarrow> time_unix sec = (sec + unix_to_internal) * nanos"
  by (simp add: time_unix_def wrap64_id unix_to_internal_def)

text \<open>An \<open>iat\<close> so large that its seconds wrap around lands before year 1.\<close>

lemma time_unix_wraps:
  assumes "2 ^ 63 - unix_to_internal \<le> sec" and "sec < 2 ^ 63"
  shows "time_unix sec < 0"
proof -
  let ?n = "sec + unix_to_internal + 2 ^ 63"
  have "?n mod 2 ^ 64 = (?n - 2 ^ 64) mod 2 ^ 64" by (rule minus_mod_self2 [symmetric])
  also have "\<dots> = ?n - 2 ^ 64"
    using assms by (intro mod_pos_pos_trivial) (simp_all add: unix_to_internal_def)
  finally have "wrap64 (sec + unix_to_internal) = sec + unix_to_internal - 2 ^ 64"
    by (simp add: wrap64_def)
  also have "\<dots> < 0" using assms by (simp add: unix_to_internal_def)
  finally show ?thesis by (simp add: time_unix_def nanos_def)
qed

lemma time_sub_sane: "sane_duration (t - u) \<Longrightarrow> time_sub t u = t - u"
  by (auto simp: time_sub_def sat64_def sane_duration_def)

lemma time_sub_ge: "sane_duration d \<Longrightarrow> d \<le> time_sub t u \<longleftrightarrow> (d \<le> t - u \<or> d = - (2 ^ 63))"
  by (auto simp: time_sub_def sat64_def sane_duration_def)

end
