(* ===== verification/World.thy ===== *)
theory World
  imports GoHttp GoTime
begin

text \<open>
  The state a request handler works on, threaded through every call: the clock, the network, the
  audit sink, the JWKS cache and the replay cache. Every reading of \<open>time.Now()\<close> is a separate
  step: the clock is the sequence of the readings to come and a counter, so two readings in one
  request may differ, as they do in the program. The network is the sequence of the replies to
  the requests the program makes, and the list of those requests.
\<close>

section \<open>Audit events (audit.go)\<close>

text \<open>\<open>EventKind\<close> and \<open>Outcome\<close> are string types with these constants.\<close>

definition EventTokenValidated :: string where "EventTokenValidated = ''token_validated''"
definition EventTokenRejected :: string where "EventTokenRejected = ''token_rejected''"
definition EventTokenExchanged :: string where "EventTokenExchanged = ''token_exchanged''"
definition EventDPoPVerified :: string where "EventDPoPVerified = ''dpop_verified''"
definition EventDPoPRejected :: string where "EventDPoPRejected = ''dpop_rejected''"
definition EventMetadataServed :: string where "EventMetadataServed = ''metadata_served''"
definition EventJTIReplay :: string where "EventJTIReplay = ''jti_replay''"

definition OutcomeAllow :: string where "OutcomeAllow = ''allow''"
definition OutcomeDeny :: string where "OutcomeDeny = ''deny''"
definition OutcomeError :: string where "OutcomeError = ''error''"

lemmas event_kind_defs = EventTokenValidated_def EventTokenRejected_def EventTokenExchanged_def
  EventDPoPVerified_def EventDPoPRejected_def EventMetadataServed_def EventJTIReplay_def

lemmas outcome_defs = OutcomeAllow_def OutcomeDeny_def OutcomeError_def

record http_context =
  hc_method :: string
  hc_path :: string
  hc_remote_addr :: string
  hc_user_agent :: string

record event =
  ev_timestamp :: instant
  ev_kind :: string
  ev_outcome :: string
  ev_subject :: string
  ev_issuer :: string
  ev_audience :: "string list"
  ev_scope :: "string list"
  ev_resource :: string
  ev_reason :: string
  ev_error :: string
  ev_http :: http_context

definition empty_event :: event where
  "empty_event = \<lparr>ev_timestamp = zero_time, ev_kind = [], ev_outcome = [], ev_subject = [],
     ev_issuer = [], ev_audience = [], ev_scope = [], ev_resource = [], ev_reason = [],
     ev_error = [],
     ev_http = \<lparr>hc_method = [], hc_path = [], hc_remote_addr = [], hc_user_agent = []\<rparr>\<rparr>"

section \<open>The world\<close>

text \<open>The mutable fields of \<open>remoteKeySource\<close>, but for the in-flight channel (theory KeysConc).\<close>

record 's key_cache =
  kc_set :: "'s option"
  kc_fetched_at :: instant
  kc_last_err :: "string option"

definition empty_key_cache :: "'s key_cache" where
  "empty_key_cache = \<lparr>kc_set = None, kc_fetched_at = zero_time, kc_last_err = None\<rparr>"

text \<open>\<open>memReplay\<close> of dpop_replay.go: the expiry of each recorded jti, and when it was last swept.\<close>

record mem_replay =
  mr_seen :: "string \<rightharpoonup> instant"
  mr_sweep_every :: duration
  mr_last_sweep :: instant

text \<open>
  \<open>w_keys\<close> is the state of the remote key source and \<open>w_mem\<close> that of the default replay cache;
  \<open>w_ext\<close> is the state of what the caller of the library supplies (its own replay cache, nonce
  source or validators), of any type.
\<close>

record ('s, 'e) world =
  w_clock :: "nat \<Rightarrow> instant"
  w_tick :: nat
  w_net :: "nat \<Rightarrow> http_reply"
  w_gets :: "string list"
  w_audit :: "event list"
  w_keys :: "'s key_cache"
  w_mem :: mem_replay
  w_ext :: 'e

text \<open>\<open>time.Now()\<close>\<close>

definition now :: "('s, 'e) world \<Rightarrow> instant \<times> ('s, 'e) world" where
  "now w = (w_clock w (w_tick w), w\<lparr>w_tick := Suc (w_tick w)\<rparr>)"

text \<open>A GET request to the network.\<close>

definition http_get :: "string \<Rightarrow> ('s, 'e) world \<Rightarrow> http_reply \<times> ('s, 'e) world" where
  "http_get url w = (w_net w (length (w_gets w)), w\<lparr>w_gets := w_gets w @ [url]\<rparr>)"

text \<open>\<open>Emitter.Emit\<close>: what the emitter does with an event is its own business.\<close>

definition emit_event :: "event \<Rightarrow> ('s, 'e) world \<Rightarrow> ('s, 'e) world" where
  "emit_event e w = w\<lparr>w_audit := w_audit w @ [e]\<rparr>"

text \<open>A clock that does not run backwards.\<close>

definition steady :: "(nat \<Rightarrow> instant) \<Rightarrow> bool" where
  "steady clk \<longleftrightarrow> (\<forall>i j. i \<le> j \<longrightarrow> clk i \<le> clk j)"

lemma steadyD: "steady clk \<Longrightarrow> i \<le> j \<Longrightarrow> clk i \<le> clk j"
  by (simp add: steady_def)

section \<open>What a call leaves alone\<close>

text \<open>
  \<open>quiet w w'\<close>: from \<open>w\<close> to \<open>w'\<close> nothing was emitted and neither the replay cache nor the caller's
  state was touched; the clock is the same and has not gone back. Every check of the pipeline but
  the replay check is quiet.
\<close>

definition later :: "('s, 'e) world \<Rightarrow> ('s, 'e) world \<Rightarrow> bool" where
  "later w w' \<longleftrightarrow> w_clock w' = w_clock w \<and> w_tick w \<le> w_tick w'"

definition quiet :: "('s, 'e) world \<Rightarrow> ('s, 'e) world \<Rightarrow> bool" where
  "quiet w w' \<longleftrightarrow> later w w' \<and> w_audit w' = w_audit w \<and> w_mem w' = w_mem w"

lemma later_refl [simp]: "later w w"
  by (simp add: later_def)

lemma later_trans: "later u v \<Longrightarrow> later v w \<Longrightarrow> later u w"
  by (auto simp: later_def)

lemma quiet_refl [simp]: "quiet w w"
  by (simp add: quiet_def)

lemma quiet_trans: "quiet u v \<Longrightarrow> quiet v w \<Longrightarrow> quiet u w"
  by (auto simp: quiet_def intro: later_trans)

lemma quiet_later: "quiet u v \<Longrightarrow> later u v"
  by (simp add: quiet_def)

lemma now_quiet: "now w = (t, w') \<Longrightarrow> quiet w w'"
  by (auto simp: now_def quiet_def later_def)

lemma http_get_quiet: "http_get u w = (r, w') \<Longrightarrow> quiet w w'"
  by (auto simp: http_get_def quiet_def later_def)

lemma emit_event_later [simp]: "later w (emit_event e w)"
  by (simp add: emit_event_def later_def)

lemma emit_event_sel [simp]:
  "w_audit (emit_event e w) = w_audit w @ [e]"
  "w_mem (emit_event e w) = w_mem w"
  "w_ext (emit_event e w) = w_ext w"
  "w_keys (emit_event e w) = w_keys w"
  "w_clock (emit_event e w) = w_clock w"
  "w_tick (emit_event e w) = w_tick w"
  by (simp_all add: emit_event_def)

end
