(* ===== verification/Jose.thy ===== *)
theory Jose
  imports GoJson World
begin

text \<open>
  The JOSE library lestrrat-go/jwx is a dependency of the module, not part of it: its functions
  are the fields of the record \<open>jose\<close>, a parameter of every definition that calls it. The types
  \<open>'k\<close> and \<open>'s\<close> are its key and its key set; a signature algorithm is its name. \<open>uprint\<close> is Go's
  table of the printable runes above U+00FF, which \<open>%q\<close> consults. Errors are texts.
\<close>

record 'k jws_header =
  hdr_kid :: "string option"
  hdr_alg :: "string option"
  hdr_typ :: "string option"
  hdr_jwk :: "'k option"

record jwt_token =
  tok_subject :: "string option"
  tok_issuer :: "string option"
  tok_audience :: "string list option"
  tok_expiration :: "instant option"
  tok_issued_at :: "instant option"
  tok_not_before :: "instant option"
  tok_claim :: "string \<Rightarrow> json option"

text \<open>
  \<^item> \<open>jws_parse raw\<close>: the protected headers of the signatures of \<open>jws.Parse\<close>;
  \<^item> \<open>jws_verify raw alg key\<close>: the payload, when the signature verifies under the key;
  \<^item> \<open>jwa_lookup name\<close>: \<open>jwa.LookupSignatureAlgorithm\<close>, \<open>Some\<close> of \<open>IsSymmetric\<close>;
  \<^item> \<open>jwk_parse\<close>, \<open>jwk_lookup set kid\<close>: a key set, and whether it holds a key with that id;
  \<^item> \<open>jwk_private\<close>, \<open>jwk_thumbprint\<close>: \<open>jwk.IsPrivateKey\<close> and the SHA-256 thumbprint of a key;
  \<^item> \<open>jwt_parse raw set issuer skew now\<close>: \<open>jwt.Parse\<close> with a key set, an issuer and a skew, at the
    instant it reads the clock.
\<close>

record ('k, 's) jose =
  jws_parse :: "bytes \<Rightarrow> 'k jws_header list result"
  jws_verify :: "bytes \<Rightarrow> string \<Rightarrow> 'k \<Rightarrow> bytes result"
  jwa_lookup :: "string \<Rightarrow> bool option"
  jwk_parse :: "bytes \<Rightarrow> 's result"
  jwk_lookup :: "'s \<Rightarrow> string \<Rightarrow> bool"
  jwk_private :: "'k \<Rightarrow> bool result"
  jwk_thumbprint :: "'k \<Rightarrow> bytes result"
  jwt_parse :: "bytes \<Rightarrow> 's \<Rightarrow> string \<Rightarrow> duration \<Rightarrow> instant \<Rightarrow> jwt_token result"
  uprint :: "nat \<Rightarrow> bool"

text \<open>
  What the code relies on in \<open>jwt.Parse\<close>, as its documentation states it: \<open>WithIssuer\<close> makes it
  fail unless the issuer is the given one, and \<open>exp\<close> and \<open>nbf\<close>, when present, are checked against
  the clock with the acceptable skew.
\<close>

definition jwt_validates :: "('k, 's) jose \<Rightarrow> bool" where
  "jwt_validates J \<longleftrightarrow>
     (\<forall>raw ks iss skew t tok. jwt_parse J raw ks iss skew t = Inr tok \<longrightarrow>
        tok_issuer tok = Some iss
        \<and> (\<forall>e. tok_expiration tok = Some e \<longrightarrow> t - skew < e)
        \<and> (\<forall>n. tok_not_before tok = Some n \<longrightarrow> n \<le> t + skew))"

section \<open>The algorithm allowlist (parseAlgs of bearer.go)\<close>

fun add_algs :: "('k, 's) jose \<Rightarrow> string list \<Rightarrow> string list \<Rightarrow> string list result" where
  "add_algs J [] out = Inr out"
| "add_algs J (n # ns) out =
     (if n = ''none'' \<or> prefix ''HS'' n
      then Inl (''aoa: algorithm '' @ quote (uprint J) n @ '' is not allowed (asymmetric only)'')
      else
        (case jwa_lookup J n of
           None \<Rightarrow> Inl (''aoa: unknown algorithm '' @ quote (uprint J) n)
         | Some symm \<Rightarrow>
             if symm
             then Inl (''aoa: algorithm '' @ quote (uprint J) n @ '' is symmetric and not allowed'')
             else add_algs J ns (List.insert n out)))"

text \<open>The Go map of the allowed names is the list of its keys.\<close>

definition parse_algs :: "('k, 's) jose \<Rightarrow> string list \<Rightarrow> string list result" where
  "parse_algs J names =
     add_algs J (if names = [] then [''RS256'', ''ES256'', ''EdDSA''] else names) []"

definition asymmetric :: "('k, 's) jose \<Rightarrow> string \<Rightarrow> bool" where
  "asymmetric J n \<longleftrightarrow> n \<noteq> ''none'' \<and> \<not> prefix ''HS'' n \<and> jwa_lookup J n = Some False"

lemma add_algs_Inr:
  "add_algs J ns out = Inr algs \<longleftrightarrow>
     (\<forall>n \<in> set ns. asymmetric J n) \<and> algs = fold List.insert ns out"
  by (induction ns arbitrary: out) (auto simp: asymmetric_def split: option.splits)

lemma set_fold_insert: "set (fold List.insert ns out) = set ns \<union> set out"
  by (induction ns arbitrary: out) auto

lemma parse_algs_set:
  assumes "parse_algs J names = Inr algs"
  shows "set algs = (if names = [] then {''RS256'', ''ES256'', ''EdDSA''} else set names)"
    and "\<forall>a \<in> set algs. asymmetric J a"
  using assms by (auto simp: parse_algs_def add_algs_Inr set_fold_insert split: if_splits)

section \<open>The key id and algorithm of a token (headerKIDAlg of bearer.go)\<close>

definition header_kid_alg :: "('k, 's) jose \<Rightarrow> bytes \<Rightarrow> (string \<times> string) result" where
  "header_kid_alg J raw =
     (case jws_parse J raw of
        Inl e \<Rightarrow> Inl e
      | Inr [] \<Rightarrow> Inl ''no signatures''
      | Inr (h # _) \<Rightarrow>
          Inr (case hdr_kid h of None \<Rightarrow> [] | Some k \<Rightarrow> k,
               case hdr_alg h of None \<Rightarrow> [] | Some a \<Rightarrow> a))"

end
