(* ===== verification/GoCodec.thy ===== *)
theory GoCodec
  imports GoText "HOL-Library.Word"
begin

text \<open>
  \<open>encoding/base64\<close>'s \<open>RawURLEncoding\<close>, \<open>crypto/sha256\<close> (FIPS 180-4) and \<open>crypto/hmac\<close>
  (RFC 2104), as the code uses them: on whole byte strings.
\<close>

unbundle bit_operations_syntax

section \<open>base64.RawURLEncoding\<close>

definition b64_char :: "nat \<Rightarrow> char" where
  "b64_char d =
     (if d < 26 then char_of (65 + d)
      else if d < 52 then char_of (71 + d)
      else if d < 62 then char_of (d - 4)
      else if d = 62 then CHR ''-'' else CHR ''_'')"

definition b64_val :: "char \<Rightarrow> nat option" where
  "b64_val c =
     (let b = byte c in
      if 65 \<le> b \<and> b \<le> 90 then Some (b - 65)
      else if 97 \<le> b \<and> b \<le> 122 then Some (b - 71)
      else if 48 \<le> b \<and> b \<le> 57 then Some (b + 4)
      else if b = 45 then Some 62
      else if b = 95 then Some 63
      else None)"

text \<open>\<open>EncodeToString\<close>\<close>

fun b64_encode :: "bytes \<Rightarrow> string" where
  "b64_encode [] = []"
| "b64_encode [a] = [b64_char (byte a div 4), b64_char (byte a mod 4 * 16)]"
| "b64_encode [a, b] =
     [b64_char (byte a div 4), b64_char (byte a mod 4 * 16 + byte b div 16),
      b64_char (byte b mod 16 * 4)]"
| "b64_encode (a # b # c # s) =
     b64_char (byte a div 4) # b64_char (byte a mod 4 * 16 + byte b div 16)
     # b64_char (byte b mod 16 * 4 + byte c div 64) # b64_char (byte c mod 64) # b64_encode s"

text \<open>
  \<open>DecodeString\<close>: CR and LF are skipped anywhere, the encoding is not strict (the bits left over
  in the last digit are ignored) and a single left-over digit is an error.
\<close>

fun b64_quanta :: "nat list \<Rightarrow> bytes option" where
  "b64_quanta [] = Some []"
| "b64_quanta [a] = None"
| "b64_quanta [a, b] = Some [char_of (a * 4 + b div 16)]"
| "b64_quanta [a, b, c] = Some [char_of (a * 4 + b div 16), char_of (b mod 16 * 16 + c div 4)]"
| "b64_quanta (a # b # c # d # s) =
     map_option (\<lambda>r. char_of (a * 4 + b div 16) # char_of (b mod 16 * 16 + c div 4)
        # char_of (c mod 4 * 64 + d) # r) (b64_quanta s)"

definition b64_decode :: "string \<Rightarrow> bytes option" where
  "b64_decode s =
     (let ds = map b64_val (filter (\<lambda>c. byte c \<noteq> 10 \<and> byte c \<noteq> 13) s)
      in if None \<in> set ds then None else b64_quanta (map the ds))"

lemma b64_char_props:
  assumes "d < 64"
  shows "b64_val (b64_char d) = Some d" "byte (b64_char d) \<noteq> 10" "byte (b64_char d) \<noteq> 13"
    "byte (b64_char d) \<noteq> 46"
proof -
  have b: "byte (b64_char d) =
      (if d < 26 then 65 + d else if d < 52 then 71 + d else if d < 62 then d - 4
       else if d = 62 then 45 else 95)"
    using assms by (simp add: b64_char_def)
  show "b64_val (b64_char d) = Some d"
    using assms unfolding b64_val_def Let_def b by auto
  show "byte (b64_char d) \<noteq> 10" "byte (b64_char d) \<noteq> 13" "byte (b64_char d) \<noteq> 46"
    using assms unfolding b by auto
qed

fun b64_digits :: "bytes \<Rightarrow> nat list" where
  "b64_digits [] = []"
| "b64_digits [a] = [byte a div 4, byte a mod 4 * 16]"
| "b64_digits [a, b] = [byte a div 4, byte a mod 4 * 16 + byte b div 16, byte b mod 16 * 4]"
| "b64_digits (a # b # c # s) =
     byte a div 4 # (byte a mod 4 * 16 + byte b div 16)
     # (byte b mod 16 * 4 + byte c div 64) # byte c mod 64 # b64_digits s"

lemma b64_encode_digits: "b64_encode s = map b64_char (b64_digits s)"
  by (induction s rule: b64_encode.induct) simp_all

text \<open>The arithmetic of one group of three bytes.\<close>

lemma b64_group:
  fixes a b c :: nat
  assumes "a < 256" "b < 256" "c < 256"
  shows "a div 4 < 64" "a mod 4 * 16 < 64" "a mod 4 * 16 + b div 16 < 64"
    "b mod 16 * 4 + c div 64 < 64" "b mod 16 * 4 < 64" "c mod 64 < 64"
    "a div 4 * 4 + a mod 4 * 16 div 16 = a"
    "a div 4 * 4 + (a mod 4 * 16 + b div 16) div 16 = a"
    "(a mod 4 * 16 + b div 16) mod 16 * 16 + b mod 16 * 4 div 4 = b"
    "(a mod 4 * 16 + b div 16) mod 16 * 16 + (b mod 16 * 4 + c div 64) div 4 = b"
    "(b mod 16 * 4 + c div 64) mod 4 * 64 + c mod 64 = c"
proof -
  have q: "b div 16 < 16" "c div 64 < 4" "a mod 4 < 4" "b mod 16 < 16"
    using assms by simp_all
  show "a div 4 < 64" "a mod 4 * 16 < 64" "b mod 16 * 4 < 64" "c mod 64 < 64"
    using assms by simp_all
  show "a mod 4 * 16 + b div 16 < 64" "b mod 16 * 4 + c div 64 < 64"
    using q by linarith+
  show "a div 4 * 4 + a mod 4 * 16 div 16 = a" by simp
  show "a div 4 * 4 + (a mod 4 * 16 + b div 16) div 16 = a" using q(1) by simp
  have "(a mod 4 * 16 + b div 16) mod 16 = b div 16" using q(1) by simp
  then show "(a mod 4 * 16 + b div 16) mod 16 * 16 + b mod 16 * 4 div 4 = b"
    "(a mod 4 * 16 + b div 16) mod 16 * 16 + (b mod 16 * 4 + c div 64) div 4 = b"
    using q(2) by simp_all
  have "(b mod 16 * 4 + c div 64) mod 4 = c div 64" using q(2) by simp
  then show "(b mod 16 * 4 + c div 64) mod 4 * 64 + c mod 64 = c" by simp
qed

lemma byte_lt: "byte c < 256"
  by simp

lemmas b64_bytes = b64_group [OF byte_lt byte_lt byte_lt]

lemma b64_digits_lt: "d \<in> set (b64_digits s) \<Longrightarrow> d < 64"
  by (induction s rule: b64_digits.induct) (auto simp only: b64_digits.simps list.set insert_iff
      empty_iff intro: b64_bytes)

lemma b64_quanta_digits: "b64_quanta (b64_digits s) = Some s"
  by (induction s rule: b64_digits.induct)
    (simp_all only: b64_digits.simps b64_quanta.simps b64_bytes char_of_char option.map)

lemma b64_decode_encode [simp]: "b64_decode (b64_encode s) = Some s"
proof -
  have lt: "\<forall>d \<in> set (b64_digits s). d < 64" using b64_digits_lt by blast
  have f: "filter (\<lambda>c. byte c \<noteq> 10 \<and> byte c \<noteq> 13) (map b64_char ds) = map b64_char ds"
    if "\<forall>d \<in> set ds. d < 64" for ds
    using that by (induction ds) (simp_all add: b64_char_props)
  have m: "map b64_val (map b64_char ds) = map Some ds" if "\<forall>d \<in> set ds. d < 64" for ds
    using that by (simp add: b64_char_props)
  have "map the (map Some ds) = ds" "None \<notin> set (map Some ds)" for ds :: "nat list"
    by (simp_all add: comp_def)
  then show ?thesis
    by (simp only: b64_decode_def b64_encode_digits f [OF lt] m [OF lt] Let_def if_False
        b64_quanta_digits)
qed

lemma b64_encode_inj: "b64_encode s = b64_encode t \<longleftrightarrow> s = t"
  by (metis b64_decode_encode option.inject)

text \<open>No digit of the alphabet is a dot, which separates the parts of a compact JWS.\<close>

lemma b64_encode_no_dot: "CHR ''.'' \<notin> set (b64_encode s)"
proof
  assume "CHR ''.'' \<in> set (b64_encode s)"
  then obtain d where "d \<in> set (b64_digits s)" "CHR ''.'' = b64_char d"
    by (auto simp: b64_encode_digits)
  moreover have "byte (CHR ''.'') = 46" by simp
  ultimately show False using b64_char_props(4) [of d] b64_digits_lt [of d s] by metis
qed

lemma b64_ascii: "ascii (b64_encode s)"
proof -
  have "byte (b64_char d) < 128" if "d < 64" for d
    using that by (auto simp add: b64_char_def intro: le_less_trans [OF diff_le_self])
  then show ?thesis
    unfolding b64_encode_digits ascii_def using b64_digits_lt by (auto simp: list_all_iff)
qed

section \<open>crypto/sha256\<close>

type_synonym u32 = "32 word"

text \<open>A table of \<open>n\<close> words, written as one number, its first word the most significant.\<close>

definition word_table :: "nat \<Rightarrow> int \<Rightarrow> u32 list" where
  "word_table n x = map (\<lambda>i. word_of_int (x div 2 ^ (32 * (n - Suc i)))) [0..<n]"

lemma length_word_table [simp]: "length (word_table n x) = n"
  by (simp add: word_table_def)

definition sha256_k :: "u32 list" where
  "sha256_k = word_table 64
    0x428a2f9871374491b5c0fbcfe9b5dba53956c25b59f111f1923f82a4ab1c5ed5d807aa9812835b01243185be550c7dc372be5d7480deb1fe9bdc06a7c19bf174e49b69c1efbe47860fc19dc6240ca1cc2de92c6f4a7484aa5cb0a9dc76f988da983e5152a831c66db00327c8bf597fc7c6e00bf3d5a7914706ca63511429296727b70a852e1b21384d2c6dfc53380d13650a7354766a0abb81c2c92e92722c85a2bfe8a1a81a664bc24b8b70c76c51a3d192e819d6990624f40e3585106aa07019a4c1161e376c082748774c34b0bcb5391c0cb34ed8aa4a5b9cca4f682e6ff3748f82ee78a5636f84c878148cc7020890befffaa4506cebbef9a3f7c67178f2"

definition sha256_init :: "u32 list" where
  "sha256_init = word_table 8
    0x6a09e667bb67ae853c6ef372a54ff53a510e527f9b05688c1f83d9ab5be0cd19"

definition byte_word :: "char \<Rightarrow> u32" where
  "byte_word c = word_of_nat (byte c)"

definition word_bytes :: "u32 \<Rightarrow> bytes" where
  "word_bytes w = map (\<lambda>k. char_of (unat (drop_bit k w AND 255))) [24, 16, 8, 0]"

fun be_words :: "bytes \<Rightarrow> u32 list" where
  "be_words (a # b # c # d # s) =
     (push_bit 24 (byte_word a) OR push_bit 16 (byte_word b) OR push_bit 8 (byte_word c)
       OR byte_word d) # be_words s"
| "be_words _ = []"

text \<open>The length in bits, as eight bytes.\<close>

definition length_bytes :: "nat \<Rightarrow> bytes" where
  "length_bytes n = map (\<lambda>k. char_of (n * 8 div 2 ^ k mod 256)) [56, 48, 40, 32, 24, 16, 8, 0]"

definition sha256_pad :: "bytes \<Rightarrow> bytes" where
  "sha256_pad m =
     m @ CHR 0x80 # replicate ((119 - length m mod 64) mod 64) (CHR 0x00) @ length_bytes (length m)"

definition ssig0 :: "u32 \<Rightarrow> u32" where
  "ssig0 x = word_rotr 7 x XOR word_rotr 18 x XOR drop_bit 3 x"

definition ssig1 :: "u32 \<Rightarrow> u32" where
  "ssig1 x = word_rotr 17 x XOR word_rotr 19 x XOR drop_bit 10 x"

definition bsig0 :: "u32 \<Rightarrow> u32" where
  "bsig0 x = word_rotr 2 x XOR word_rotr 13 x XOR word_rotr 22 x"

definition bsig1 :: "u32 \<Rightarrow> u32" where
  "bsig1 x = word_rotr 6 x XOR word_rotr 11 x XOR word_rotr 25 x"

text \<open>The message schedule, newest word first.\<close>

fun sha256_schedule :: "nat \<Rightarrow> u32 list \<Rightarrow> u32 list" where
  "sha256_schedule 0 ws = ws"
| "sha256_schedule (Suc n) ws =
     sha256_schedule n ((ssig1 (ws ! 1) + ws ! 6 + ssig0 (ws ! 14) + ws ! 15) # ws)"

fun sha256_round :: "u32 list \<Rightarrow> u32 \<times> u32 \<Rightarrow> u32 list" where
  "sha256_round [a, b, c, d, e, f, g, h] (k, w) =
     (let t1 = h + bsig1 e + ((e AND f) XOR (NOT e AND g)) + k + w;
          t2 = bsig0 a + ((a AND b) XOR (a AND c) XOR (b AND c))
      in [t1 + t2, a, b, c, d + t1, e, f, g])"
| "sha256_round st _ = st"

definition sha256_block :: "u32 list \<Rightarrow> u32 list \<Rightarrow> u32 list" where
  "sha256_block st ws =
     map2 (+) st (foldl sha256_round st (zip sha256_k (rev (sha256_schedule 48 (rev ws)))))"

fun sha256_blocks :: "nat \<Rightarrow> u32 list \<Rightarrow> u32 list \<Rightarrow> u32 list" where
  "sha256_blocks 0 st ws = st"
| "sha256_blocks (Suc n) st ws = sha256_blocks n (sha256_block st (take 16 ws)) (drop 16 ws)"

definition sha256 :: "bytes \<Rightarrow> bytes" where
  "sha256 m =
     (let p = sha256_pad m
      in concat (map word_bytes (sha256_blocks (length p div 64) sha256_init (be_words p))))"

lemma length_sha256_round: "length st = 8 \<Longrightarrow> length (sha256_round st kw) = 8"
  by (cases "(st, kw)" rule: sha256_round.cases) (simp_all add: Let_def)

lemma length_sha256_block: "length st = 8 \<Longrightarrow> length (sha256_block st ws) = 8"
proof -
  have "length (foldl sha256_round st kws) = 8" if "length st = 8" for st kws
    using that by (induction kws arbitrary: st) (simp_all add: length_sha256_round)
  then show "length st = 8 \<Longrightarrow> length (sha256_block st ws) = 8"
    by (simp add: sha256_block_def)
qed

lemma length_sha256 [simp]: "length (sha256 m) = 32"
proof -
  have "length (sha256_blocks n st ws) = 8" if "length st = 8" for n st ws
    using that by (induction n arbitrary: st ws) (simp_all add: length_sha256_block)
  moreover have "length (concat (map word_bytes ws)) = 4 * length ws" for ws
    by (induction ws) (simp_all add: word_bytes_def)
  ultimately show ?thesis by (simp add: sha256_def Let_def sha256_init_def)
qed

section \<open>crypto/hmac\<close>

definition hmac_key :: "bytes \<Rightarrow> bytes" where
  "hmac_key key = (let k = (if 64 < length key then sha256 key else key)
     in k @ replicate (64 - length k) (CHR 0x00))"

definition xor_byte :: "nat \<Rightarrow> char \<Rightarrow> char" where
  "xor_byte n c = char_of (n XOR byte c)"

definition hmac_sha256 :: "bytes \<Rightarrow> bytes \<Rightarrow> bytes" where
  "hmac_sha256 key msg =
     sha256 (map (xor_byte 92) (hmac_key key) @ sha256 (map (xor_byte 54) (hmac_key key) @ msg))"

lemma length_hmac_sha256 [simp]: "length (hmac_sha256 k m) = 32"
  by (simp add: hmac_sha256_def)

end
