(* ===== verification/Claims.thy ===== *)
theory Claims
  imports Jose GoCodec
begin

text \<open>The verified claims of an access token (claims.go).\<close>

record claims =
  cl_subject :: string
  cl_issuer :: string
  cl_audience :: "string list"
  cl_expiry :: instant
  cl_issued_at :: instant
  cl_not_before :: instant
  cl_scope :: "string list"
  cl_raw :: bytes
  cl_cnf_jkt :: string

definition or_zero :: "'a \<Rightarrow> 'a option \<Rightarrow> 'a" where
  "or_zero z v = (case v of None \<Rightarrow> z | Some x \<Rightarrow> x)"

section \<open>The scope claim\<close>

fun json_strings :: "json list \<Rightarrow> string list" where
  "json_strings [] = []"
| "json_strings (JStr s # js) = s # json_strings js"
| "json_strings (_ # js) = json_strings js"

definition token_scope :: "jwt_token \<Rightarrow> string list" where
  "token_scope t =
     (case tok_claim t ''scope'' of
        Some (JStr s) \<Rightarrow> str_fields s
      | Some (JArr js) \<Rightarrow> json_strings js
      | _ \<Rightarrow> [])"

section \<open>The payload and its cnf.jkt\<close>

definition token_payload :: "string \<Rightarrow> bytes" where
  "token_payload raw =
     (case split_n 3 (CHR ''.'') raw of
        [_, p, _] \<Rightarrow> (case b64_decode p of None \<Rightarrow> [] | Some b \<Rightarrow> b)
      | _ \<Rightarrow> [])"

definition dec_cnf :: "string \<Rightarrow> json \<Rightarrow> string \<Rightarrow> string option" where
  "dec_cnf k v jkt = (if key_is ''jkt'' k then dec_string v jkt else Some jkt)"

definition dec_payload_cnf :: "string \<Rightarrow> json \<Rightarrow> string \<Rightarrow> string option" where
  "dec_payload_cnf k v jkt = (if key_is ''cnf'' k then dec_struct dec_cnf v jkt else Some jkt)"

text \<open>\<open>extractCnf\<close>, as a function of the payload.\<close>

definition extract_cnf :: "bytes \<Rightarrow> string" where
  "extract_cnf raw =
     (if raw = [] then [] else or_zero [] (unmarshal dec_payload_cnf [] raw))"

definition new_claims :: "jwt_token \<Rightarrow> string \<Rightarrow> claims" where
  "new_claims t raw =
     \<lparr>cl_subject = or_zero [] (tok_subject t), cl_issuer = or_zero [] (tok_issuer t),
      cl_audience = or_zero [] (tok_audience t),
      cl_expiry = or_zero zero_time (tok_expiration t),
      cl_issued_at = or_zero zero_time (tok_issued_at t),
      cl_not_before = or_zero zero_time (tok_not_before t),
      cl_scope = token_scope t, cl_raw = token_payload raw,
      cl_cnf_jkt = extract_cnf (token_payload raw)\<rparr>"

definition bound_key_thumbprint :: "claims \<Rightarrow> string" where
  "bound_key_thumbprint c = cl_cnf_jkt c"

text \<open>\<open>Decode\<close> into a struct: \<open>None\<close> when there is no payload or it does not decode.\<close>

definition decode_claims :: "(string \<Rightarrow> json \<Rightarrow> 'a \<Rightarrow> 'a option) \<Rightarrow> 'a \<Rightarrow> claims \<Rightarrow> 'a option" where
  "decode_claims f zero c = (if cl_raw c = [] then None else unmarshal f zero (cl_raw c))"

section \<open>Facts\<close>

text \<open>A compact token: three base64url parts. Its payload is what the middle part encodes.\<close>

lemma cut_b64 [simp]:
  "cut (CHR ''.'') (b64_encode h @ CHR ''.'' # t) = Some (b64_encode h, t)"
  using b64_encode_no_dot by simp

lemma token_payload_compact:
  "token_payload (b64_encode h @ ''.'' @ b64_encode p @ ''.'' @ sig) = p"
  by (simp add: token_payload_def numeral_3_eq_3)

text \<open>Any other form has no payload, and so no binding.\<close>

lemma token_payload_no_dot: "CHR ''.'' \<notin> set raw \<Longrightarrow> token_payload raw = []"
proof -
  assume "CHR ''.'' \<notin> set raw"
  then have "cut (CHR ''.'') raw = None" by (simp add: cut_None)
  then show ?thesis by (simp add: token_payload_def numeral_3_eq_3)
qed

lemma extract_cnf_Nil [simp]: "extract_cnf [] = []"
  by (simp add: extract_cnf_def)

lemma json_strings_set: "s \<in> set (json_strings js) \<longleftrightarrow> JStr s \<in> set js"
  by (induction js rule: json_strings.induct) auto

lemma new_claims_sel [simp]:
  "cl_cnf_jkt (new_claims t raw) = extract_cnf (token_payload raw)"
  "cl_raw (new_claims t raw) = token_payload raw"
  "cl_audience (new_claims t raw) = or_zero [] (tok_audience t)"
  "cl_scope (new_claims t raw) = token_scope t"
  "cl_issuer (new_claims t raw) = or_zero [] (tok_issuer t)"
  "cl_subject (new_claims t raw) = or_zero [] (tok_subject t)"
  by (simp_all add: new_claims_def)

end
