(* ===== verification/GoUrl.thy ===== *)
theory GoUrl
  imports GoText
begin

text \<open>
  Go's \<open>net/url\<close> (the release go.mod names, 1.25.0): \<open>url.Parse\<close> with the fields the code reads
  and \<open>URL.IsAbs\<close>. An error is \<open>None\<close>: every caller only tests it.
\<close>

record url =
  url_scheme :: string
  url_opaque :: string
  url_user :: "(string \<times> string option) option"
  url_host :: string
  url_path :: string
  url_raw_path :: string
  url_omit_host :: bool
  url_force_query :: bool
  url_raw_query :: string
  url_fragment :: string
  url_raw_fragment :: string

definition empty_url :: url where
  "empty_url = \<lparr>url_scheme = [], url_opaque = [], url_user = None, url_host = [], url_path = [],
     url_raw_path = [], url_omit_host = False, url_force_query = False, url_raw_query = [],
     url_fragment = [], url_raw_fragment = []\<rparr>"

section \<open>Percent escapes\<close>

datatype encoding = EncPath | EncHost | EncZone | EncUserPassword | EncQuery | EncFragment

definition is_hex :: "char \<Rightarrow> bool" where
  "is_hex c \<longleftrightarrow> (let b = byte c in
     (48 \<le> b \<and> b \<le> 57) \<or> (97 \<le> b \<and> b \<le> 102) \<or> (65 \<le> b \<and> b \<le> 70))"

definition unhex :: "char \<Rightarrow> nat" where
  "unhex c = (let b = byte c in if b \<le> 57 then b - 48 else if b \<le> 70 then b - 55 else b - 87)"

definition is_alnum :: "char \<Rightarrow> bool" where
  "is_alnum c \<longleftrightarrow> (let b = byte c in
     (97 \<le> b \<and> b \<le> 122) \<or> (65 \<le> b \<and> b \<le> 90) \<or> (48 \<le> b \<and> b \<le> 57))"

definition host_chars :: "char list" where
  "host_chars = ''!$&()*+,;=:[]<>'' @ [CHR 0x27, CHR 0x22]"

text \<open>\<open>shouldEscape\<close>\<close>

definition should_escape :: "encoding \<Rightarrow> char \<Rightarrow> bool" where
  "should_escape mode c =
     (if is_alnum c then False
      else if (mode = EncHost \<or> mode = EncZone) \<and> c \<in> set host_chars then False
      else if c \<in> set ''-_.~'' then False
      else if c \<in> set ''$&+,/:;=?@'' then
        (case mode of
           EncPath \<Rightarrow> c = CHR ''?''
         | EncUserPassword \<Rightarrow> c \<in> set ''@/?:''
         | EncQuery \<Rightarrow> True
         | EncFragment \<Rightarrow> False
         | _ \<Rightarrow> True)
      else if mode = EncFragment \<and> c \<in> set ''!()*'' then False
      else True)"

text \<open>\<open>unescape\<close>: the checks of its first loop and the decoding of its second in one pass.\<close>

definition escape_ok :: "encoding \<Rightarrow> char \<Rightarrow> char \<Rightarrow> bool" where
  "escape_ok mode a b \<longleftrightarrow>
     (mode = EncHost \<longrightarrow> \<not> (unhex a < 8 \<and> [a, b] \<noteq> ''25''))
     \<and> (mode = EncZone \<longrightarrow> [a, b] = ''25'' \<or> unhex a * 16 + unhex b = 32
          \<or> \<not> should_escape EncHost (char_of (unhex a * 16 + unhex b)))"

fun unescape :: "encoding \<Rightarrow> string \<Rightarrow> string option" where
  "unescape mode [] = Some []"
| "unescape mode (c # cs) =
     (if c = CHR ''%'' then
        (case cs of
           a # b # r \<Rightarrow>
             if is_hex a \<and> is_hex b \<and> escape_ok mode a b
             then map_option ((#) (char_of (unhex a * 16 + unhex b))) (unescape mode r)
             else None
         | _ \<Rightarrow> None)
      else if c = CHR ''+'' then
        map_option ((#) (if mode = EncQuery then CHR '' '' else c)) (unescape mode cs)
      else if (mode = EncHost \<or> mode = EncZone) \<and> byte c < 128 \<and> should_escape mode c then None
      else map_option ((#) c) (unescape mode cs))"

text \<open>\<open>escape\<close>\<close>

definition upper_hex :: "nat \<Rightarrow> char" where
  "upper_hex d = (if d < 10 then char_of (48 + d) else char_of (55 + d))"

fun escape :: "encoding \<Rightarrow> string \<Rightarrow> string" where
  "escape mode [] = []"
| "escape mode (c # cs) =
     (if should_escape mode c then
        (if c = CHR '' '' \<and> mode = EncQuery then ''+''
         else [CHR ''%'', upper_hex (byte c div 16), upper_hex (byte c mod 16)])
      else [c]) @ escape mode cs"

section \<open>Parse\<close>

definition has_ctl :: "string \<Rightarrow> bool" where
  "has_ctl s \<longleftrightarrow> (\<exists>c \<in> set s. byte c < 32 \<or> byte c = 127)"

text \<open>\<open>getScheme\<close>: the loop at position \<open>i\<close>; \<open>acc\<close> is the prefix read so far, reversed.\<close>

fun get_scheme :: "string \<Rightarrow> string \<Rightarrow> string \<Rightarrow> (string \<times> string) option" where
  "get_scheme raw acc [] = Some ([], raw)"
| "get_scheme raw acc (c # cs) =
     (let b = byte c in
      if (97 \<le> b \<and> b \<le> 122) \<or> (65 \<le> b \<and> b \<le> 90) then get_scheme raw (c # acc) cs
      else if (48 \<le> b \<and> b \<le> 57) \<or> b = 43 \<or> b = 45 \<or> b = 46 then
        (if acc = [] then Some ([], raw) else get_scheme raw (c # acc) cs)
      else if b = 58 then (if acc = [] then None else Some (rev acc, cs))
      else Some ([], raw))"

definition valid_optional_port :: "string \<Rightarrow> bool" where
  "valid_optional_port p =
     (case p of [] \<Rightarrow> True
      | c # cs \<Rightarrow> c = CHR '':'' \<and> (\<forall>d \<in> set cs. 48 \<le> byte d \<and> byte d \<le> 57))"

text \<open>Splitting at the last occurrence of a character (\<open>strings.LastIndex\<close>).\<close>

definition cut_last :: "char \<Rightarrow> string \<Rightarrow> (string \<times> string) option" where
  "cut_last sep s = map_option (\<lambda>(a, b). (rev b, rev a)) (cut sep (rev s))"

text \<open>\<open>strings.Index\<close>\<close>

fun index_of :: "string \<Rightarrow> string \<Rightarrow> nat option" where
  "index_of p [] = (if p = [] then Some 0 else None)"
| "index_of p (c # cs) = (if prefix p (c # cs) then Some 0 else map_option Suc (index_of p cs))"

definition parse_host :: "string \<Rightarrow> string option" where
  "parse_host h =
     (if prefix ''['' h then
        (case cut_last (CHR '']'') h of
           None \<Rightarrow> None
         | Some (a, port) \<Rightarrow>
             if \<not> valid_optional_port port then None
             else
               (case index_of ''%25'' a of
                  None \<Rightarrow> unescape EncHost h
                | Some z \<Rightarrow>
                    (case (unescape EncHost (take z h), unescape EncZone (drop z a),
                           unescape EncHost (drop (length a) h)) of
                       (Some x, Some y, Some w) \<Rightarrow> Some (x @ y @ w)
                     | _ \<Rightarrow> None)))
      else
        (case cut_last (CHR '':'') h of
           None \<Rightarrow> unescape EncHost h
         | Some (_, port) \<Rightarrow>
             if \<not> valid_optional_port (CHR '':'' # port) then None else unescape EncHost h))"

definition valid_userinfo :: "string \<Rightarrow> bool" where
  "valid_userinfo s \<longleftrightarrow>
     (\<forall>c \<in> set s. is_alnum c \<or> c \<in> set ''-._:~!$&()*+,;=%@'' \<or> c = CHR 0x27)"

definition parse_user :: "string \<Rightarrow> (string \<times> string option) option" where
  "parse_user s =
     (if \<not> valid_userinfo s then None
      else
        (case cut (CHR '':'') s of
           None \<Rightarrow> map_option (\<lambda>u. (u, None)) (unescape EncUserPassword s)
         | Some (u, p) \<Rightarrow>
             (case (unescape EncUserPassword u, unescape EncUserPassword p) of
                (Some u', Some p') \<Rightarrow> Some (u', Some p')
              | _ \<Rightarrow> None)))"

definition parse_authority :: "string \<Rightarrow> ((string \<times> string option) option \<times> string) option" where
  "parse_authority a =
     (case cut_last (CHR ''@'') a of
        None \<Rightarrow> map_option (\<lambda>h. (None, h)) (parse_host a)
      | Some (ui, hp) \<Rightarrow>
          (case parse_host hp of
             None \<Rightarrow> None
           | Some h \<Rightarrow> map_option (\<lambda>u. (Some u, h)) (parse_user ui)))"

text \<open>\<open>setPath\<close> and \<open>setFragment\<close>: the raw form is kept where the default escaping differs.\<close>

definition set_path :: "string \<Rightarrow> url \<Rightarrow> url option" where
  "set_path p u =
     (case unescape EncPath p of
        None \<Rightarrow> None
      | Some q \<Rightarrow> Some (u\<lparr>url_path := q, url_raw_path := if escape EncPath q = p then [] else p\<rparr>))"

definition set_fragment :: "string \<Rightarrow> url \<Rightarrow> url option" where
  "set_fragment f u =
     (case unescape EncFragment f of
        None \<Rightarrow> None
      | Some q \<Rightarrow>
          Some (u\<lparr>url_fragment := q, url_raw_fragment := if escape EncFragment q = f then [] else f\<rparr>))"

definition split_query :: "string \<Rightarrow> url \<Rightarrow> string \<times> url" where
  "split_query rest u =
     (if suffix ''?'' rest \<and> count_list rest (CHR ''?'') = 1
      then (butlast rest, u\<lparr>url_force_query := True\<rparr>)
      else (case cut (CHR ''?'') rest of
              None \<Rightarrow> (rest, u)
            | Some (r, q) \<Rightarrow> (r, u\<lparr>url_raw_query := q\<rparr>)))"

definition first_segment :: "string \<Rightarrow> string" where
  "first_segment s = takeWhile (\<lambda>c. c \<noteq> CHR ''/'') s"

definition parse_nofrag :: "string \<Rightarrow> url option" where
  "parse_nofrag raw =
     (if has_ctl raw then None
      else if raw = ''*'' then Some (empty_url\<lparr>url_path := ''*''\<rparr>)
      else
        (case get_scheme raw [] raw of
           None \<Rightarrow> None
         | Some (sch, rest0) \<Rightarrow>
             (let (rest, u) = split_query rest0 (empty_url\<lparr>url_scheme := map lower_char sch\<rparr>) in
              if \<not> prefix ''/'' rest \<and> url_scheme u \<noteq> [] then Some (u\<lparr>url_opaque := rest\<rparr>)
              else if \<not> prefix ''/'' rest \<and> CHR '':'' \<in> set (first_segment rest) then None
              else if (url_scheme u \<noteq> [] \<or> \<not> prefix ''///'' rest) \<and> prefix ''//'' rest then
                (let a = first_segment (drop 2 rest) in
                 case parse_authority a of
                   None \<Rightarrow> None
                 | Some (usr, h) \<Rightarrow>
                     set_path (drop (2 + length a) rest) (u\<lparr>url_user := usr, url_host := h\<rparr>))
              else if url_scheme u \<noteq> [] \<and> prefix ''/'' rest
              then set_path rest (u\<lparr>url_omit_host := True\<rparr>)
              else set_path rest u)))"

definition url_parse :: "string \<Rightarrow> url option" where
  "url_parse raw =
     (case cut (CHR ''#'') raw of
        None \<Rightarrow> parse_nofrag raw
      | Some (u, f) \<Rightarrow>
          (case parse_nofrag u of
             None \<Rightarrow> None
           | Some p \<Rightarrow> if f = [] then Some p else set_fragment f p))"

definition is_abs :: "url \<Rightarrow> bool" where
  "is_abs u \<longleftrightarrow> url_scheme u \<noteq> []"

end
