(* ===== verification/Keys.thy ===== *)
theory Keys
  imports Claims GoUrl
begin

text \<open>
  The key sources (jwks.go). An implementation of the Go interface \<open>keySource\<close> is a function from
  a key id and a world to a key set (or an error) and the next world. \<open>static_lookup\<close> and
  \<open>remote_lookup\<close> are the two of the code; the second is the behaviour of one caller alone, and
  theory KeysConc has the interleavings of several.
\<close>

type_synonym ('s, 'e) key_lookup = "string \<Rightarrow> ('s, 'e) world \<Rightarrow> 's result \<times> ('s, 'e) world"

definition static_lookup :: "'s \<Rightarrow> ('s, 'e) key_lookup" where
  "static_lookup ks kid w = (Inr ks, w)"

text \<open>The error of \<open>url.Parse\<close>: its operation and URL (the detail that follows is left out).\<close>

definition url_error :: "('k, 's) jose \<Rightarrow> string \<Rightarrow> string" where
  "url_error J u = ''parse '' @ quote (uprint J) u"

definition fetch :: "('k, 's) jose \<Rightarrow> string \<Rightarrow> ('s, 'e) world \<Rightarrow> 's result \<times> ('s, 'e) world" where
  "fetch J uri w =
     (if url_parse uri = None then (Inl (url_error J uri), w)
      else
        (let (reply, w1) = http_get uri w in
         (case reply of
            TransportError e \<Rightarrow> Inl (''aoa: fetch jwks: '' @ e)
          | Reply st body \<Rightarrow>
              if st \<noteq> 200 then Inl (''aoa: jwks status '' @ format_int (int st))
              else bind_res (read_limited body) (jwk_parse J),
          w1)))"

text \<open>\<open>refresh\<close> by a caller that finds no fetch in flight.\<close>

definition refresh :: "('k, 's) jose \<Rightarrow> string \<Rightarrow> ('s, 'e) world \<Rightarrow> 's result \<times> ('s, 'e) world" where
  "refresh J uri w =
     (case fetch J uri w of
        (Inr ks, w1) \<Rightarrow>
          (let (t, w2) = now w1 in
           (Inr ks, w2\<lparr>w_keys := \<lparr>kc_set = Some ks, kc_fetched_at = t, kc_last_err = None\<rparr>\<rparr>))
      | (Inl e, w1) \<Rightarrow> (Inl e, w1\<lparr>w_keys := (w_keys w1)\<lparr>kc_last_err := Some e\<rparr>\<rparr>))"

text \<open>\<open>remoteKeySource.setForKID\<close>\<close>

definition remote_lookup :: "('k, 's) jose \<Rightarrow> string \<Rightarrow> duration \<Rightarrow> ('s, 'e) key_lookup" where
  "remote_lookup J uri ttl kid w =
     (case kc_set (w_keys w) of
        None \<Rightarrow> refresh J uri w
      | Some cur \<Rightarrow>
          (let (t, w1) = now w;
               stale = time_sub t (kc_fetched_at (w_keys w)) > ttl
           in if jwk_lookup J cur kid \<and> \<not> stale then (Inr cur, w1) else refresh J uri w1))"

section \<open>The interface\<close>

text \<open>
  What the token verifier relies on in a key source: it emits no audit event, leaves the replay
  cache and the caller's state alone, and does not turn the clock back.
\<close>

locale key_source =
  fixes lookup :: "('s, 'e) key_lookup"
  assumes lookup_quiet: "lookup kid w = (r, w') \<Longrightarrow> quiet w w'"
    and lookup_ext: "lookup kid w = (r, w') \<Longrightarrow> w_ext w' = w_ext w"
begin

lemma lookup_audit: "lookup kid w = (r, w') \<Longrightarrow> w_audit w' = w_audit w"
  using lookup_quiet by (simp add: quiet_def)

end

lemma fetch_quiet: "fetch J uri w = (r, w') \<Longrightarrow> quiet w w' \<and> w_ext w' = w_ext w"
  by (auto simp: fetch_def http_get_def quiet_def later_def Let_def split: if_splits)

lemma refresh_quiet: "refresh J uri w = (r, w') \<Longrightarrow> quiet w w' \<and> w_ext w' = w_ext w"
proof -
  assume a: "refresh J uri w = (r, w')"
  obtain x w1 where x: "fetch J uri w = (x, w1)" by (cases "fetch J uri w")
  with a fetch_quiet [OF x] show ?thesis
    by (cases x) (auto simp: refresh_def now_def quiet_def later_def)
qed

lemma remote_lookup_quiet:
  assumes a: "remote_lookup J uri ttl kid w = (r, w')"
  shows "quiet w w' \<and> w_ext w' = w_ext w"
proof (cases "kc_set (w_keys w)")
  case None
  with a show ?thesis by (auto simp: remote_lookup_def dest: refresh_quiet)
next
  case (Some cur)
  obtain t w1 where n: "now w = (t, w1)" by (cases "now w")
  then have "quiet w w1" "w_ext w1 = w_ext w" by (auto simp: now_def quiet_def later_def)
  with a Some n show ?thesis
    by (auto simp: remote_lookup_def dest!: refresh_quiet split: if_splits intro: quiet_trans)
qed

interpretation static_keys: key_source "static_lookup ks"
  by unfold_locales (auto simp: static_lookup_def)

interpretation remote_keys: key_source "remote_lookup J uri ttl"
  using remote_lookup_quiet by unfold_locales blast+

section \<open>The cache\<close>

text \<open>A set that was just fetched is served without a request until it is older than the ttl.\<close>

lemma remote_lookup_fresh:
  assumes "kc_set (w_keys w) = Some cur" and "jwk_lookup J cur kid"
    and "time_sub (w_clock w (w_tick w)) (kc_fetched_at (w_keys w)) \<le> ttl"
  shows "remote_lookup J uri ttl kid w = (Inr cur, w\<lparr>w_tick := Suc (w_tick w)\<rparr>)"
  using assms by (simp add: remote_lookup_def now_def)

text \<open>A refresh records what it fetched; a failed one keeps the old set but does not serve it.\<close>

lemma refresh_Inr:
  "refresh J uri w = (Inr ks, w') \<Longrightarrow>
     kc_set (w_keys w') = Some ks \<and> kc_last_err (w_keys w') = None
     \<and> kc_fetched_at (w_keys w') = w_clock w (w_tick w)"
  by (auto simp: refresh_def now_def fetch_def http_get_def Let_def split: prod.splits sum.splits if_splits)

lemma fetch_keys [simp]: "fetch J uri w = (r, w') \<Longrightarrow> w_keys w' = w_keys w"
  by (auto simp: fetch_def http_get_def Let_def split: if_splits)

lemma refresh_Inl:
  "refresh J uri w = (Inl e, w') \<Longrightarrow>
     kc_set (w_keys w') = kc_set (w_keys w) \<and> kc_last_err (w_keys w') = Some e"
  by (auto simp: refresh_def Let_def dest: fetch_keys split: prod.splits sum.splits)

end
