(* ===== verification/Verify.thy ===== *)
theory Verify
  imports Keys
begin

text \<open>Access-token verification (verify.go), shared by the middleware and the exchange validator.\<close>

datatype verify_err_kind = VerifyMalformed | VerifyDisallowedAlg | VerifyJWKS | VerifyInvalid

record verify_error =
  ve_kind :: verify_err_kind
  ve_reason :: string

record ('s, 'e) token_verifier =
  tv_keys :: "('s, 'e) key_lookup"
  tv_issuer :: string
  tv_skew :: duration
  tv_algs :: "string list"

definition verify ::
  "('k, 's) jose \<Rightarrow> ('s, 'e) token_verifier \<Rightarrow> string \<Rightarrow> ('s, 'e) world
     \<Rightarrow> (verify_error + claims) \<times> ('s, 'e) world" where
  "verify J v raw w =
     (case header_kid_alg J raw of
        Inl _ \<Rightarrow> (Inl \<lparr>ve_kind = VerifyMalformed, ve_reason = ''header parse failed''\<rparr>, w)
      | Inr (kid, alg) \<Rightarrow>
          if alg \<notin> set (tv_algs v)
          then (Inl \<lparr>ve_kind = VerifyDisallowedAlg, ve_reason = ''disallowed algorithm: '' @ alg\<rparr>, w)
          else
            (case tv_keys v kid w of
               (Inl e, w1) \<Rightarrow> (Inl \<lparr>ve_kind = VerifyJWKS, ve_reason = ''jwks: '' @ e\<rparr>, w1)
             | (Inr ks, w1) \<Rightarrow>
                 (let (t, w2) = now w1 in
                  (case jwt_parse J raw ks (tv_issuer v) (tv_skew v) t of
                     Inl e \<Rightarrow> Inl \<lparr>ve_kind = VerifyInvalid, ve_reason = e\<rparr>
                   | Inr tok \<Rightarrow> Inr (new_claims tok raw), w2))))"

text \<open>What a successful verification has established, and at which instant.\<close>

definition verified_at ::
  "('k, 's) jose \<Rightarrow> ('s, 'e) token_verifier \<Rightarrow> string \<Rightarrow> ('s, 'e) world \<Rightarrow> claims \<Rightarrow> bool" where
  "verified_at J v raw w c \<longleftrightarrow>
     (\<exists>kid alg ks w1 tok.
        header_kid_alg J raw = Inr (kid, alg) \<and> alg \<in> set (tv_algs v)
        \<and> tv_keys v kid w = (Inr ks, w1)
        \<and> jwt_parse J raw ks (tv_issuer v) (tv_skew v) (w_clock w1 (w_tick w1)) = Inr tok
        \<and> c = new_claims tok raw)"

lemma verify_Inr: "(\<exists>w'. verify J v raw w = (Inr c, w')) \<longleftrightarrow> verified_at J v raw w c"
proof (cases "header_kid_alg J raw")
  case (Inl e)
  then show ?thesis by (simp add: verify_def verified_at_def)
next
  case (Inr ka)
  obtain kid alg where ka: "ka = (kid, alg)" by (cases ka)
  obtain r w1 where r: "tv_keys v kid w = (r, w1)" by (cases "tv_keys v kid w")
  show ?thesis
    using Inr ka r
    by (cases r) (auto simp: verify_def verified_at_def now_def Let_def split: sum.splits)
qed

lemma verify_Inr_D [admit]: "verify J v raw w = (Inr c, w') \<Longrightarrow> verified_at J v raw w c"
  using verify_Inr by blast

lemma verified_at_cnf: "verified_at J v raw w c \<Longrightarrow> cl_cnf_jkt c = extract_cnf (token_payload raw)"
  by (auto simp: verified_at_def)

context key_source
begin

text \<open>A verification is quiet, whatever its outcome, when its key source is.\<close>

lemma verify_quiet:
  assumes "verify J \<lparr>tv_keys = lookup, tv_issuer = i, tv_skew = s, tv_algs = a\<rparr> raw w = (r, w')"
  shows "quiet w w' \<and> w_ext w' = w_ext w"
proof (cases "header_kid_alg J raw")
  case (Inl e)
  with assms show ?thesis by (auto simp: verify_def)
next
  case (Inr ka)
  obtain kid alg where ka: "ka = (kid, alg)" by (cases ka)
  obtain x w1 where x: "lookup kid w = (x, w1)" by (cases "lookup kid w")
  have q: "quiet w w1" "w_ext w1 = w_ext w"
    using lookup_quiet [OF x] lookup_ext [OF x] by simp_all
  obtain t w2 where n: "now w1 = (t, w2)" by (cases "now w1")
  have "quiet w w2" "w_ext w2 = w_ext w"
    using q n now_quiet [OF n] by (auto simp: now_def intro: quiet_trans)
  with q assms Inr ka x n show ?thesis
    by (cases x) (auto simp: verify_def split: if_splits)
qed

end

end
