(* ===== verification/DpopProof.thy ===== *)
theory DpopProof
  imports Claims
begin

text \<open>Parsing and verifying a DPoP proof JWS (dpop_proof.go).\<close>

record dpop_proof =
  dp_jkt :: string
  dp_htm :: string
  dp_htu :: string
  dp_iat :: instant
  dp_jti :: string
  dp_ath :: string
  dp_nonce :: string

record proof_claims =
  pc_jti :: string
  pc_htm :: string
  pc_htu :: string
  pc_iat :: int
  pc_ath :: string
  pc_nonce :: string

definition zero_proof_claims :: proof_claims where
  "zero_proof_claims = \<lparr>pc_jti = [], pc_htm = [], pc_htu = [], pc_iat = 0, pc_ath = [], pc_nonce = []\<rparr>"

text \<open>The fields of \<open>proofClaims\<close> with their JSON names.\<close>

definition dec_proof_claim :: "string \<Rightarrow> json \<Rightarrow> proof_claims \<Rightarrow> proof_claims option" where
  "dec_proof_claim k v c =
     (if key_is ''jti'' k then map_option (\<lambda>s. c\<lparr>pc_jti := s\<rparr>) (dec_string v (pc_jti c))
      else if key_is ''htm'' k then map_option (\<lambda>s. c\<lparr>pc_htm := s\<rparr>) (dec_string v (pc_htm c))
      else if key_is ''htu'' k then map_option (\<lambda>s. c\<lparr>pc_htu := s\<rparr>) (dec_string v (pc_htu c))
      else if key_is ''iat'' k then map_option (\<lambda>i. c\<lparr>pc_iat := i\<rparr>) (dec_int64 v (pc_iat c))
      else if key_is ''ath'' k then map_option (\<lambda>s. c\<lparr>pc_ath := s\<rparr>) (dec_string v (pc_ath c))
      else if key_is ''nonce'' k then map_option (\<lambda>s. c\<lparr>pc_nonce := s\<rparr>) (dec_string v (pc_nonce c))
      else Some c)"

definition proof_of_claims :: "string \<Rightarrow> proof_claims \<Rightarrow> dpop_proof" where
  "proof_of_claims jkt c =
     \<lparr>dp_jkt = jkt, dp_htm = pc_htm c, dp_htu = pc_htu c, dp_iat = time_unix (pc_iat c),
      dp_jti = pc_jti c, dp_ath = pc_ath c, dp_nonce = pc_nonce c\<rparr>"

text \<open>
  \<open>parseAndVerifyProof\<close>. The text that \<open>encoding/json\<close> gives for a payload that does not decode
  is left out of its error.
\<close>

definition parse_and_verify_proof ::
  "('k, 's) jose \<Rightarrow> bytes \<Rightarrow> string list \<Rightarrow> dpop_proof result" where
  "parse_and_verify_proof J raw allowed =
     bind_res (wrap_err ''parse proof'' (jws_parse J raw)) (\<lambda>sigs.
       case sigs of
         [] \<Rightarrow> Inl ''proof has no signature''
       | h # _ \<Rightarrow>
           bind_res (guard_res (''proof typ = '' @ quote (uprint J) (or_zero [] (hdr_typ h))
               @ '', want dpop+jwt'') (hdr_typ h = Some ''dpop+jwt'')) (\<lambda>_.
           case hdr_alg h of
             None \<Rightarrow> Inl ''proof missing alg''
           | Some alg \<Rightarrow>
               bind_res (guard_res (''proof alg '' @ quote (uprint J) alg @ '' not allowed'')
                   (alg \<in> set allowed)) (\<lambda>_.
               case hdr_jwk h of
                 None \<Rightarrow> Inl ''proof missing jwk header''
               | Some key \<Rightarrow>
                   bind_res (guard_res ''proof jwk must be a public key''
                       (jwk_private J key = Inr False)) (\<lambda>_.
                   bind_res (wrap_err ''proof signature'' (jws_verify J raw alg key)) (\<lambda>payload.
                   bind_res (wrap_err ''thumbprint'' (jwk_thumbprint J key)) (\<lambda>tp.
                   case unmarshal dec_proof_claim zero_proof_claims payload of
                     None \<Rightarrow> Inl ''proof claims''
                   | Some c \<Rightarrow> Inr (proof_of_claims (b64_encode tp) c)))))))"

text \<open>
  What a parsed proof certifies: the first signature of the JWS has type dpop+jwt and an allowed
  algorithm, it verifies under the public key of its own header, the thumbprint is that key's, and
  the claims are those of the signed payload.
\<close>

definition proves :: "('k, 's) jose \<Rightarrow> string list \<Rightarrow> bytes \<Rightarrow> dpop_proof \<Rightarrow> bool" where
  "proves J allowed raw p \<longleftrightarrow>
     (\<exists>h hs alg key payload tp c.
        jws_parse J raw = Inr (h # hs) \<and> hdr_typ h = Some ''dpop+jwt''
        \<and> hdr_alg h = Some alg \<and> alg \<in> set allowed
        \<and> hdr_jwk h = Some key \<and> jwk_private J key = Inr False
        \<and> jws_verify J raw alg key = Inr payload \<and> jwk_thumbprint J key = Inr tp
        \<and> unmarshal dec_proof_claim zero_proof_claims payload = Some c
        \<and> p = proof_of_claims (b64_encode tp) c)"

lemma parse_and_verify_proof_Inr [admit]:
  "parse_and_verify_proof J raw allowed = Inr p \<longleftrightarrow> proves J allowed raw p"
proof (cases "\<exists>h hs. jws_parse J raw = Inr (h # hs)")
  case False
  then show ?thesis
    by (auto simp: parse_and_verify_proof_def proves_def split: list.splits)
next
  case True
  then obtain h hs where p: "jws_parse J raw = Inr (h # hs)" by blast
  consider (alg) "hdr_alg h = None" | (key) alg where "hdr_alg h = Some alg" "hdr_jwk h = None"
    | (both) alg key where "hdr_alg h = Some alg" "hdr_jwk h = Some key"
    by (cases "hdr_alg h"; cases "hdr_jwk h") auto
  then show ?thesis
  proof cases
    case alg
    with p show ?thesis by (simp add: parse_and_verify_proof_def proves_def)
  next
    case key
    with p show ?thesis by (simp add: parse_and_verify_proof_def proves_def)
  next
    case both
    with p show ?thesis
      by (auto simp: parse_and_verify_proof_def proves_def split: option.splits)
  qed
qed

lemma parse_and_verify_proof_total:
  "(\<exists>p. parse_and_verify_proof J raw allowed = Inr p)
    \<or> (\<exists>e. parse_and_verify_proof J raw allowed = Inl e)"
  by (cases "parse_and_verify_proof J raw allowed") auto

end
