(* ===== verification/Challenge.thy ===== *)
theory Challenge
  imports GoHttp
begin

text \<open>Authentication errors and their \<open>WWW-Authenticate\<close> challenges (bearer_errors.go).\<close>

record auth_error =
  ae_status :: nat
  ae_code :: string
  ae_description :: string
  ae_scopes :: "string list"
  ae_scheme :: string
  ae_algs :: "string list"
  ae_nonce :: string
  ae_with_bearer :: bool
  ae_reason :: string
  ae_audit_outcome :: string
  ae_audit_kind :: string

definition zero_auth_error :: auth_error where
  "zero_auth_error = \<lparr>ae_status = 0, ae_code = [], ae_description = [], ae_scopes = [],
     ae_scheme = [], ae_algs = [], ae_nonce = [], ae_with_bearer = False, ae_reason = [],
     ae_audit_outcome = [], ae_audit_kind = []\<rparr>"

text \<open>\<open>authError.Error\<close>\<close>

definition auth_error_text :: "auth_error \<Rightarrow> string" where
  "auth_error_text e =
     (if ae_code e = []
      then ''aoa: unauthorized ('' @ format_int (int (ae_status e)) @ '')''
      else ''aoa: '' @ ae_code e @ '': '' @ ae_description e)"

definition errNoToken :: auth_error where
  "errNoToken = zero_auth_error\<lparr>ae_status := 401\<rparr>"

definition errInvalidToken :: "string \<Rightarrow> auth_error" where
  "errInvalidToken desc = zero_auth_error\<lparr>ae_status := 401, ae_code := ''invalid_token'',
     ae_description := desc\<rparr>"

definition errInsufficientScope :: "string list \<Rightarrow> auth_error" where
  "errInsufficientScope required = zero_auth_error\<lparr>ae_status := 403,
     ae_code := ''insufficient_scope'',
     ae_description := ''the request requires higher privileges than provided by the access token'',
     ae_scopes := required\<rparr>"

definition errDPoPRequired :: "string list \<Rightarrow> auth_error" where
  "errDPoPRequired algs = zero_auth_error\<lparr>ae_status := 401, ae_scheme := ''DPoP'', ae_algs := algs\<rparr>"

definition errNoTokenDPoPOptional :: "string list \<Rightarrow> auth_error" where
  "errNoTokenDPoPOptional algs = zero_auth_error\<lparr>ae_status := 401, ae_scheme := ''DPoP'',
     ae_algs := algs, ae_with_bearer := True\<rparr>"

definition errWrongScheme :: "string list \<Rightarrow> auth_error" where
  "errWrongScheme algs = zero_auth_error\<lparr>ae_status := 401, ae_code := ''invalid_token'',
     ae_description := ''the access token requires a DPoP proof'', ae_scheme := ''DPoP'',
     ae_algs := algs\<rparr>"

definition errInvalidDPoPProof :: "string \<Rightarrow> auth_error" where
  "errInvalidDPoPProof reason = zero_auth_error\<lparr>ae_status := 401, ae_code := ''invalid_token'',
     ae_description := ''the DPoP proof is invalid'', ae_scheme := ''DPoP'', ae_reason := reason\<rparr>"

definition errUseDPoPNonce :: "string list \<Rightarrow> auth_error" where
  "errUseDPoPNonce algs = zero_auth_error\<lparr>ae_status := 401, ae_code := ''use_dpop_nonce'',
     ae_description := ''authorization server requires nonce in DPoP proof'',
     ae_scheme := ''DPoP'', ae_algs := algs\<rparr>"

lemmas auth_error_defs = zero_auth_error_def errNoToken_def errInvalidToken_def
  errInsufficientScope_def errDPoPRequired_def errNoTokenDPoPOptional_def errWrongScheme_def
  errInvalidDPoPProof_def errUseDPoPNonce_def

section \<open>The challenge\<close>

definition kv :: "(nat \<Rightarrow> bool) \<Rightarrow> string \<Rightarrow> string \<Rightarrow> string" where
  "kv up k v = k @ ''='' @ quote up v"

definition build_challenge :: "(nat \<Rightarrow> bool) \<Rightarrow> auth_error \<Rightarrow> string \<Rightarrow> string \<Rightarrow> string" where
  "build_challenge up ae realm meta =
     (let scheme = (if ae_scheme ae = [] then ''Bearer'' else ae_scheme ae);
          params =
            (if realm \<noteq> [] then [kv up ''realm'' realm] else [])
            @ (if ae_code ae \<noteq> [] then
                 kv up ''error'' (ae_code ae)
                 # (if ae_description ae \<noteq> []
                    then [kv up ''error_description'' (ae_description ae)] else [])
               else [])
            @ (if ae_code ae = ''insufficient_scope'' \<and> ae_scopes ae \<noteq> []
               then [kv up ''scope'' (join '' '' (ae_scopes ae))] else [])
            @ (if scheme = ''DPoP'' \<and> ae_algs ae \<noteq> []
               then [kv up ''algs'' (join '' '' (ae_algs ae))] else [])
            @ (if meta \<noteq> [] then [kv up ''resource_metadata'' meta] else [])
      in scheme @ '' '' @ join '', '' params)"

text \<open>The dynamic type of the \<open>error\<close> an error handler is given.\<close>

datatype go_error = AuthError auth_error | OtherError string

definition default_error_handler ::
  "(nat \<Rightarrow> bool) \<Rightarrow> string \<Rightarrow> string \<Rightarrow> go_error \<Rightarrow> response \<Rightarrow> response" where
  "default_error_handler up realm meta err w0 =
     (let ae = (case err of AuthError a \<Rightarrow> a
                | OtherError _ \<Rightarrow> errInvalidToken ''the access token is invalid'');
          w1 = (if ae_nonce ae \<noteq> [] then set_header ''DPoP-Nonce'' (ae_nonce ae) w0 else w0);
          w2 = (if ae_with_bearer ae
                then add_header ''WWW-Authenticate''
                       (build_challenge up
                          (zero_auth_error\<lparr>ae_status := ae_status ae, ae_scheme := ''Bearer''\<rparr>)
                          realm meta) w1
                else w1)
      in write_header (ae_status ae)
           (add_header ''WWW-Authenticate'' (build_challenge up ae realm meta) w2))"

section \<open>A challenge cannot be broken out of\<close>

text \<open>The parameters of a challenge, as the pairs it is meant to carry.\<close>

definition challenge_params :: "auth_error \<Rightarrow> string \<Rightarrow> string \<Rightarrow> (string \<times> string) list" where
  "challenge_params ae realm meta =
     (if realm \<noteq> [] then [(''realm'', realm)] else [])
     @ (if ae_code ae \<noteq> [] then
          (''error'', ae_code ae)
          # (if ae_description ae \<noteq> [] then [(''error_description'', ae_description ae)] else [])
        else [])
     @ (if ae_code ae = ''insufficient_scope'' \<and> ae_scopes ae \<noteq> []
        then [(''scope'', join '' '' (ae_scopes ae))] else [])
     @ (if ae_scheme ae = ''DPoP'' \<and> ae_algs ae \<noteq> []
        then [(''algs'', join '' '' (ae_algs ae))] else [])
     @ (if meta \<noteq> [] then [(''resource_metadata'', meta)] else [])"

lemma build_challenge_params:
  "build_challenge up ae realm meta =
     (if ae_scheme ae = [] then ''Bearer'' else ae_scheme ae) @ '' ''
     @ join '', '' (map (\<lambda>(k, v). kv up k v) (challenge_params ae realm meta))"
  by (simp add: build_challenge_def challenge_params_def Let_def)

text \<open>
  A reader of the parameter list: a name up to the equals sign, a quoted string, a comma and a
  space before the next. It returns the names with the quoted values.
\<close>

fun read_params :: "nat \<Rightarrow> string \<Rightarrow> (string \<times> string) list option" where
  "read_params 0 s = None"
| "read_params (Suc n) s =
     (case cut (CHR ''='') s of
        None \<Rightarrow> None
      | Some (k, q) \<Rightarrow>
          (case q of
             [] \<Rightarrow> None
           | d # r \<Rightarrow>
               if d \<noteq> dquote then None
               else
                 (case skip_quoted r of
                    None \<Rightarrow> None
                  | Some rest \<Rightarrow>
                      (let v = take (length q - length rest) q in
                       if rest = [] then Some [(k, v)]
                       else if prefix '', '' rest
                       then map_option ((#) (k, v)) (read_params n (drop 2 rest))
                       else None))))"

lemma quote_split: "\<exists>b. quote up v = dquote # b \<and> (\<forall>t. skip_quoted (b @ t) = Some t)"
proof -
  have "quote up v = dquote # tl (quote up v)" by (simp add: quote_def)
  moreover have "\<forall>t. skip_quoted (tl (quote up v) @ t) = Some t"
    using skip_quoted_quote by blast
  ultimately show ?thesis by blast
qed

lemma read_params_join:
  assumes "ps \<noteq> []" and "\<forall>(k, v) \<in> set ps. CHR ''='' \<notin> set k" and "length ps \<le> n"
  shows "read_params n (join '', '' (map (\<lambda>(k, v). kv up k v) ps))
    = Some (map (\<lambda>(k, v). (k, quote up v)) ps)"
  using assms
proof (induction ps arbitrary: n)
  case Nil
  then show ?case by simp
next
  case (Cons p ps)
  obtain k v where p: "p = (k, v)" by (cases p)
  obtain m where n: "n = Suc m" using Cons.prems(3) by (cases n) auto
  obtain b where b: "quote up v = dquote # b" and q: "\<And>t. skip_quoted (b @ t) = Some t"
    using quote_split by blast
  have k: "CHR ''='' \<notin> set k" using Cons.prems(2) p by simp
  show ?case
  proof (cases ps)
    case Nil
    with q [of "[]"] show ?thesis by (simp add: p n kv_def b k)
  next
    case (Cons p' ps')
    define rest where "rest = join '', '' (map (\<lambda>(k, v). kv up k v) ps)"
    have j: "join '', '' (map (\<lambda>(k, v). kv up k v) (p # ps)) = k @ CHR ''='' # dquote # b @ '', '' @ rest"
      by (simp add: rest_def Cons p kv_def b)
    have "read_params m rest = Some (map (\<lambda>(k, v). (k, quote up v)) ps)"
      unfolding rest_def using Cons.IH [of m] Cons.prems Cons n by simp
    with q [of "'', '' @ rest"] show ?thesis
      unfolding j by (simp add: n p k b)
  qed
qed

lemma challenge_params_keys: "(k, v) \<in> set (challenge_params ae realm meta) \<Longrightarrow> CHR ''='' \<notin> set k \<and> no_ctl k"
  by (auto simp: challenge_params_def split: if_splits)

lemma no_ctl_join: "no_ctl sep \<Longrightarrow> (\<forall>x \<in> set xs. no_ctl x) \<Longrightarrow> no_ctl (join sep xs)"
  by (induction sep xs rule: join.induct) auto

lemma no_ctl_kv: "no_ctl k \<Longrightarrow> no_ctl (kv up k v)"
  by (simp add: kv_def no_ctl_quote)

lemma no_ctl_build_challenge:
  assumes "no_ctl (ae_scheme ae)"
  shows "no_ctl (build_challenge up ae realm meta)"
proof -
  have "no_ctl (join '', '' (map (\<lambda>(k, v). kv up k v) (challenge_params ae realm meta)))"
    by (rule no_ctl_join) (auto intro!: no_ctl_kv dest: challenge_params_keys)
  with assms show ?thesis by (simp add: build_challenge_params)
qed

end
