(* ===== verification/Replay.thy ===== *)
theory Replay
  imports World
begin

text \<open>
  The jti replay cache (dpop_replay.go): the interface \<open>DPoPReplayCache\<close> as a locale, and the
  default cache \<open>memReplay\<close> as an interpretation of it.
\<close>

section \<open>The in-memory cache\<close>

definition new_mem_replay :: mem_replay where
  "new_mem_replay = \<lparr>mr_seen = Map.empty, mr_sweep_every = minutes 1, mr_last_sweep = zero_time\<rparr>"

text \<open>\<open>maps.DeleteFunc\<close>\<close>

definition delete_func :: "('k \<Rightarrow> 'v \<Rightarrow> bool) \<Rightarrow> ('k \<rightharpoonup> 'v) \<Rightarrow> ('k \<rightharpoonup> 'v)" where
  "delete_func del m = (\<lambda>k. case m k of None \<Rightarrow> None | Some v \<Rightarrow> if del k v then None else Some v)"

definition sweep :: "instant \<Rightarrow> mem_replay \<Rightarrow> mem_replay" where
  "sweep t m =
     (if time_sub t (mr_last_sweep m) < mr_sweep_every m then m
      else m\<lparr>mr_seen := delete_func (\<lambda>_ e. \<not> after e t) (mr_seen m), mr_last_sweep := t\<rparr>)"

text \<open>
  \<open>Seen\<close> at the instant it read from the clock: the part under the mutex, one atomic step. The
  clock is read before the mutex is taken, so the instants of successive steps need not increase.
\<close>

definition seen_at :: "instant \<Rightarrow> string \<Rightarrow> instant \<Rightarrow> mem_replay \<Rightarrow> bool \<times> mem_replay" where
  "seen_at t jti exp m =
     (let m1 = sweep t m in
      (case mr_seen m1 jti of
         Some e \<Rightarrow> if after e t then (True, m1)
                   else (False, m1\<lparr>mr_seen := (mr_seen m1)(jti \<mapsto> exp)\<rparr>)
       | None \<Rightarrow> (False, m1\<lparr>mr_seen := (mr_seen m1)(jti \<mapsto> exp)\<rparr>)))"

definition mem_seen :: "string \<Rightarrow> instant \<Rightarrow> ('s, 'e) world \<Rightarrow> bool result \<times> ('s, 'e) world" where
  "mem_seen jti exp w =
     (let (t, w1) = now w; (seen, m) = seen_at t jti exp (w_mem w1)
      in (Inr seen, w1\<lparr>w_mem := m\<rparr>))"

section \<open>The interface\<close>

text \<open>
  \<open>live m jti\<close> is the expiry under which the cache holds a jti. The contract of the Go interface:
  a jti that is recorded and unexpired is a replay; any other is recorded; and a record stays
  until it expires, whatever other calls come in between.
\<close>

locale replay_cache =
  fixes seen :: "instant \<Rightarrow> string \<Rightarrow> instant \<Rightarrow> 'm \<Rightarrow> bool \<times> 'm"
    and live :: "'m \<Rightarrow> string \<Rightarrow> instant option"
  assumes records: "seen t j e m = (False, m') \<Longrightarrow> live m' j = Some e"
    and replayed: "live m j = Some x \<Longrightarrow> t < x \<Longrightarrow> fst (seen t j e m)"
    and keeps: "live m k = Some x \<Longrightarrow> t < x \<Longrightarrow> live (snd (seen t j e m)) k = Some x"
    and unseen: "live m j = None \<Longrightarrow> \<not> fst (seen t j e m)"
    and lapsed: "live m j = Some x \<Longrightarrow> x \<le> t \<Longrightarrow> \<not> fst (seen t j e m)"
begin

text \<open>A run of calls, each with its instant, jti and expiry; the answers in order.\<close>

fun answers :: "(instant \<times> string \<times> instant) list \<Rightarrow> 'm \<Rightarrow> bool list" where
  "answers [] m = []"
| "answers ((t, j, e) # cs) m = fst (seen t j e m) # answers cs (snd (seen t j e m))"

lemma length_answers [simp]: "length (answers cs m) = length cs"
  by (induction cs m rule: answers.induct) simp_all

lemma live_blocks:
  assumes "live m j = Some x" and "\<forall>c \<in> set (take (Suc i) cs). fst c < x"
    and "i < length cs" and "fst (snd (cs ! i)) = j"
  shows "answers cs m ! i"
  using assms
proof (induction cs arbitrary: m i)
  case Nil
  then show ?case by simp
next
  case (Cons c cs)
  obtain t k e where c: "c = (t, k, e)" by (cases c) auto
  have t: "t < x" using Cons.prems(2) c by simp
  show ?case
  proof (cases i)
    case 0
    with Cons.prems(1,4) c t show ?thesis by (simp add: replayed)
  next
    case (Suc i')
    have "live (snd (seen t k e m)) j = Some x" using Cons.prems(1) t by (rule keeps)
    moreover have "\<forall>c' \<in> set (take (Suc i') cs). fst c' < x" using Cons.prems(2) Suc by simp
    ultimately have "answers cs (snd (seen t k e m)) ! i'"
      by (rule Cons.IH) (use Cons.prems(3,4) Suc in simp_all)
    then show ?thesis using Suc c by simp
  qed
qed

text \<open>
  After a call was answered "not seen", every later call for the same jti is answered "seen", as
  long as the clock readings up to it are before the expiry that was recorded.
\<close>

lemma accepted_once:
  assumes "seen t j e m = (False, m')"
    and "\<forall>c \<in> set (take (Suc i) cs). fst c < e"
    and "i < length cs" and "fst (snd (cs ! i)) = j"
  shows "answers cs m' ! i"
  using records [OF assms(1)] assms(2-4) by (rule live_blocks)

end

section \<open>memReplay implements it\<close>

lemma sweep_seen:
  "mr_seen (sweep t m) j =
     (if time_sub t (mr_last_sweep m) < mr_sweep_every m then mr_seen m j
      else (case mr_seen m j of None \<Rightarrow> None | Some e \<Rightarrow> if t < e then Some e else None))"
  by (simp add: sweep_def delete_func_def after_def split: option.split)

lemma sweep_keeps: "mr_seen m j = Some e \<Longrightarrow> t < e \<Longrightarrow> mr_seen (sweep t m) j = Some e"
  by (simp add: sweep_seen)

lemma sweep_Some: "mr_seen (sweep t m) j = Some e \<Longrightarrow> mr_seen m j = Some e"
  by (auto simp: sweep_seen split: if_splits option.splits)

lemma sweep_None: "mr_seen m j = None \<Longrightarrow> mr_seen (sweep t m) j = None"
  by (simp add: sweep_seen)

lemma fst_seen_at: "fst (seen_at t j e m) \<longleftrightarrow> (\<exists>x. mr_seen m j = Some x \<and> t < x)"
proof (cases "mr_seen m j")
  case None
  then show ?thesis by (simp add: seen_at_def Let_def sweep_None)
next
  case (Some x)
  then show ?thesis
  proof (cases "t < x")
    case True
    with Some show ?thesis by (simp add: seen_at_def Let_def sweep_keeps after_def)
  next
    case False
    with Some show ?thesis
      by (auto simp: seen_at_def Let_def after_def dest: sweep_Some split: option.split)
  qed
qed

lemma seen_at_False:
  "seen_at t j e m = (False, m') \<Longrightarrow>
     m' = (sweep t m)\<lparr>mr_seen := (mr_seen (sweep t m))(j \<mapsto> e)\<rparr>"
  by (auto simp: seen_at_def Let_def split: option.splits if_splits)

lemma seen_at_True: "seen_at t j e m = (True, m') \<Longrightarrow> m' = sweep t m"
  by (auto simp: seen_at_def Let_def split: option.splits if_splits)

lemma seen_at_other:
  assumes "mr_seen m k = Some x" and "t < x"
  shows "mr_seen (snd (seen_at t j e m)) k = Some x"
proof -
  obtain b m' where s: "seen_at t j e m = (b, m')" by (cases "seen_at t j e m")
  show ?thesis
  proof (cases b)
    case True
    with s have "m' = sweep t m" by (intro seen_at_True) simp
    with s assms show ?thesis by (simp add: sweep_keeps)
  next
    case False
    with s have "\<not> fst (seen_at t j e m)" by simp
    then have "k \<noteq> j" using assms by (auto simp: fst_seen_at)
    moreover have "m' = (sweep t m)\<lparr>mr_seen := (mr_seen (sweep t m))(j \<mapsto> e)\<rparr>"
      using s False by (intro seen_at_False) simp
    ultimately show ?thesis using s assms by (simp add: sweep_keeps)
  qed
qed

interpretation mem: replay_cache seen_at mr_seen
proof unfold_locales
  fix t j e m m'
  assume "seen_at t j e m = (False, m')"
  then show "mr_seen m' j = Some e" by (auto dest: seen_at_False)
qed (auto simp: fst_seen_at seen_at_other)

section \<open>Refinement to an unbounded record of expiries\<close>

text \<open>
  The specification keeps every jti for ever and never sweeps: \<open>spec_seen\<close> is a replay exactly
  when the last recorded expiry is still ahead. A cache represents a record at instant \<open>t\<close> when
  they agree on the jtis that have not expired.
\<close>

definition spec_seen :: "instant \<Rightarrow> string \<Rightarrow> instant \<Rightarrow> (string \<rightharpoonup> instant) \<Rightarrow> bool \<times> (string \<rightharpoonup> instant)" where
  "spec_seen t j e r =
     (case r j of Some x \<Rightarrow> if t < x then (True, r) else (False, r(j \<mapsto> e))
      | None \<Rightarrow> (False, r(j \<mapsto> e)))"

definition represents :: "instant \<Rightarrow> mem_replay \<Rightarrow> (string \<rightharpoonup> instant) \<Rightarrow> bool" where
  "represents t m r \<longleftrightarrow> (\<forall>j x. t < x \<longrightarrow> (mr_seen m j = Some x \<longleftrightarrow> r j = Some x))"

lemma represents_later: "represents t m r \<Longrightarrow> t \<le> u \<Longrightarrow> represents u m r"
  by (simp add: represents_def)

lemma fst_spec_seen: "fst (spec_seen t j e r) \<longleftrightarrow> (\<exists>x. r j = Some x \<and> t < x)"
  by (auto simp: spec_seen_def split: option.split)

lemma represents_sweep: "represents t m r \<Longrightarrow> represents t (sweep t m) r"
  by (auto simp: represents_def intro: sweep_keeps dest: sweep_Some)

lemma seen_at_refines:
  assumes "represents t m r"
  shows "fst (seen_at t j e m) = fst (spec_seen t j e r)"
    and "represents t (snd (seen_at t j e m)) (snd (spec_seen t j e r))"
proof -
  show eq: "fst (seen_at t j e m) = fst (spec_seen t j e r)"
    using assms by (auto simp: fst_seen_at fst_spec_seen represents_def)
  have sw: "represents t (sweep t m) r" using assms by (rule represents_sweep)
  obtain b m' where s: "seen_at t j e m = (b, m')" by (cases "seen_at t j e m")
  obtain b' r' where s': "spec_seen t j e r = (b', r')" by (cases "spec_seen t j e r")
  have "b = b'" using eq s s' by simp
  moreover have "b' \<Longrightarrow> r' = r" "\<not> b' \<Longrightarrow> r' = r(j \<mapsto> e)"
    using s' by (auto simp: spec_seen_def split: option.splits if_splits)
  ultimately show "represents t (snd (seen_at t j e m)) (snd (spec_seen t j e r))"
    using s s' sw by (cases b) (auto simp: represents_def dest!: seen_at_True seen_at_False)
qed

lemma mem_seen_Inr [simp]: "\<exists>b. fst (mem_seen jti exp w) = Inr b"
  by (simp add: mem_seen_def Let_def split: prod.split)

lemma mem_seen_eq:
  "mem_seen jti exp w = (Inr b, w') \<longleftrightarrow>
     (\<exists>m. seen_at (w_clock w (w_tick w)) jti exp (w_mem w) = (b, m)
        \<and> w' = w\<lparr>w_tick := Suc (w_tick w), w_mem := m\<rparr>)"
  by (auto simp: mem_seen_def now_def Let_def split: prod.splits)

section \<open>Runs of the replay cache\<close>

fun spec_answers :: "(instant \<times> string \<times> instant) list \<Rightarrow> (string \<rightharpoonup> instant) \<Rightarrow> bool list" where
  "spec_answers [] r = []"
| "spec_answers ((t, j, e) # cs) r = fst (spec_seen t j e r) # spec_answers cs (snd (spec_seen t j e r))"

lemma answers_refine:
  assumes "represents t m r" and "sorted (map fst cs)" and "\<forall>c \<in> set cs. t \<le> fst c"
  shows "mem.answers cs m = spec_answers cs r"
  using assms
proof (induction cs arbitrary: t m r)
  case Nil
  then show ?case by simp
next
  case (Cons c cs)
  obtain u j e where c: "c = (u, j, e)" by (cases c) auto
  have rep: "represents u m r" using Cons.prems(1,3) c by (auto intro: represents_later)
  note s = seen_at_refines [OF rep, of j e]
  have "mem.answers cs (snd (seen_at u j e m)) = spec_answers cs (snd (spec_seen u j e r))"
    using Cons.IH [OF s(2)] Cons.prems(2) c by simp
  with s(1) show ?case by (simp add: c)
qed

end
