(* ===== verification/Nonce.thy ===== *)
theory Nonce
  imports World GoCodec
begin

text \<open>
  Server nonces (dpop_nonce.go): the interface \<open>DPoPNonceSource\<close> and the stateless HMAC source.
\<close>

record ('s, 'e) nonce_source =
  ns_current :: "request \<Rightarrow> ('s, 'e) world \<Rightarrow> string \<times> ('s, 'e) world"
  ns_valid :: "request \<Rightarrow> string \<Rightarrow> ('s, 'e) world \<Rightarrow> bool \<times> ('s, 'e) world"

section \<open>The HMAC source\<close>

record hmac_nonce =
  hn_secret :: bytes
  hn_window :: duration

text \<open>Go's integer division truncates towards zero.\<close>

definition go_div :: "int \<Rightarrow> int \<Rightarrow> int" where
  "go_div a b = sgn a * sgn b * (\<bar>a\<bar> div \<bar>b\<bar>)"

definition window_at :: "hmac_nonce \<Rightarrow> instant \<Rightarrow> int" where
  "window_at h t = go_div (unix_seconds t) (go_div (hn_window h) second)"

definition make_nonce :: "hmac_nonce \<Rightarrow> int \<Rightarrow> string" where
  "make_nonce h win = b64_encode (hmac_sha256 (hn_secret h) (format_int win))"

definition hmac_current :: "hmac_nonce \<Rightarrow> request \<Rightarrow> ('s, 'e) world \<Rightarrow> string \<times> ('s, 'e) world" where
  "hmac_current h r w = (let (t, w1) = now w in (make_nonce h (window_at h t), w1))"

definition hmac_valid :: "hmac_nonce \<Rightarrow> request \<Rightarrow> string \<Rightarrow> ('s, 'e) world \<Rightarrow> bool \<times> ('s, 'e) world" where
  "hmac_valid h r nonce w =
     (let (t, w1) = now w; cur = window_at h t
      in (list_ex (\<lambda>win. nonce = make_nonce h win) [cur, cur - 1], w1))"

definition new_dpop_nonce_source :: "bytes \<Rightarrow> ('s, 'e) nonce_source" where
  "new_dpop_nonce_source secret =
     (let h = \<lparr>hn_secret = secret, hn_window = minutes 5\<rparr>
      in \<lparr>ns_current = hmac_current h, ns_valid = hmac_valid h\<rparr>)"

section \<open>The interface\<close>

text \<open>
  A source with a grace period: a nonce it advertised is still accepted at every instant up to
  that period later, for any request; and asking it is quiet.
\<close>

locale graceful_nonce =
  fixes src :: "('s, 'e) nonce_source" and period :: duration
    and ok :: "instant \<Rightarrow> bool"
  assumes current_quiet: "ns_current src r w = (n, w') \<Longrightarrow> quiet w w' \<and> w_tick w < w_tick w'"
    and valid_quiet: "ns_valid src r n w = (b, w') \<Longrightarrow> quiet w w'"
    and nonempty: "ns_current src r w = (n, w') \<Longrightarrow> n \<noteq> []"
    and grace: "ns_current src r w = (n, w1) \<Longrightarrow> later w1 w2 \<Longrightarrow> steady (w_clock w) \<Longrightarrow>
       ok (w_clock w (w_tick w)) \<Longrightarrow> ok (w_clock w (w_tick w2)) \<Longrightarrow>
       w_clock w (w_tick w2) - w_clock w (w_tick w) \<le> period \<Longrightarrow>
       fst (ns_valid src r' n w2)"

text \<open>The instants the code's windows are meant for: from 1970 on, far from the end of \<open>int64\<close>.\<close>

definition after_epoch :: "instant \<Rightarrow> bool" where
  "after_epoch t \<longleftrightarrow> unix_to_internal * nanos \<le> t \<and> t < 2 ^ 62 * nanos"

lemma window_at_5min:
  assumes "after_epoch t"
  shows "window_at \<lparr>hn_secret = s, hn_window = minutes 5\<rparr> t = (t div nanos - unix_to_internal) div 300"
proof -
  have "unix_to_internal * nanos div nanos \<le> t div nanos"
    using assms by (intro zdiv_mono1) (simp_all add: after_epoch_def)
  then have u: "0 \<le> t div nanos - unix_to_internal" by simp
  have "t div nanos \<le> (2 ^ 62 * nanos - 1) div nanos"
    using assms by (intro zdiv_mono1) (simp_all add: after_epoch_def)
  then have "t div nanos < 2 ^ 62" by (simp add: nanos_def)
  with u have "unix_seconds t = t div nanos - unix_to_internal"
    unfolding unix_seconds_def by (intro wrap64_id) (simp_all add: unix_to_internal_def)
  moreover have "go_div (minutes 5) second = 300" by (simp add: go_div_def minutes_def nanos_def)
  ultimately show ?thesis using u
    by (cases "t div nanos = unix_to_internal") (simp_all add: window_at_def go_div_def)
qed

text \<open>Within five minutes the window moves by one at most.\<close>

lemma window_at_step:
  assumes "after_epoch t" "after_epoch u" "t \<le> u" "u - t \<le> minutes 5"
    and h: "h = \<lparr>hn_secret = s, hn_window = minutes 5\<rparr>"
  shows "window_at h t = window_at h u \<or> window_at h t = window_at h u - 1"
proof -
  let ?a = "t div nanos" and ?b = "u div nanos"
  have ab: "?a \<le> ?b" using assms(3) by (simp add: zdiv_mono1)
  have "u \<le> t + 300 * nanos" using assms(4) by (simp add: minutes_def)
  then have "?b \<le> (t + 300 * nanos) div nanos" by (rule zdiv_mono1) simp
  then have "?b \<le> ?a + 300" by simp
  have "x div 300 = y div 300 \<or> x div 300 = y div 300 - 1"
    if "x \<le> y" "y \<le> x + 300" for x y :: int
    using zdiv_mono1 [OF that(1), of 300] zdiv_mono1 [OF that(2), of 300] by auto
  with ab \<open>?b \<le> ?a + 300\<close>
  have "(?a - unix_to_internal) div 300 = (?b - unix_to_internal) div 300
      \<or> (?a - unix_to_internal) div 300 = (?b - unix_to_internal) div 300 - 1"
    by simp
  then show ?thesis unfolding h
    by (simp only: window_at_5min [OF assms(1)] window_at_5min [OF assms(2)])
qed

lemma make_nonce_nonempty [simp]: "make_nonce h win \<noteq> []"
proof
  assume "make_nonce h win = []"
  then have "b64_decode (make_nonce h win) = Some []" by (simp add: b64_decode_def)
  then have "hmac_sha256 (hn_secret h) (format_int win) = []" by (simp add: make_nonce_def)
  then show False using length_hmac_sha256 [of "hn_secret h" "format_int win"] by simp
qed

lemma hmac_valid_iff:
  "fst (hmac_valid h r nonce w) \<longleftrightarrow>
     nonce = make_nonce h (window_at h (w_clock w (w_tick w)))
     \<or> nonce = make_nonce h (window_at h (w_clock w (w_tick w)) - 1)"
  by (simp add: hmac_valid_def now_def Let_def)

interpretation hmac: graceful_nonce "new_dpop_nonce_source secret" "minutes 5" after_epoch
proof unfold_locales
  fix r r' n and w w1 w2 :: "('a, 'b) world"
  assume c: "ns_current (new_dpop_nonce_source secret) r w = (n, w1)" and l: "later w1 w2"
    and s: "steady (w_clock w)"
    and ok: "after_epoch (w_clock w (w_tick w))" "after_epoch (w_clock w (w_tick w2))"
    and p: "w_clock w (w_tick w2) - w_clock w (w_tick w) \<le> minutes 5"
  let ?h = "\<lparr>hn_secret = secret, hn_window = minutes 5\<rparr>"
  have n: "n = make_nonce ?h (window_at ?h (w_clock w (w_tick w)))" and w1: "w1 = w\<lparr>w_tick := Suc (w_tick w)\<rparr>"
    using c by (auto simp: new_dpop_nonce_source_def hmac_current_def now_def Let_def)
  have "w_clock w2 = w_clock w" "w_tick w \<le> w_tick w2" using l w1 by (auto simp: later_def)
  with window_at_step [OF ok _ p refl, of secret] s n show "fst (ns_valid (new_dpop_nonce_source secret) r' n w2)"
    by (auto simp: new_dpop_nonce_source_def hmac_valid_iff steady_def Let_def)
qed (auto simp: new_dpop_nonce_source_def hmac_current_def hmac_valid_def now_def quiet_def later_def
    Let_def)

end
