(* ===== verification/Dpop.thy ===== *)
theory Dpop
  imports DpopProof Challenge Replay Nonce GoUrl Keys
begin

text \<open>
  The DPoP stage of the middleware (dpop.go), over the configuration record \<open>bearerMW\<close> of
  bearer.go. A configured interface value is the function the code calls through it.
\<close>

datatype dpop_mode = DPoPOff | DPoPOptional | DPoPRequired

text \<open>
  \<open>bearerMW\<close>. The claim validator, the error handler, the replay cache and the nonce source may be
  the caller's own code; a claim validator may change the caller's state.
\<close>

record ('s, 'e) bearer_mw =
  mw_keys :: "('s, 'e) key_lookup"
  mw_issuer :: string
  mw_audiences :: "string list"
  mw_resource :: string
  mw_required_scope :: "string list"
  mw_skew :: duration
  mw_algs :: "string list"
  mw_claim_val :: "(claims \<Rightarrow> 'e \<Rightarrow> string option \<times> 'e) option"
  mw_on_error :: "request \<Rightarrow> go_error \<Rightarrow> response \<Rightarrow> response"
  mw_dpop_mode :: dpop_mode
  mw_dpop_algs :: "string list"
  mw_dpop_algs_list :: "string list"
  mw_proof_max_age :: duration
  mw_replay :: "string \<Rightarrow> instant \<Rightarrow> ('s, 'e) world \<Rightarrow> bool result \<times> ('s, 'e) world"
  mw_nonce :: "('s, 'e) nonce_source option"
  mw_trust_fwd :: bool

section \<open>The request target and the access-token hash\<close>

definition ath_for :: "string \<Rightarrow> string" where
  "ath_for tok = b64_encode (sha256 tok)"

definition request_htu :: "request \<Rightarrow> bool \<Rightarrow> string" where
  "request_htu r trust =
     (let p = header_get (req_header r) ''X-Forwarded-Proto'';
          h = header_get (req_header r) ''X-Forwarded-Host'';
          scheme = (if trust \<and> p \<noteq> [] then p else if req_tls r then ''https'' else ''http'');
          host = (if trust \<and> h \<noteq> [] then h else req_host r)
      in scheme @ ''://'' @ host @ req_path r)"

definition htu_equal :: "string \<Rightarrow> string \<Rightarrow> bool" where
  "htu_equal a b =
     (case (url_parse a, url_parse b) of
        (Some pa, Some pb) \<Rightarrow>
          equal_fold (url_scheme pa) (url_scheme pb) \<and> equal_fold (url_host pa) (url_host pb)
          \<and> url_path pa = url_path pb
      | _ \<Rightarrow> False)"

section \<open>The stage\<close>

definition gate_bearer :: "('s, 'e) bearer_mw \<Rightarrow> request \<Rightarrow> claims \<Rightarrow> auth_error option" where
  "gate_bearer mw r c =
     (if mw_dpop_mode mw = DPoPRequired then Some (errWrongScheme (mw_dpop_algs_list mw))
      else if bound_key_thumbprint c \<noteq> [] then Some (errWrongScheme (mw_dpop_algs_list mw))
      else if header_values (req_header r) ''DPoP'' \<noteq> []
      then Some (errInvalidDPoPProof ''DPoP header present with Bearer scheme'')
      else None)"

definition check_proof_claims ::
  "('s, 'e) bearer_mw \<Rightarrow> request \<Rightarrow> string \<Rightarrow> claims \<Rightarrow> dpop_proof \<Rightarrow> ('s, 'e) world
     \<Rightarrow> auth_error option \<times> ('s, 'e) world" where
  "check_proof_claims mw r tok c p w =
     (if dp_jti p = [] then (Some (errInvalidDPoPProof ''proof missing jti''), w)
      else if \<not> equal_fold (dp_htm p) (req_method r)
      then (Some (errInvalidDPoPProof ''htm mismatch''), w)
      else if \<not> htu_equal (dp_htu p) (request_htu r (mw_trust_fwd mw))
      then (Some (errInvalidDPoPProof ''htu mismatch''), w)
      else
        (let (t, w1) = now w in
         (if before (dp_iat p) (time_add t (- mw_proof_max_age mw))
             \<or> after (dp_iat p) (time_add t (mw_skew mw))
          then Some (errInvalidDPoPProof ''iat out of window'')
          else if dp_ath p \<noteq> ath_for tok then Some (errInvalidDPoPProof ''ath mismatch'')
          else if dp_jkt p \<noteq> bound_key_thumbprint c
          then Some (errInvalidDPoPProof ''cnf.jkt mismatch'')
          else None, w1)))"

text \<open>\<open>Valid\<close> is asked only for a non-empty nonce; \<open>Current\<close> only for a challenge.\<close>

definition check_nonce ::
  "('s, 'e) bearer_mw \<Rightarrow> request \<Rightarrow> dpop_proof \<Rightarrow> ('s, 'e) world
     \<Rightarrow> auth_error option \<times> ('s, 'e) world" where
  "check_nonce mw r p w =
     (case mw_nonce mw of
        None \<Rightarrow> (None, w)
      | Some src \<Rightarrow>
          (let (ok, w1) = (if dp_nonce p = [] then (False, w) else ns_valid src r (dp_nonce p) w)
           in if ok then (None, w1)
              else
                (let (n, w2) = ns_current src r w1
                 in (Some ((errUseDPoPNonce (mw_dpop_algs_list mw))\<lparr>ae_nonce := n\<rparr>), w2))))"

definition check_replay ::
  "('s, 'e) bearer_mw \<Rightarrow> dpop_proof \<Rightarrow> ('s, 'e) world \<Rightarrow> auth_error option \<times> ('s, 'e) world" where
  "check_replay mw p w =
     (case mw_replay mw (dp_jti p) (time_add (dp_iat p) (mw_proof_max_age mw)) w of
        (Inl _, w1) \<Rightarrow>
          (Some ((errInvalidDPoPProof ''replay backend error'')\<lparr>ae_audit_outcome := OutcomeError\<rparr>), w1)
      | (Inr True, w1) \<Rightarrow>
          (Some ((errInvalidDPoPProof ''jti replay'')\<lparr>ae_audit_kind := EventJTIReplay\<rparr>), w1)
      | (Inr False, w1) \<Rightarrow> (None, w1))"

definition verify_proof ::
  "('k, 's) jose \<Rightarrow> ('s, 'e) bearer_mw \<Rightarrow> request \<Rightarrow> string \<Rightarrow> claims \<Rightarrow> ('s, 'e) world
     \<Rightarrow> auth_error option \<times> ('s, 'e) world" where
  "verify_proof J mw r tok c w =
     (if bound_key_thumbprint c = []
      then (Some (errInvalidDPoPProof ''access token is not DPoP-bound''), w)
      else
        (case header_values (req_header r) ''DPoP'' of
           [raw] \<Rightarrow>
             (case parse_and_verify_proof J raw (mw_dpop_algs mw) of
                Inl e \<Rightarrow> (Some (errInvalidDPoPProof e), w)
              | Inr p \<Rightarrow>
                  (case check_proof_claims mw r tok c p w of
                     (Some ae, w1) \<Rightarrow> (Some ae, w1)
                   | (None, w1) \<Rightarrow>
                       (case check_nonce mw r p w1 of
                          (Some ae, w2) \<Rightarrow> (Some ae, w2)
                        | (None, w2) \<Rightarrow> check_replay mw p w2)))
         | _ \<Rightarrow> (Some (errInvalidDPoPProof ''expected exactly one DPoP header''), w)))"

definition verify_dpop ::
  "('k, 's) jose \<Rightarrow> ('s, 'e) bearer_mw \<Rightarrow> request \<Rightarrow> string \<Rightarrow> claims \<Rightarrow> string \<Rightarrow> ('s, 'e) world
     \<Rightarrow> auth_error option \<times> ('s, 'e) world" where
  "verify_dpop J mw r tok c scheme w =
     (if scheme \<noteq> ''DPoP'' then (gate_bearer mw r c, w) else verify_proof J mw r tok c w)"

end
