(* ===== verification/Resource.thy ===== *)
theory Resource
  imports GoUrl
begin

text \<open>
  What the code computes from the URI of the protected resource or of an issuer: the well-known
  metadata path (handler.go), the metadata URL of the challenge (bearer.go), the localhost and
  issuer checks (metadata.go).
\<close>

section \<open>Definitions\<close>

definition WellKnownSuffix :: string where
  "WellKnownSuffix = ''/.well-known/oauth-protected-resource''"

definition metadata_path_for :: "string \<Rightarrow> string result" where
  "metadata_path_for resource =
     (case url_parse resource of
        None \<Rightarrow> Inl ''resource must be an absolute URI''
      | Some u \<Rightarrow>
          if \<not> is_abs u then Inl ''resource must be an absolute URI''
          else
            (let p = trim_right (CHR ''/'') (url_path u)
             in if p = [] then Inr WellKnownSuffix else Inr (WellKnownSuffix @ p)))"

definition resource_metadata_url :: "string \<Rightarrow> string \<Rightarrow> string" where
  "resource_metadata_url resource metadata_path =
     (case url_parse resource of
        None \<Rightarrow> resource @ metadata_path
      | Some u \<Rightarrow>
          if url_host u = [] then resource @ metadata_path
          else url_scheme u @ ''://'' @ url_host u @ metadata_path)"

text \<open>\<open>net.SplitHostPort\<close>, without the text of its error.\<close>

definition split_host_port :: "string \<Rightarrow> (string \<times> string) option" where
  "split_host_port hp =
     (case cut_last (CHR '':'') hp of
        None \<Rightarrow> None
      | Some (before_colon, port) \<Rightarrow>
          if prefix ''['' hp then
            (case cut (CHR '']'') hp of
               None \<Rightarrow> None
             | Some (inside, rest) \<Rightarrow>
                 if rest = [] \<or> before_colon \<noteq> inside @ '']'' then None
                 else if CHR ''['' \<in> set (tl hp) \<or> CHR '']'' \<in> set rest then None
                 else Some (tl inside, port))
          else if CHR '':'' \<in> set before_colon then None
          else if CHR ''['' \<in> set hp \<or> CHR '']'' \<in> set hp then None
          else Some (before_colon, port))"

definition is_localhost :: "string \<Rightarrow> bool" where
  "is_localhost host =
     (if host = [] then False
      else
        (let h = (case split_host_port host of Some (h, _) \<Rightarrow> h | None \<Rightarrow> host);
             bare = trim_suffix '']'' (trim_prefix ''['' h)
         in bare = ''localhost'' \<or> bare = ''127.0.0.1'' \<or> bare = ''::1''))"

definition validate_issuer_url :: "string \<Rightarrow> unit result" where
  "validate_issuer_url raw =
     (case url_parse raw of
        None \<Rightarrow> Inl ''must be an absolute URI''
      | Some u \<Rightarrow>
          if \<not> is_abs u then Inl ''must be an absolute URI''
          else if url_scheme u \<noteq> ''https'' then Inl ''scheme must be https''
          else if url_raw_query u \<noteq> [] then Inl ''must not contain query''
          else if url_fragment u \<noteq> [] then Inl ''must not contain fragment''
          else Inr ())"

section \<open>Plain URIs\<close>

text \<open>
  A plain host is made of letters, digits, dots and hyphens; a plain path of those, underscores,
  tildes and slashes. On such a URI the parser splits at the separators and decodes nothing.
\<close>

definition host_char :: "char \<Rightarrow> bool" where
  "host_char c \<longleftrightarrow> is_alnum c \<or> c = CHR ''-'' \<or> c = CHR ''.''"

definition path_char :: "char \<Rightarrow> bool" where
  "path_char c \<longleftrightarrow> is_alnum c \<or> c \<in> set ''-_.~/''"

definition plain_host :: "string \<Rightarrow> bool" where
  "plain_host h \<longleftrightarrow> h \<noteq> [] \<and> list_all host_char h"

definition plain_path :: "string \<Rightarrow> bool" where
  "plain_path p \<longleftrightarrow> (p = [] \<or> prefix ''/'' p) \<and> list_all path_char p"

lemma is_alnum_not:
  "is_alnum c \<Longrightarrow> c \<notin> set ''%+?#:@[]/*'' \<and> 32 \<le> byte c \<and> byte c < 127"
proof -
  assume a: "is_alnum c"
  have "\<forall>d \<in> set ''%+?#:@[]/*''. \<not> is_alnum d" by code_simp
  with a have "c \<notin> set ''%+?#:@[]/*''" by blast
  moreover have "32 \<le> byte c \<and> byte c < 127" using a by (auto simp: is_alnum_def Let_def)
  ultimately show ?thesis by simp
qed

lemma host_char_not:
  "host_char c \<Longrightarrow> c \<notin> set ''%+?#:@[]/*'' \<and> 32 \<le> byte c \<and> byte c < 127"
  using is_alnum_not [of c] by (auto simp: host_char_def)

lemma path_char_not:
  "path_char c \<Longrightarrow> c \<notin> set ''%+?#:@[]*'' \<and> 32 \<le> byte c \<and> byte c < 127"
  using is_alnum_not [of c] by (auto simp: path_char_def)

lemma unescape_host: "list_all host_char h \<Longrightarrow> unescape EncHost h = Some h"
proof (induction h)
  case (Cons c h)
  have "\<not> should_escape EncHost c" using Cons.prems by (auto simp: host_char_def should_escape_def)
  with Cons host_char_not [of c] show ?case by simp
qed simp

lemma unescape_path: "list_all path_char p \<Longrightarrow> unescape EncPath p = Some p"
  by (induction p) (auto dest!: path_char_not)

lemma escape_path: "list_all path_char p \<Longrightarrow> escape EncPath p = p"
  by (induction p) (auto simp: path_char_def should_escape_def)

lemma plain_host_not: "plain_host h \<Longrightarrow> c \<in> set h \<Longrightarrow> c \<notin> set ''%+?#:@[]/*''"
  unfolding plain_host_def list_all_iff using host_char_not by blast

lemma plain_path_not: "plain_path p \<Longrightarrow> c \<in> set p \<Longrightarrow> c \<notin> set ''%+?#:@[]*''"
  unfolding plain_path_def list_all_iff using path_char_not by blast

lemma cut_last_None: "c \<notin> set s \<Longrightarrow> cut_last c s = None"
  by (simp add: cut_last_def cut_None)

lemma parse_authority_plain:
  assumes "plain_host h"
  shows "parse_authority h = Some (None, h)"
proof -
  have "CHR ''@'' \<notin> set h" "CHR '':'' \<notin> set h" "CHR ''['' \<notin> set h"
    using plain_host_not [OF assms] by auto
  moreover have "\<not> prefix ''['' h" using calculation(3) by (cases h) auto
  moreover have "unescape EncHost h = Some h"
    using assms by (auto simp: plain_host_def intro: unescape_host)
  ultimately show ?thesis by (simp add: parse_authority_def cut_last_None parse_host_def)
qed

definition lower_alpha :: "char \<Rightarrow> bool" where
  "lower_alpha c \<longleftrightarrow> 97 \<le> byte c \<and> byte c \<le> 122"

definition plain_scheme :: "string \<Rightarrow> bool" where
  "plain_scheme s \<longleftrightarrow> s \<noteq> [] \<and> list_all lower_alpha s"

lemma get_scheme_plain:
  "list_all lower_alpha s \<Longrightarrow> acc @ s \<noteq> [] \<Longrightarrow>
     get_scheme raw acc (s @ CHR '':'' # rest) = Some (rev acc @ s, rest)"
  by (induction s arbitrary: acc) (auto simp: lower_alpha_def)

lemma lower_alpha_lower: "lower_alpha c \<Longrightarrow> lower_char c = c"
  by (simp add: lower_alpha_def lower_char_def)

lemma lower_alpha_not: "lower_alpha c \<Longrightarrow> c \<noteq> CHR ''#'' \<and> c \<noteq> CHR ''?'' \<and> 32 \<le> byte c \<and> byte c < 127"
  by (auto simp: lower_alpha_def)

lemma map_lower_plain: "list_all lower_alpha s \<Longrightarrow> map lower_char s = s"
  by (induction s) (auto simp: lower_alpha_lower)

lemma first_segment_plain:
  "CHR ''/'' \<notin> set h \<Longrightarrow> p = [] \<or> prefix ''/'' p \<Longrightarrow> first_segment (h @ p) = h"
  by (induction h) (auto simp: first_segment_def prefix_def)

lemma has_ctl_plain:
  assumes "list_all lower_alpha s" "plain_host h" "plain_path p"
  shows "\<not> has_ctl (s @ ''://'' @ h @ p)"
proof -
  have "list_all (\<lambda>c. 32 \<le> byte c \<and> byte c < 127) s"
    using assms(1) by (rule list.pred_mono_strong) (simp add: lower_alpha_not)
  moreover have "list_all (\<lambda>c. 32 \<le> byte c \<and> byte c < 127) h"
    using assms(2) unfolding plain_host_def
    by (auto elim!: list.pred_mono_strong dest: host_char_not)
  moreover have "list_all (\<lambda>c. 32 \<le> byte c \<and> byte c < 127) p"
    using assms(3) unfolding plain_path_def
    by (auto elim!: list.pred_mono_strong dest: path_char_not)
  ultimately have "list_all (\<lambda>c. 32 \<le> byte c \<and> byte c < 127) (s @ ''://'' @ h @ p)"
    by simp
  then have "\<forall>c \<in> set (s @ ''://'' @ h @ p). 32 \<le> byte c \<and> byte c < 127"
    unfolding list_all_iff .
  then show ?thesis unfolding has_ctl_def by (metis not_less less_irrefl)
qed

lemma url_parse_plain:
  assumes "plain_scheme s" and "plain_host h" and "plain_path p"
  shows "url_parse (s @ ''://'' @ h @ p)
    = Some (empty_url\<lparr>url_scheme := s, url_host := h, url_path := p\<rparr>)"
proof -
  let ?raw = "s @ ''://'' @ h @ p"
  have s: "list_all lower_alpha s" "s \<noteq> []" using assms(1) by (simp_all add: plain_scheme_def)
  have nq: "CHR ''#'' \<notin> set ?raw" "CHR ''?'' \<notin> set ?raw"
    using s plain_host_not [OF assms(2)] plain_path_not [OF assms(3)] lower_alpha_not
    by (fastforce simp: list_all_iff)+
  have ctl: "\<not> has_ctl ?raw" using s(1) assms(2,3) by (rule has_ctl_plain)
  have sch: "get_scheme ?raw [] ?raw = Some (s, ''//'' @ h @ p)"
    using get_scheme_plain [OF s(1), of "[]" ?raw] s(2) by simp
  have pth: "p = [] \<or> prefix ''/'' p" "unescape EncPath p = Some p" "escape EncPath p = p"
    using assms(3) by (auto simp: plain_path_def unescape_path escape_path)
  have seg: "first_segment (h @ p) = h"
    using plain_host_not [OF assms(2)] pth(1) by (intro first_segment_plain) auto
  have sq: "split_query (''//'' @ h @ p) u = (''//'' @ h @ p, u)" for u
  proof -
    have "CHR ''?'' \<notin> set (''//'' @ h @ p)" using nq(2) by simp
    then have "cut (CHR ''?'') (''//'' @ h @ p) = None" and "\<not> suffix ''?'' (''//'' @ h @ p)"
      unfolding cut_None by (auto dest: set_mono_suffix simp del: append_Cons)
    then show ?thesis by (simp add: split_query_def del: append_Cons)
  qed
  have star: "?raw \<noteq> ''*''" using s(2) by (cases s) auto
  have "parse_nofrag ?raw = Some (empty_url\<lparr>url_scheme := s, url_host := h, url_path := p\<rparr>)"
    using ctl star sch sq seg parse_authority_plain [OF assms(2)] pth map_lower_plain [OF s(1)] s(2)
    by (simp add: parse_nofrag_def set_path_def empty_url_def)
  moreover have "cut (CHR ''#'') ?raw = None" using nq(1) by (simp only: cut_None not_False_eq_True)
  ultimately show ?thesis by (simp only: url_parse_def option.case)
qed

text \<open>The well-known URL of a plain resource: its origin, the suffix, its path without end slashes.\<close>

lemma metadata_path_plain:
  assumes "plain_scheme s" "plain_host h" "plain_path p"
  shows "metadata_path_for (s @ ''://'' @ h @ p) = Inr (WellKnownSuffix @ trim_right (CHR ''/'') p)"
  using assms(1)
  by (simp only: metadata_path_for_def url_parse_plain [OF assms])
    (auto simp: empty_url_def is_abs_def plain_scheme_def Let_def)

lemma resource_metadata_url_plain:
  assumes "plain_scheme s" "plain_host h" "plain_path p"
  shows "resource_metadata_url (s @ ''://'' @ h @ p) q = s @ ''://'' @ h @ q"
  using assms(2)
  by (simp only: resource_metadata_url_def url_parse_plain [OF assms])
    (auto simp: empty_url_def plain_host_def)

end
