(* ===== verification/Bearer.thy ===== *)
theory Bearer
  imports Verify Dpop Resource
begin

text \<open>
  The middleware (bearer.go): its options and their validation, the construction of the
  configuration record, and the request handler, every call that reads the clock or emits an
  audit event in the order of the code.
\<close>

section \<open>Options\<close>

text \<open>
  \<open>BearerOpts\<close>, but for the logger. A nil slice, function or interface is \<open>None\<close> where the code
  tests it. The audit emitter is the world's list of events: with none configured the code drops
  the events it passes to it. \<open>HeaderBearer\<close> is 0.
\<close>

record ('s, 'e) bearer_opts =
  bo_jwks_uri :: string
  bo_keys_jwks :: "bytes option"
  bo_issuer :: string
  bo_audience :: "string list"
  bo_resource :: string
  bo_realm :: string
  bo_required_scopes :: "string list"
  bo_clock_skew :: duration
  bo_jwks_cache_ttl :: duration
  bo_allowed_algorithms :: "string list"
  bo_dpop :: dpop_mode
  bo_claim_validator :: "(claims \<Rightarrow> 'e \<Rightarrow> string option \<times> 'e) option"
  bo_error_handler :: "(request \<Rightarrow> go_error \<Rightarrow> response \<Rightarrow> response) option"
  bo_token_lookup :: int
  bo_dpop_signing_algs :: "string list"
  bo_dpop_proof_max_age :: duration
  bo_dpop_replay :: "(string \<Rightarrow> instant \<Rightarrow> ('s, 'e) world \<Rightarrow> bool result \<times> ('s, 'e) world) option"
  bo_dpop_nonce :: "('s, 'e) nonce_source option"
  bo_trust_forwarded_headers :: bool

definition validate_bearer_opts :: "('s, 'e) bearer_opts \<Rightarrow> unit result" where
  "validate_bearer_opts opts =
     (if bo_keys_jwks opts = None \<and> bo_jwks_uri opts = []
      then Inl ''aoa: BearerOpts requires KeysJWKS or JWKSURI''
      else if bo_issuer opts = [] then Inl ''aoa: BearerOpts.Issuer is required''
      else if bo_clock_skew opts < 0 then Inl ''aoa: BearerOpts.ClockSkew must not be negative''
      else if bo_dpop_proof_max_age opts < 0
      then Inl ''aoa: BearerOpts.DPoPProofMaxAge must not be negative''
      else if bo_resource opts = [] \<and> bo_audience opts = []
      then Inl ''aoa: BearerOpts requires Resource or Audience (audience validation is mandatory)''
      else if bo_token_lookup opts \<noteq> 0
      then Inl ''aoa: only HeaderBearer TokenLookup is supported in v0.1''
      else Inr ())"

definition default_jwks_ttl :: duration where
  "default_jwks_ttl = minutes 5"

text \<open>
  \<open>resolveKeySource\<close>, over the three options it reads. Creating a remote source creates its
  cache; \<open>RequireBearer\<close> below puts it into the world.
\<close>

definition resolve_key_source ::
  "('k, 's) jose \<Rightarrow> bytes option \<Rightarrow> string \<Rightarrow> duration \<Rightarrow> ('s, 'e) key_lookup result" where
  "resolve_key_source J keys uri ttl0 =
     (case keys of
        Some raw \<Rightarrow>
          (case jwk_parse J raw of
             Inl e \<Rightarrow> Inl (''aoa: parse KeysJWKS: '' @ e)
           | Inr ks \<Rightarrow> Inr (static_lookup ks))
      | None \<Rightarrow> Inr (remote_lookup J uri (if ttl0 \<le> 0 then default_jwks_ttl else ttl0)))"

definition derive_challenge_params :: "('s, 'e) bearer_opts \<Rightarrow> string \<times> string" where
  "derive_challenge_params opts =
     (if bo_realm opts = [] then (if bo_resource opts \<noteq> [] then bo_resource opts else ''MCP'')
      else bo_realm opts,
      if bo_resource opts \<noteq> [] then
        (case metadata_path_for (bo_resource opts) of
           Inr p \<Rightarrow> resource_metadata_url (bo_resource opts) p
         | Inl _ \<Rightarrow> [])
      else [])"

record ('s, 'e) dpop_runtime =
  dr_algs :: "string list"
  dr_algs_list :: "string list"
  dr_proof_max_age :: duration
  dr_replay :: "string \<Rightarrow> instant \<Rightarrow> ('s, 'e) world \<Rightarrow> bool result \<times> ('s, 'e) world"

text \<open>
  \<open>buildDPoPRuntime\<close>. With DPoP off the replay cache is a nil interface, which is never called;
  the model puts a cache that fails in its place.
\<close>

definition build_dpop_runtime ::
  "('k, 's) jose \<Rightarrow> ('s, 'e) bearer_opts \<Rightarrow> ('s, 'e) dpop_runtime result" where
  "build_dpop_runtime J opts =
     (if bo_dpop opts = DPoPOff
      then Inr \<lparr>dr_algs = [], dr_algs_list = [], dr_proof_max_age = 0,
                dr_replay = (\<lambda>_ _ w. (Inl ''nil'', w))\<rparr>
      else
        (let names = (if bo_dpop_signing_algs opts = [] then [''ES256'', ''RS256'', ''EdDSA'']
                      else bo_dpop_signing_algs opts)
         in bind_res (parse_algs J names) (\<lambda>algs.
              Inr \<lparr>dr_algs = algs, dr_algs_list = names,
                   dr_proof_max_age = (if bo_dpop_proof_max_age opts = 0 then 60 * second
                                       else bo_dpop_proof_max_age opts),
                   dr_replay = (case bo_dpop_replay opts of Some c \<Rightarrow> c | None \<Rightarrow> mem_seen)\<rparr>)))"

section \<open>RequireBearer\<close>

definition accepted_audiences :: "('s, 'e) bearer_opts \<Rightarrow> string list" where
  "accepted_audiences opts =
     (if bo_resource opts \<noteq> [] then bo_resource opts # bo_audience opts else bo_audience opts)"

definition configure :: "('k, 's) jose \<Rightarrow> ('s, 'e) bearer_opts \<Rightarrow> ('s, 'e) bearer_mw result" where
  "configure J opts =
     bind_res (validate_bearer_opts opts) (\<lambda>_.
     bind_res (parse_algs J (bo_allowed_algorithms opts)) (\<lambda>algs.
     bind_res (resolve_key_source J (bo_keys_jwks opts) (bo_jwks_uri opts) (bo_jwks_cache_ttl opts)) (\<lambda>ks.
     (let (realm, meta) = derive_challenge_params opts in
      bind_res (build_dpop_runtime J opts) (\<lambda>d.
        Inr \<lparr>mw_keys = ks, mw_issuer = bo_issuer opts, mw_audiences = accepted_audiences opts,
             mw_resource = bo_resource opts, mw_required_scope = bo_required_scopes opts,
             mw_skew = (if bo_clock_skew opts = 0 then 60 * second else bo_clock_skew opts),
             mw_algs = algs, mw_claim_val = bo_claim_validator opts,
             mw_on_error = (case bo_error_handler opts of
                              Some h \<Rightarrow> h
                            | None \<Rightarrow> (\<lambda>_. default_error_handler (uprint J) realm meta)),
             mw_dpop_mode = bo_dpop opts, mw_dpop_algs = dr_algs d,
             mw_dpop_algs_list = dr_algs_list d, mw_proof_max_age = dr_proof_max_age d,
             mw_replay = dr_replay d, mw_nonce = bo_dpop_nonce opts,
             mw_trust_fwd = bo_trust_forwarded_headers opts\<rparr>)))))"

text \<open>A middleware starts with an empty JWKS cache and an empty replay cache.\<close>

definition require_bearer ::
  "('k, 's) jose \<Rightarrow> ('s, 'e) bearer_opts \<Rightarrow> ('s, 'e) world
     \<Rightarrow> ('s, 'e) bearer_mw result \<times> ('s, 'e) world" where
  "require_bearer J opts w =
     (case configure J opts of
        Inl e \<Rightarrow> (Inl e, w)
      | Inr mw \<Rightarrow> (Inr mw, w\<lparr>w_keys := empty_key_cache, w_mem := new_mem_replay\<rparr>))"

section \<open>The token of a request\<close>

definition extract_token :: "request \<Rightarrow> (string \<times> string) option" where
  "extract_token r =
     (case header_values (req_header r) ''Authorization'' of
        [h] \<Rightarrow>
          (case split_n 2 (CHR '' '') h of
             [s, t] \<Rightarrow>
               (if trim_space t = [] then None
                else if equal_fold s ''Bearer'' then Some (''Bearer'', trim_space t)
                else if equal_fold s ''DPoP'' then Some (''DPoP'', trim_space t)
                else None)
           | _ \<Rightarrow> None)
      | _ \<Rightarrow> None)"

definition no_token_error :: "('s, 'e) bearer_mw \<Rightarrow> auth_error" where
  "no_token_error mw =
     (case mw_dpop_mode mw of
        DPoPRequired \<Rightarrow> errDPoPRequired (mw_dpop_algs_list mw)
      | DPoPOptional \<Rightarrow> errNoTokenDPoPOptional (mw_dpop_algs_list mw)
      | DPoPOff \<Rightarrow> errNoToken)"

definition audience_matches :: "string list \<Rightarrow> string list \<Rightarrow> bool" where
  "audience_matches aud accepted = list_ex (\<lambda>a. List.member accepted a) aud"

definition missing_scopes :: "string list \<Rightarrow> string list \<Rightarrow> string list" where
  "missing_scopes granted required = filter (\<lambda>s. \<not> List.member granted s) required"

section \<open>Audit and denial\<close>

definition emit ::
  "('s, 'e) bearer_mw \<Rightarrow> request \<Rightarrow> event \<Rightarrow> claims option \<Rightarrow> ('s, 'e) world \<Rightarrow> ('s, 'e) world" where
  "emit mw r ev c w =
     (let (t, w1) = now w;
          ev1 = ev\<lparr>ev_timestamp := t, ev_resource := mw_resource mw,
                   ev_http := \<lparr>hc_method = req_method r, hc_path = req_path r,
                     hc_remote_addr = req_remote_addr r, hc_user_agent = user_agent r\<rparr>\<rparr>;
          ev2 = (case c of None \<Rightarrow> ev1
                 | Some cl \<Rightarrow> ev1\<lparr>ev_subject := cl_subject cl, ev_issuer := cl_issuer cl,
                     ev_audience := cl_audience cl, ev_scope := cl_scope cl\<rparr>)
      in emit_event ev2 w1)"

definition deny ::
  "('s, 'e) bearer_mw \<Rightarrow> request \<Rightarrow> auth_error \<Rightarrow> event \<Rightarrow> claims option
     \<Rightarrow> response \<Rightarrow> ('s, 'e) world \<Rightarrow> response \<times> ('s, 'e) world" where
  "deny mw r ae ev c rsp w =
     (let ev1 = (if ev_outcome ev = [] then ev\<lparr>ev_outcome := OutcomeDeny\<rparr> else ev)
      in (mw_on_error mw r (AuthError ae) rsp, emit mw r ev1 c w))"

definition rejected :: "string \<Rightarrow> string \<Rightarrow> string \<Rightarrow> event" where
  "rejected outcome err reason = empty_event\<lparr>ev_kind := EventTokenRejected, ev_outcome := outcome,
     ev_error := err, ev_reason := reason\<rparr>"

section \<open>The handler\<close>

text \<open>
  \<open>authenticate\<close>: the claims, the raw token and the scheme, or the response of a denial.
\<close>

definition authenticate ::
  "('k, 's) jose \<Rightarrow> ('s, 'e) bearer_mw \<Rightarrow> request \<Rightarrow> response \<Rightarrow> ('s, 'e) world
     \<Rightarrow> (claims \<times> string \<times> string) option \<times> response \<times> ('s, 'e) world" where
  "authenticate J mw r rsp w =
     (case extract_token r of
        None \<Rightarrow> (None, deny mw r (no_token_error mw) (rejected [] [] ''no token'') None rsp w)
      | Some (scheme, raw) \<Rightarrow>
          if scheme = ''DPoP'' \<and> mw_dpop_mode mw = DPoPOff
          then (None, deny mw r errNoToken (rejected [] [] ''DPoP not enabled'') None rsp w)
          else
            (case verify J \<lparr>tv_keys = mw_keys mw, tv_issuer = mw_issuer mw, tv_skew = mw_skew mw,
                            tv_algs = mw_algs mw\<rparr> raw w of
               (Inl ve, w1) \<Rightarrow>
                 (None,
                  case ve_kind ve of
                    VerifyMalformed \<Rightarrow>
                      deny mw r (errInvalidToken ''malformed token'')
                        (rejected [] ''invalid_token'' ''header parse failed'') None rsp w1
                  | VerifyJWKS \<Rightarrow>
                      deny mw r (errInvalidToken ''the access token is invalid'')
                        (rejected OutcomeError ''invalid_token'' (ve_reason ve)) None rsp w1
                  | _ \<Rightarrow>
                      deny mw r (errInvalidToken ''the access token is invalid'')
                        (rejected [] ''invalid_token'' (ve_reason ve)) None rsp w1)
             | (Inr c, w1) \<Rightarrow>
                 if \<not> audience_matches (cl_audience c) (mw_audiences mw)
                 then (None, deny mw r (errInvalidToken ''the access token is invalid'')
                         (rejected [] ''invalid_token'' ''audience mismatch'') (Some c) rsp w1)
                 else if missing_scopes (cl_scope c) (mw_required_scope mw) \<noteq> []
                 then (None, deny mw r (errInsufficientScope (mw_required_scope mw))
                         (rejected [] ''insufficient_scope''
                            (''missing scopes: ''
                             @ join '' '' (missing_scopes (cl_scope c) (mw_required_scope mw))))
                         (Some c) rsp w1)
                 else
                   (case (case mw_claim_val mw of
                            None \<Rightarrow> (None, w_ext w1)
                          | Some val \<Rightarrow> val c (w_ext w1)) of
                      (Some e, x) \<Rightarrow>
                        (None, deny mw r (errInvalidToken ''the access token is invalid'')
                           (rejected [] ''invalid_token'' (''claim validator: '' @ e))
                           (Some c) rsp (w1\<lparr>w_ext := x\<rparr>))
                    | (None, x) \<Rightarrow> (Some (c, raw, scheme), rsp, w1\<lparr>w_ext := x\<rparr>))))"

definition enforce_dpop ::
  "('k, 's) jose \<Rightarrow> ('s, 'e) bearer_mw \<Rightarrow> request \<Rightarrow> string \<Rightarrow> claims \<Rightarrow> string
     \<Rightarrow> response \<Rightarrow> ('s, 'e) world \<Rightarrow> bool \<times> response \<times> ('s, 'e) world" where
  "enforce_dpop J mw r raw c scheme rsp w =
     (if mw_dpop_mode mw = DPoPOff then
        (if bound_key_thumbprint c \<noteq> [] then
           (False, deny mw r (errWrongScheme (mw_dpop_algs_list mw))
              (empty_event\<lparr>ev_kind := EventDPoPRejected,
                 ev_error := ae_code (errWrongScheme (mw_dpop_algs_list mw)),
                 ev_reason := ''sender-constrained token presented as Bearer (DPoP off)''\<rparr>)
              (Some c) rsp w)
         else (True, rsp, w))
      else
        (case verify_dpop J mw r raw c scheme w of
           (Some ae, w1) \<Rightarrow>
             (False, deny mw r ae
                (empty_event\<lparr>ev_kind := (if ae_audit_kind ae \<noteq> [] then ae_audit_kind ae
                                         else EventDPoPRejected),
                   ev_error := ae_code ae, ev_reason := ae_reason ae,
                   ev_outcome := ae_audit_outcome ae\<rparr>)
                (Some c) rsp w1)
         | (None, w1) \<Rightarrow>
             (True, rsp,
              if scheme = ''DPoP''
              then emit mw r (empty_event\<lparr>ev_kind := EventDPoPVerified, ev_outcome := OutcomeAllow\<rparr>)
                     (Some c) w1
              else w1)))"

text \<open>The handler up to its call of the next one: the claims it passes on, or \<open>None\<close>.\<close>

definition guard ::
  "('k, 's) jose \<Rightarrow> ('s, 'e) bearer_mw \<Rightarrow> request \<Rightarrow> response \<Rightarrow> ('s, 'e) world
     \<Rightarrow> claims option \<times> response \<times> ('s, 'e) world" where
  "guard J mw r rsp w =
     (case authenticate J mw r rsp w of
        (None, rsp1, w1) \<Rightarrow> (None, rsp1, w1)
      | (Some (c, raw, scheme), rsp1, w1) \<Rightarrow>
          (case enforce_dpop J mw r raw c scheme rsp1 w1 of
             (False, rsp2, w2) \<Rightarrow> (None, rsp2, w2)
           | (True, rsp2, w2) \<Rightarrow>
               (Some c, rsp2,
                emit mw r (empty_event\<lparr>ev_kind := EventTokenValidated, ev_outcome := OutcomeAllow\<rparr>)
                  (Some c) w2)))"

text \<open>The next handler is given the claims in the context of the request.\<close>

type_synonym ('s, 'e) next_handler =
  "claims \<Rightarrow> request \<Rightarrow> response \<Rightarrow> ('s, 'e) world \<Rightarrow> response \<times> ('s, 'e) world"

definition handler ::
  "('k, 's) jose \<Rightarrow> ('s, 'e) bearer_mw \<Rightarrow> ('s, 'e) next_handler \<Rightarrow> request \<Rightarrow> response
     \<Rightarrow> ('s, 'e) world \<Rightarrow> response \<times> ('s, 'e) world" where
  "handler J mw next_h r rsp w =
     (case guard J mw r rsp w of
        (None, rsp1, w1) \<Rightarrow> (rsp1, w1)
      | (Some c, rsp1, w1) \<Rightarrow> next_h c r rsp1 w1)"

section \<open>What a configuration is made of\<close>

lemma configure_InrD:
  assumes "configure J opts = Inr mw"
  shows "\<exists>algs ks d realm meta. validate_bearer_opts opts = Inr ()
    \<and> parse_algs J (bo_allowed_algorithms opts) = Inr algs
    \<and> resolve_key_source J (bo_keys_jwks opts) (bo_jwks_uri opts) (bo_jwks_cache_ttl opts) = Inr ks
    \<and> derive_challenge_params opts = (realm, meta) \<and> build_dpop_runtime J opts = Inr d
    \<and> mw_keys mw = ks \<and> mw_issuer mw = bo_issuer opts \<and> mw_audiences mw = accepted_audiences opts
    \<and> mw_resource mw = bo_resource opts \<and> mw_required_scope mw = bo_required_scopes opts
    \<and> mw_skew mw = (if bo_clock_skew opts = 0 then 60 * second else bo_clock_skew opts)
    \<and> mw_algs mw = algs \<and> mw_claim_val mw = bo_claim_validator opts
    \<and> mw_on_error mw = (case bo_error_handler opts of Some h \<Rightarrow> h
         | None \<Rightarrow> (\<lambda>_. default_error_handler (uprint J) realm meta))
    \<and> mw_dpop_mode mw = bo_dpop opts \<and> mw_dpop_algs mw = dr_algs d
    \<and> mw_dpop_algs_list mw = dr_algs_list d \<and> mw_proof_max_age mw = dr_proof_max_age d
    \<and> mw_replay mw = dr_replay d \<and> mw_nonce mw = bo_dpop_nonce opts
    \<and> mw_trust_fwd mw = bo_trust_forwarded_headers opts"
proof -
  obtain realm meta where rm: "derive_challenge_params opts = (realm, meta)" by fastforce
  show ?thesis
    using assms unfolding configure_def rm Let_def prod.case bind_res_Inr
    by - (elim exE conjE, drule Inr_inject, hypsubst,
      intro exI conjI, simp, assumption, assumption, rule refl, assumption, simp_all)
qed

end
