(* ===== verification/GoJsonPrint.thy ===== *)
theory GoJsonPrint
  imports GoJson
begin

text \<open>
  \<open>json.Marshal\<close> of the values the code encodes, and the round trip: what is printed is parsed
  back. The printer escapes HTML characters, as Go's does by default.
\<close>

section \<open>The printer\<close>

definition esc_rune :: "nat \<times> string \<Rightarrow> string" where
  "esc_rune rb =
     (case rb of (r, b) \<Rightarrow>
        if r < 128 then
          (if r = 34 \<or> r = 92 then bslash # b
           else if r = 8 then [bslash, CHR ''b'']
           else if r = 12 then [bslash, CHR ''f'']
           else if r = 10 then [bslash, CHR ''n'']
           else if r = 13 then [bslash, CHR ''r'']
           else if r = 9 then [bslash, CHR ''t'']
           else if r < 32 \<or> r = 60 \<or> r = 62 \<or> r = 38 then bslash # CHR ''u'' # ''00'' @ hex_digits 2 r
           else b)
        else if r = 65533 \<and> length b = 1 then bslash # ''ufffd''
        else if r = 8232 \<or> r = 8233 then bslash # CHR ''u'' # hex_digits 4 r
        else b)"

definition json_quote :: "string \<Rightarrow> string" where
  "json_quote s = dquote # concat (map esc_rune (runes s)) @ [dquote]"

fun json_print :: "json \<Rightarrow> string" where
  "json_print JNull = ''null''"
| "json_print (JBool b) = (if b then ''true'' else ''false'')"
| "json_print (JNum l) = l"
| "json_print (JStr s) = json_quote s"
| "json_print (JArr vs) = ''['' @ join '','' (map json_print vs) @ '']''"
| "json_print (JObj ms) =
     ''{'' @ join '','' (map (\<lambda>(k, v). json_quote k @ '':'' @ json_print v) ms) @ ''}''"

text \<open>A Go map is encoded with its keys in the order of their bytes.\<close>

fun bytes_less :: "string \<Rightarrow> string \<Rightarrow> bool" where
  "bytes_less s [] = False"
| "bytes_less [] (d # ds) = True"
| "bytes_less (c # cs) (d # ds) = (byte c < byte d \<or> c = d \<and> bytes_less cs ds)"

fun insert_key :: "string \<times> 'a \<Rightarrow> (string \<times> 'a) list \<Rightarrow> (string \<times> 'a) list" where
  "insert_key kv [] = [kv]"
| "insert_key kv (x # xs) =
     (if bytes_less (fst kv) (fst x) then kv # x # xs else x # insert_key kv xs)"

definition sort_keys :: "(string \<times> 'a) list \<Rightarrow> (string \<times> 'a) list" where
  "sort_keys ms = foldr insert_key ms []"

lemma set_insert_key: "set (insert_key kv xs) = insert kv (set xs)"
  by (induction xs) auto

lemma set_sort_keys [simp]: "set (sort_keys ms) = set ms"
  by (induction ms) (simp_all add: sort_keys_def set_insert_key)

section \<open>UTF-8 decodes what it encodes\<close>

lemma div_mod_64: "b < 64 \<Longrightarrow> (a * 64 + b) div 64 = a \<and> (a * 64 + b) mod 64 = (b :: nat)"
  by simp

lemma div_64: "b < 64 \<Longrightarrow> (a * 64 + b) div 64 = (a :: nat)"
  by simp

lemma mod_64: "b < 64 \<Longrightarrow> (a * 64 + b) mod 64 = (b :: nat)"
  by simp

lemma cont_lt: "cont_byte b \<Longrightarrow> b - 128 < 64 \<and> 128 \<le> b"
  by (auto simp: cont_byte_def)

lemma encode_decode2:
  assumes "decode2 b cs = (r, w)" "w \<noteq> 1" "194 \<le> b" "b \<le> 223"
  shows "w = 2 \<and> 128 \<le> r \<and> encode_rune r = char_of b # take 1 cs"
proof (cases cs)
  case (Cons c1 cs')
  with assms have c: "cont_byte (byte c1)" and r: "r = (b - 192) * 64 + (byte c1 - 128)" and w: "w = 2"
    by (auto split: if_splits)
  have lt: "byte c1 - 128 < 64" using cont_lt [OF c] ..
  note dm = div_mod_64 [OF lt, of "b - 192"]
  have "2 \<le> b - 192" "b - 192 < 32" using assms(3,4) by simp_all
  then have "128 \<le> r" "r < 2048" using lt by (simp_all add: r)
  moreover have "192 + r div 64 = b" "128 + r mod 64 = byte c1"
    using dm assms(3) cont_lt [OF c] unfolding r by (simp_all only:) linarith+
  ultimately show ?thesis by (simp add: encode_rune_def Cons w)
qed (use assms in simp)

lemma encode_decode3:
  assumes "decode3 b cs = (r, w)" "w \<noteq> 1" "224 \<le> b" "b \<le> 239"
  shows "w = 3 \<and> 128 \<le> r \<and> encode_rune r = char_of b # take 2 cs"
proof (cases "\<exists>c1 c2 cs'. cs = c1 # c2 # cs'")
  case True
  then obtain c1 c2 cs' where cs: "cs = c1 # c2 # cs'" by blast
  with assms have c: "cont_byte (byte c1)" "cont_byte (byte c2)"
    and low: "b = 224 \<longrightarrow> 160 \<le> byte c1" and sur: "b = 237 \<longrightarrow> byte c1 \<le> 159"
    and r: "r = (b - 224) * 4096 + (byte c1 - 128) * 64 + (byte c2 - 128)" and w: "w = 3"
    by (auto split: if_splits)
  define x y z where "x = b - 224" and "y = byte c1 - 128" and "z = byte c2 - 128"
  have lt: "y < 64" "z < 64" "x < 16"
    using cont_lt [OF c(1)] cont_lt [OF c(2)] assms(4) unfolding x_def y_def z_def by linarith+
  have r': "r = (x * 64 + y) * 64 + z" by (simp add: r x_def y_def z_def)
  have d: "r div 64 = x * 64 + y" "r mod 64 = z"
    unfolding r' using div_mod_64 [OF lt(2)] by blast+
  have d2: "r div 4096 = x" "r div 64 mod 64 = y"
    using div_mult2_eq [of r 64 64] by (simp_all only: d div_64 [OF lt(1)] mod_64 [OF lt(1)]) simp
  have lowr: "x = 0 \<longrightarrow> 32 \<le> y" using low assms(3) by (auto simp: x_def y_def)
  have surr: "x = 13 \<longrightarrow> y < 32" using sur c by (auto simp: x_def y_def cont_byte_def)
  have "2048 \<le> r" using lowr by (cases "x = 0") (simp_all add: r')
  moreover have "r < 65536" using lt by (simp add: r')
  moreover have "\<not> (55296 \<le> r \<and> r \<le> 57343)"
  proof (cases x "13 :: nat" rule: linorder_cases)
    case less
    then have "r < 55296" using lt by (simp add: r')
    then show ?thesis by simp
  next
    case equal
    then have "r < 55296" using lt surr by (simp add: r')
    then show ?thesis by simp
  next
    case greater
    then have "57343 < r" by (simp add: r')
    then show ?thesis by simp
  qed
  moreover have "224 + x = b" "128 + y = byte c1" "128 + z = byte c2"
    using assms(3) c by (simp_all add: x_def y_def z_def cont_byte_def)
  ultimately show ?thesis by (auto simp add: encode_rune_def cs w d(2) d2 numeral_2_eq_2)
next
  case False
  with assms show ?thesis by (cases cs; cases "tl cs") auto
qed

lemma encode_decode4:
  assumes "decode4 b cs = (r, w)" "w \<noteq> 1" "240 \<le> b" "b \<le> 244"
  shows "w = 4 \<and> 128 \<le> r \<and> encode_rune r = char_of b # take 3 cs"
proof (cases "\<exists>c1 c2 c3 cs'. cs = c1 # c2 # c3 # cs'")
  case True
  then obtain c1 c2 c3 cs' where cs: "cs = c1 # c2 # c3 # cs'" by blast
  with assms have c: "cont_byte (byte c1)" "cont_byte (byte c2)" "cont_byte (byte c3)"
    and low: "b = 240 \<longrightarrow> 144 \<le> byte c1" and high: "b = 244 \<longrightarrow> byte c1 \<le> 143"
    and r: "r = (b - 240) * 262144 + (byte c1 - 128) * 4096 + (byte c2 - 128) * 64 + (byte c3 - 128)"
    and w: "w = 4"
    by (auto split: if_splits)
  define u x y z where "u = b - 240" and "x = byte c1 - 128" and "y = byte c2 - 128" and "z = byte c3 - 128"
  have lt: "x < 64" "y < 64" "z < 64" "u \<le> 4"
    using cont_lt [OF c(1)] cont_lt [OF c(2)] cont_lt [OF c(3)] assms(4)
    unfolding u_def x_def y_def z_def by linarith+
  have r': "r = ((u * 64 + x) * 64 + y) * 64 + z" by (simp add: r u_def x_def y_def z_def)
  have d: "r div 64 = (u * 64 + x) * 64 + y" "r mod 64 = z"
    unfolding r' using div_mod_64 [OF lt(3)] by blast+
  have d2: "r div 4096 = u * 64 + x" "r div 64 mod 64 = y"
    using div_mult2_eq [of r 64 64] by (simp_all only: d div_64 [OF lt(2)] mod_64 [OF lt(2)]) simp
  have d3: "r div 262144 = u" "r div 4096 mod 64 = x"
    using div_mult2_eq [of r 4096 64] by (simp_all only: d2 div_64 [OF lt(1)] mod_64 [OF lt(1)]) simp
  have lowr: "u = 0 \<longrightarrow> 16 \<le> x" using low assms(3) by (auto simp: u_def x_def)
  have highr: "u = 4 \<longrightarrow> x < 16" using high c by (auto simp: u_def x_def cont_byte_def)
  have "65536 \<le> r" using lowr by (cases "u = 0") (simp_all add: r')
  moreover have "r \<le> 1114111"
  proof (cases "u = 4")
    case True
    then show ?thesis using lt highr by (simp add: r')
  next
    case False
    then show ?thesis using lt by (simp add: r')
  qed
  moreover have "240 + u = b" "128 + x = byte c1" "128 + y = byte c2" "128 + z = byte c3"
    using assms(3) c by (simp_all add: u_def x_def y_def z_def cont_byte_def)
  ultimately show ?thesis by (simp add: encode_rune_def cs w d(2) d2(2) d3 numeral_3_eq_3)
next
  case False
  with assms show ?thesis by (cases cs; cases "tl cs"; cases "tl (tl cs)") auto
qed

lemma encode_decode:
  assumes "decode_rune c cs = (r, w)" and "128 \<le> byte c" and "w \<noteq> 1"
  shows "128 \<le> r \<and> encode_rune r = c # take (w - 1) cs"
proof -
  have n: "\<not> byte c < 128" using assms(2) by simp
  consider "194 \<le> byte c" "byte c \<le> 223" | "224 \<le> byte c" "byte c \<le> 239"
    | "240 \<le> byte c" "byte c \<le> 244"
    using assms n by (auto simp: decode_rune_def Let_def split: if_splits)
  then show ?thesis
  proof cases
    case 1
    then have "decode2 (byte c) cs = (r, w)" using assms(1) n by (simp add: decode_rune_def)
    from encode_decode2 [OF this assms(3) 1] show ?thesis by simp
  next
    case 2
    then have "decode3 (byte c) cs = (r, w)" using assms(1) n by (simp add: decode_rune_def)
    from encode_decode3 [OF this assms(3) 2] show ?thesis by simp
  next
    case 3
    then have "decode4 (byte c) cs = (r, w)" using assms(1) n by (simp add: decode_rune_def)
    from encode_decode4 [OF this assms(3) 3] show ?thesis by simp
  qed
qed

lemma decode_rune_append:
  assumes "decode_rune c cs = (r, w)" and "w \<noteq> 1"
  shows "decode_rune c (cs @ t) = (r, w) \<and> w - 1 \<le> length cs \<and> 1 < w"
proof -
  have "decode2 b (cs @ t) = (r, w) \<and> w - 1 \<le> length cs \<and> 1 < w" if "decode2 b cs = (r, w)" for b
    using that assms(2) by (cases cs) (auto split: if_splits)
  moreover have "decode3 b (cs @ t) = (r, w) \<and> w - 1 \<le> length cs \<and> 1 < w" if "decode3 b cs = (r, w)" for b
    using that assms(2) by (cases cs; cases "tl cs") (auto split: if_splits)
  moreover have "decode4 b (cs @ t) = (r, w) \<and> w - 1 \<le> length cs \<and> 1 < w" if "decode4 b cs = (r, w)" for b
    using that assms(2) by (cases cs; cases "tl cs"; cases "tl (tl cs)") (auto split: if_splits)
  ultimately show ?thesis
    using assms by (simp add: decode_rune_def Let_def split: if_splits)
qed

section \<open>A printed string is read back\<close>

text \<open>Valid UTF-8: no byte decodes to the replacement character by itself.\<close>

definition utf8 :: "string \<Rightarrow> bool" where
  "utf8 s \<longleftrightarrow> list_all (\<lambda>(r, b). r < 128 \<or> length b \<noteq> 1) (runes s)"

lemma ascii_utf8: "ascii s \<Longrightarrow> utf8 s"
  by (simp add: utf8_def runes_ascii list_all_iff ascii_def)

lemma hex_val_hex_char: "d < 16 \<Longrightarrow> hex_val (hex_char d) = Some d"
  by (simp add: hex_val_def hex_char_def)

lemma four: "(4 :: nat) = Suc (Suc (Suc (Suc 0)))" and two: "(2 :: nat) = Suc (Suc 0)"
  by simp_all

lemma hex4_digits:
  assumes "n < 65536"
  shows "hex4 (hex_digits 4 n) = Some n"
proof -
  let ?a = "n div 16" and ?b = "n div 16 div 16" and ?c = "n div 16 div 16 div 16"
  have d: "hex_digits 4 n = [hex_char (?c mod 16), hex_char (?b mod 16), hex_char (?a mod 16), hex_char (n mod 16)]"
    unfolding four by (simp only: hex_digits.simps append.simps)
  have "?a < 4096" using assms by (intro less_mult_imp_div_less) simp
  then have "?b < 256" by (intro less_mult_imp_div_less) simp
  then have c: "?c < 16" by (intro less_mult_imp_div_less) simp
  have "?c * 4096 + ?b mod 16 * 256 + ?a mod 16 * 16 + n mod 16 = n"
    using div_mult_mod_eq [of n 16] div_mult_mod_eq [of ?a 16] div_mult_mod_eq [of ?b 16] by linarith
  moreover have "?c mod 16 = ?c" using c by simp
  ultimately show ?thesis by (simp only: d hex4.simps hex_val_hex_char c option.case prod.case
        mod_less_divisor zero_less_numeral)
qed

lemma hex_digits_00:
  assumes "n < 256"
  shows "''00'' @ hex_digits 2 n = hex_digits 4 n"
proof -
  have "n div 16 < 16" using assms by (intro less_mult_imp_div_less) simp
  then have z: "n div 16 div 16 = 0" by simp
  have "hex_char 0 = CHR ''0''" by code_simp
  then show ?thesis unfolding four two by (simp only: hex_digits.simps append.simps z div_0 mod_0)
qed

lemma hex4_append:
  assumes "length h = 4"
  shows "hex4 (h @ t) = hex4 h"
proof -
  obtain a b c d where "h = [a, b, c, d]"
    using assms unfolding four length_Suc_conv by auto
  then show ?thesis by simp
qed

lemma length_hex_digits [simp]: "length (hex_digits k n) = k"
  by (induction k arbitrary: n) simp_all

lemma json_string_u:
  assumes "length h = 4" and "hex4 h = Some u" and "\<not> (55296 \<le> u \<and> u \<le> 56319)"
  shows "json_string (bslash # CHR ''u'' # h @ t) = prepend (encode_rune u) (json_string t)"
  using assms by (auto simp: hex4_append)

lemma json_string_ascii:
  assumes "byte c < 128"
  shows "json_string (esc_rune (byte c, [c]) @ t) = prepend [c] (json_string t)"
proof -
  define r where r: "r = byte c"
  have c: "c = char_of r" by (simp add: r)
  have lt: "r < 128" using assms r by simp
  consider (quoted) "r = 34 \<or> r = 92 \<or> r = 8 \<or> r = 12 \<or> r = 10 \<or> r = 13 \<or> r = 9"
    | (hex) "r < 32 \<or> r = 60 \<or> r = 62 \<or> r = 38"
        "\<not> (r = 34 \<or> r = 92 \<or> r = 8 \<or> r = 12 \<or> r = 10 \<or> r = 13 \<or> r = 9)"
    | (plain) "32 \<le> r" "r \<noteq> 34" "r \<noteq> 92" "r \<noteq> 60" "r \<noteq> 62" "r \<noteq> 38"
    by fastforce
  then show ?thesis
  proof cases
    case quoted
    then have "c \<in> {CHR 0x22, CHR 0x5C, CHR 0x08, CHR 0x0C, CHR 0x0A, CHR 0x0D, CHR 0x09}"
      unfolding r by (elim disjE) (auto intro!: byte_eqI)
    then show ?thesis
      by (elim insertE emptyE) (simp_all add: esc_rune_def simple_escape_def)
  next
    case hex
    then have "hex4 (''00'' @ hex_digits 2 r) = Some r" using hex4_digits [of r] hex_digits_00 [of r] lt by simp
    moreover have "esc_rune (r, [c]) = bslash # CHR ''u'' # ''00'' @ hex_digits 2 r"
      using hex lt by (auto simp: esc_rune_def)
    moreover have "encode_rune r = [c]" using lt c by (simp add: encode_rune_def)
    ultimately show ?thesis
      using json_string_u [of "''00'' @ hex_digits 2 r" r t] lt by (simp add: r)
  next
    case plain
    have "c \<noteq> dquote" "c \<noteq> bslash" using plain r byte_dquote byte_bslash by auto
    moreover have "esc_rune (r, [c]) = [c]" using plain lt by (simp add: esc_rune_def)
    ultimately show ?thesis using plain lt r by simp
  qed
qed

lemma decode_rune_take:
  assumes d: "decode_rune c cs = (r, w)" and len: "1 < w" "w - 1 \<le> length cs" and w: "w \<noteq> 1"
  shows "snd (decode_rune c (take (w - 1) cs)) \<noteq> 1 \<and> decode_rune c (take (w - 1) cs) = (r, w)"
proof -
  have "decode2 b (take (w - 1) cs) = (r, w)" if "decode2 b cs = (r, w)" for b
    using that w by (cases cs) (auto split: if_splits)
  moreover have "decode3 b (take (w - 1) cs) = (r, w)" if "decode3 b cs = (r, w)" for b
    using that w by (cases cs; cases "tl cs") (auto split: if_splits simp: numeral_2_eq_2)
  moreover have "decode4 b (take (w - 1) cs) = (r, w)" if "decode4 b cs = (r, w)" for b
    using that w by (cases cs; cases "tl cs"; cases "tl (tl cs)")
      (auto split: if_splits simp: numeral_3_eq_3)
  ultimately show ?thesis
    using d w by (simp add: decode_rune_def Let_def split: if_splits)
qed

lemma json_string_multi:
  assumes d: "decode_rune c cs = (r, w)" and n: "128 \<le> byte c" and w: "w \<noteq> 1"
  shows "json_string (esc_rune (r, c # take (w - 1) cs) @ t)
    = prepend (c # take (w - 1) cs) (json_string t)"
proof -
  let ?b = "c # take (w - 1) cs"
  have r: "128 \<le> r" "encode_rune r = ?b" using encode_decode [OF d n w] by simp_all
  have w': "1 < w" "w - 1 \<le> length cs" using decode_rune_append [OF d w] by simp_all
  have len: "length ?b = w" using w' by simp
  show ?thesis
  proof (cases "r = 8232 \<or> r = 8233")
    case True
    then have "esc_rune (r, ?b) = bslash # CHR ''u'' # hex_digits 4 r"
      by (auto simp: esc_rune_def)
    moreover have "hex4 (hex_digits 4 r) = Some r" using True by (auto intro: hex4_digits)
    ultimately show ?thesis
      using json_string_u [of "hex_digits 4 r" r t] True r(2) by auto
  next
    case False
    have "esc_rune (r, ?b) = ?b" using False r(1) w' len by (auto simp: esc_rune_def)
    moreover have "decode_rune c (take (w - 1) cs @ drop (w - 1) cs) = (r, w)" using d by simp
    moreover have "decode_rune c (take (w - 1) cs @ t) = (r, w)"
    proof -
      have "snd (decode_rune c (take (w - 1) cs)) \<noteq> 1 \<and> decode_rune c (take (w - 1) cs) = (r, w)"
        using d w' w by (rule decode_rune_take)
      then show ?thesis using decode_rune_append [OF _ w] by blast
    qed
    moreover have "c \<noteq> dquote" "c \<noteq> bslash" "\<not> byte c < 128" "\<not> byte c < 32" using n by auto
    ultimately show ?thesis using r(2) w' by (simp add: min_def)
  qed
qed

lemma json_string_quote:
  "utf8 s \<Longrightarrow> json_string (concat (map esc_rune (runes s)) @ dquote # t) = Some (s, t)"
proof (induction s rule: runes.induct)
  case 1
  then show ?case by simp
next
  case (2 c cs)
  obtain r w where d: "decode_rune c cs = (r, w)" by fastforce
  have u: "utf8 (drop (w - 1) cs)" and one: "r < 128 \<or> length (c # take (w - 1) cs) \<noteq> 1"
    using 2 d by (simp_all add: utf8_def)
  have ih: "json_string (concat (map esc_rune (runes (drop (w - 1) cs))) @ dquote # t)
      = Some (drop (w - 1) cs, t)" using 2(1) [OF d [symmetric] refl] u by simp
  show ?case
  proof (cases "byte c < 128")
    case True
    then have "r = byte c" "w = 1" using d by auto
    then show ?thesis using ih json_string_ascii [OF True] d by (simp add: prepend_def)
  next
    case False
    have "w \<noteq> 1"
    proof
      assume w: "w = 1"
      then have "r = 65533"
        using d False by (auto simp: decode_rune_def Let_def split: if_splits elim: decode2.elims
            decode3.elims decode4.elims)
      then show False using one w by simp
    qed
    then show ?thesis using ih json_string_multi [OF d _ _] d False by (simp add: prepend_def)
  qed
qed

section \<open>A printed value is read back\<close>

text \<open>The characters that can follow a number.\<close>

definition delim :: "string \<Rightarrow> bool" where
  "delim t \<longleftrightarrow> (case t of [] \<Rightarrow> True | c # _ \<Rightarrow> c = CHR '','' \<or> c = CHR '']'' \<or> c = CHR ''}'' \<or> c = CHR 0x0A)"

lemma delim_simps [simp]:
  "delim []" "delim (CHR '','' # t)" "delim (CHR '']'' # t)" "delim (CHR ''}'' # t)" "delim (CHR 0x0A # t)"
  by (simp_all add: delim_def)

lemma delimE: "delim t \<Longrightarrow> t = [] \<or> (\<exists>c u. t = c # u \<and> \<not> is_digit c \<and> c \<notin> set ''.eE+-0'')"
  by (cases t) (auto simp: delim_def is_digit_def)

abbreviation over :: "string \<Rightarrow> (string \<times> string) option \<Rightarrow> (string \<times> string) option" where
  "over t x \<equiv> map_option (\<lambda>(d, r). (d, r @ t)) x"

lemma digits1_append: "delim t \<Longrightarrow> digits1 (s @ t) = over t (digits1 s)"
proof -
  assume "delim t"
  then have "takeWhile is_digit t = []" by (auto dest: delimE)
  then have "takeWhile is_digit (s @ t) = takeWhile is_digit s"
    by (induction s) auto
  then show ?thesis
    using length_takeWhile_le [of is_digit s] by (simp add: digits1_def Let_def)
qed

lemma json_int_append: "delim t \<Longrightarrow> json_int (s @ t) = over t (json_int s)"
  using digits1_append [of t s] digits1_append [of t "[]"]
  by (cases s; cases t) (auto simp: json_int_def digits1_def delim_def)

lemma json_frac_append: "delim t \<Longrightarrow> json_frac (s @ t) = over t (json_frac s)"
  using digits1_append [of t "tl s"]
  by (cases s; cases t; cases "digits1 (tl s)")
    (auto simp: json_frac_def delim_def prepend_def option.map_comp comp_def split_beta)

lemma json_exp_append: "delim t \<Longrightarrow> json_exp (s @ t) = over t (json_exp s)"
proof (cases s)
  case Nil
  assume "delim t"
  with Nil show ?thesis by (cases t) (auto simp: json_exp_def delim_def)
next
  case (Cons e cs)
  assume t: "delim t"
  show ?thesis
  proof (cases cs)
    case Nil
    with Cons t digits1_append [OF t, of "[]"] show ?thesis
      by (cases t) (auto simp: json_exp_def delim_def prepend_def digits1_def)
  next
    case (Cons g r)
    with \<open>s = e # cs\<close> digits1_append [OF t, of r] digits1_append [OF t, of cs] show ?thesis
      by (auto simp: json_exp_def prepend_def option.map_comp comp_def split_beta)
  qed
qed

lemma json_number_append:
  assumes "json_number l = Some (l, [])" and "delim t"
  shows "json_number (l @ t) = Some (l, t)"
proof -
  obtain c l' where l: "l = c # l'" using assms(1) by (cases l) (auto simp: json_number_def json_int_def)
  show ?thesis
    using assms json_int_append [OF assms(2), of "if c = CHR ''-'' then l' else l"]
      json_frac_append [OF assms(2)] json_exp_append [OF assms(2)]
    by (auto simp: json_number_def l prepend_def split: option.splits if_splits)
qed

text \<open>
  The values the round trip is for: numbers are number literals, strings are UTF-8, and the
  nesting is within the limit of Go's scanner.
\<close>

fun json_ok :: "json \<Rightarrow> bool" where
  "json_ok JNull = True"
| "json_ok (JBool b) = True"
| "json_ok (JNum l) = (json_number l = Some (l, []))"
| "json_ok (JStr s) = utf8 s"
| "json_ok (JArr vs) = list_all json_ok vs"
| "json_ok (JObj ms) = list_all (\<lambda>(k, v). utf8 k \<and> json_ok v) ms"

fun json_depth :: "json \<Rightarrow> nat" where
  "json_depth (JArr vs) = Suc (fold max (map json_depth vs) 0)"
| "json_depth (JObj ms) = Suc (fold max (map (\<lambda>(k, v). json_depth v) ms) 0)"
| "json_depth _ = 0"

lemma fold_max_ge: "x \<in> set xs \<or> x \<le> (a :: nat) \<Longrightarrow> x \<le> fold max xs a"
  by (induction xs arbitrary: a) (auto simp: le_max_iff_disj)

lemma number_hd:
  assumes "json_number l = Some (l, [])"
  shows "\<exists>c l'. l = c # l' \<and> (c = CHR ''-'' \<or> is_digit c)"
proof -
  obtain c l' where l: "l = c # l'" using assms by (cases l) (auto simp: json_number_def json_int_def)
  have "c = CHR ''-'' \<or> is_digit c"
    using assms unfolding l
    by (auto simp: json_number_def json_int_def digits1_def Let_def is_digit_def
        split: if_splits option.splits)
  with l show ?thesis by blast
qed

definition first_ok :: "char \<Rightarrow> bool" where
  "first_ok c \<longleftrightarrow> \<not> is_ws c \<and> c \<noteq> CHR '']'' \<and> c \<noteq> CHR ''}''"

lemma digit_first: "is_digit c \<Longrightarrow> first_ok c"
  by (auto simp: first_ok_def is_ws_def is_digit_def)

lemma print_hd: "json_ok v \<Longrightarrow> \<exists>c cs. json_print v = c # cs \<and> first_ok c"
proof (cases v)
  case (JNum l)
  assume "json_ok v"
  then have "json_number l = Some (l, [])" using JNum by simp
  then obtain c l' where "l = c # l'" "c = CHR ''-'' \<or> is_digit c" using number_hd by blast
  then show ?thesis using JNum digit_first by (auto simp: first_ok_def is_ws_def)
qed (auto simp: first_ok_def is_ws_def json_quote_def)

lemma skip_ws_first: "first_ok c \<Longrightarrow> skip_ws (c # cs) = c # cs"
  by (simp add: skip_ws_def first_ok_def)

text \<open>\<open>reads f s v\<close>: with fuel enough, \<open>f\<close> reads \<open>v\<close> off \<open>s @ t\<close> and leaves \<open>t\<close>.\<close>

definition reads :: "(nat \<Rightarrow> string \<Rightarrow> ('a \<times> string) option) \<Rightarrow> string \<Rightarrow> 'a \<Rightarrow> bool" where
  "reads f s v \<longleftrightarrow> (\<exists>N. \<forall>n \<ge> N. \<forall>t. delim t \<longrightarrow> f n (s @ t) = Some (v, t))"

lemma readsI: "(\<And>n t. N \<le> n \<Longrightarrow> delim t \<Longrightarrow> f n (s @ t) = Some (v, t)) \<Longrightarrow> reads f s v"
  unfolding reads_def by blast

lemma readsI_Suc:
  assumes "\<And>n t. N \<le> n \<Longrightarrow> delim t \<Longrightarrow> f (Suc n) (s @ t) = Some (v, t)"
  shows "reads f s v"
proof (rule readsI [of "Suc N"])
  fix n t
  assume "Suc N \<le> n" "delim t"
  then show "f n (s @ t) = Some (v, t)" using assms [of "n - 1" t] by (cases n) simp_all
qed

lemma readsE:
  assumes "reads f s v"
  obtains N where "\<And>n t. N \<le> n \<Longrightarrow> delim t \<Longrightarrow> f n (s @ t) = Some (v, t)"
  using assms unfolding reads_def by blast

lemma reads_elems:
  assumes "vs \<noteq> []" and "\<forall>v \<in> set vs. reads (\<lambda>n. json_value n d) (json_print v) v"
  shows "\<exists>N. \<forall>n \<ge> N. \<forall>t. json_elems n d (join '','' (map json_print vs) @ '']'' @ t) = Some (vs, t)"
  using assms
proof (induction vs)
  case Nil
  then show ?case by simp
next
  case (Cons v vs)
  have "reads (\<lambda>n. json_value n d) (json_print v) v" using Cons.prems(2) by simp
  from readsE [OF this] obtain N
    where N: "\<And>n t. N \<le> n \<Longrightarrow> delim t \<Longrightarrow> json_value n d (json_print v @ t) = Some (v, t)" by blast
  show ?case
  proof (cases vs)
    case Nil
    have "json_elems n d (json_print v @ '']'' @ t) = Some ([v], t)" if "Suc N \<le> n" for n t
      using that N [of "n - 1" "'']'' @ t"]
      by (cases n) (simp_all add: json_elems.simps skip_ws_def is_ws_def)
    with Nil show ?thesis by (intro exI [of _ "Suc N"]) simp
  next
    case (Cons v' vs')
    then obtain M where M: "\<And>n t. M \<le> n \<Longrightarrow>
        json_elems n d (join '','' (map json_print vs) @ '']'' @ t) = Some (vs, t)"
      using Cons.IH Cons.prems by auto
    have "json_elems n d (json_print v @ '','' @ join '','' (map json_print vs) @ '']'' @ t) = Some (v # vs, t)"
      if "Suc (max N M) \<le> n" for n t
      using that N [of "n - 1" "'','' @ join '','' (map json_print vs) @ '']'' @ t"] M [of "n - 1" t]
      by (cases n) (simp_all add: json_elems.simps skip_ws_def is_ws_def)
    with Cons show ?thesis by (intro exI [of _ "Suc (max N M)"]) simp
  qed
qed

lemma reads_members:
  assumes "ms \<noteq> []" and "\<forall>(k, v) \<in> set ms. utf8 k \<and> reads (\<lambda>n. json_value n d) (json_print v) v"
  shows "\<exists>N. \<forall>n \<ge> N. \<forall>t. json_members n d
    (join '','' (map (\<lambda>(k, v). json_quote k @ '':'' @ json_print v) ms) @ ''}'' @ t) = Some (ms, t)"
  using assms
proof (induction ms)
  case Nil
  then show ?case by simp
next
  case (Cons m ms)
  obtain k v where m: "m = (k, v)" by (cases m)
  have k: "utf8 k" using Cons.prems(2) m by simp
  have "reads (\<lambda>n. json_value n d) (json_print v) v" using Cons.prems(2) m by simp
  from readsE [OF this] obtain N
    where N: "\<And>n t. N \<le> n \<Longrightarrow> delim t \<Longrightarrow> json_value n d (json_print v @ t) = Some (v, t)" by blast
  have one: "json_members (Suc n) d (json_quote k @ '':'' @ json_print v @ c # u)
      = (if c = CHR '','' then map_option (\<lambda>(ms, r'). ((k, v) # ms, r')) (json_members n d u)
         else Some ([(k, v)], u))"
    if "N \<le> n" and c: "c = CHR '','' \<or> c = CHR ''}''" for n c u
    using N [OF that(1), of "c # u"] c json_string_quote [OF k, of "'':'' @ json_print v @ c # u"]
    by (auto simp: json_members.simps json_quote_def skip_ws_def is_ws_def)
  show ?case
  proof (cases ms)
    case Nil
    have "json_members n d (json_quote k @ '':'' @ json_print v @ ''}'' @ t) = Some ([(k, v)], t)"
      if "Suc N \<le> n" for n t
      using that one [of "n - 1" "CHR ''}''" t] by (cases n) simp_all
    with Nil m show ?thesis by (intro exI [of _ "Suc N"]) simp
  next
    case (Cons m' ms')
    let ?r = "join '','' (map (\<lambda>(k, v). json_quote k @ '':'' @ json_print v) ms)"
    obtain M where M: "\<And>n t. M \<le> n \<Longrightarrow> json_members n d (?r @ ''}'' @ t) = Some (ms, t)"
      using Cons Cons.IH Cons.prems by auto
    have "json_members n d (json_quote k @ '':'' @ json_print v @ '','' @ ?r @ ''}'' @ t) = Some ((k, v) # ms, t)"
      if "Suc (max N M) \<le> n" for n t
      using that one [of "n - 1" "CHR '',''" "?r @ ''}'' @ t"] M [of "n - 1" t] by (cases n) simp_all
    with Cons m show ?thesis by (intro exI [of _ "Suc (max N M)"]) simp
  qed
qed

lemma reads_value:
  "json_ok v \<Longrightarrow> d + json_depth v \<le> max_nesting \<Longrightarrow> reads (\<lambda>n. json_value n d) (json_print v) v"
proof (induction v arbitrary: d)
  case JNull
  show ?case
    by (rule readsI [of 1], case_tac n)
      (simp_all add: json_value.simps skip_ws_def is_ws_def keyword_def)
next
  case (JBool b)
  show ?case
    by (rule readsI [of 1], case_tac n)
      (simp_all add: json_value.simps skip_ws_def is_ws_def keyword_def)
next
  case (JNum l)
  then have l: "json_number l = Some (l, [])" by simp
  obtain c l' where c: "l = c # l'" "c = CHR ''-'' \<or> is_digit c" using number_hd [OF l] by blast
  have f: "first_ok c" using c(2) digit_first by (auto simp: first_ok_def is_ws_def)
  have ne: "c \<noteq> CHR ''{''" "c \<noteq> CHR ''[''" "c \<noteq> dquote" "c \<noteq> CHR ''t''" "c \<noteq> CHR ''f''" "c \<noteq> CHR ''n''"
    using c(2) by (auto simp: is_digit_def)
  have "json_value (Suc n) d (l @ t) = Some (JNum l, t)" if "delim t" for n t
    using json_number_append [OF l that] ne skip_ws_first [OF f] by (simp add: json_value.simps c(1))
  then show ?case by (intro readsI [of 1]) (metis Suc_le_D json_print.simps(3) One_nat_def)
next
  case (JStr s)
  then have "json_value (Suc n) d (json_quote s @ t) = Some (JStr s, t)" for n t
    by (simp add: json_value.simps json_quote_def skip_ws_def is_ws_def json_string_quote)
  then show ?case by (intro readsI [of 1]) (metis Suc_le_D json_print.simps(4) One_nat_def)
next
  case (JArr vs)
  have d: "d < max_nesting" using JArr.prems(2) by simp
  show ?case
  proof (cases vs)
    case Nil
    have "json_value (Suc n) d (''[]'' @ t) = Some (JArr [], t)" for n t
      using d by (simp add: json_value.simps skip_ws_def is_ws_def)
    with Nil show ?thesis by (intro readsI [of 1]) (auto simp: Suc_le_eq gr0_conv_Suc)
  next
    case (Cons v vs')
    have "json_depth x < json_depth (JArr vs)" if "x \<in> set vs" for x
      using that fold_max_ge [of "json_depth x" "map json_depth vs" 0] by (simp add: less_Suc_eq_le)
    then have "\<forall>x \<in> set vs. reads (\<lambda>n. json_value n (Suc d)) (json_print x) x"
      using JArr by (fastforce simp: list_all_iff)
    then obtain N where N: "\<And>n t. N \<le> n \<Longrightarrow>
        json_elems n (Suc d) (join '','' (map json_print vs) @ '']'' @ t) = Some (vs, t)"
      using reads_elems [of vs "Suc d"] Cons by blast
    have "json_ok v" using JArr.prems(1) Cons by simp
    from print_hd [OF this] obtain c cs where c: "json_print v = c # cs" "first_ok c" by blast
    obtain u where u: "join '','' (map json_print vs) = c # u"
      using c(1) Cons by (cases vs') auto
    have "json_value (Suc n) d (json_print (JArr vs) @ t) = Some (JArr vs, t)" if "N \<le> n" for n t
      using d N [OF that, of t] c(2) skip_ws_first [OF c(2)]
      by (auto simp add: json_value.simps skip_ws_def [of "CHR ''['' # _"] is_ws_def u first_ok_def)
    then show ?thesis by (rule readsI_Suc)
  qed
next
  case (JObj ms)
  have d: "d < max_nesting" using JObj.prems(2) by simp
  show ?case
  proof (cases ms)
    case Nil
    have "json_value (Suc n) d (''{}'' @ t) = Some (JObj [], t)" for n t
      using d by (simp add: json_value.simps skip_ws_def is_ws_def)
    with Nil show ?thesis by (intro readsI [of 1]) (auto simp: Suc_le_eq gr0_conv_Suc)
  next
    case (Cons m ms')
    have dep: "json_depth x < json_depth (JObj ms)" if "(k, x) \<in> set ms" for k x
      using that fold_max_ge [of "json_depth x" "map (\<lambda>(k, v). json_depth v) ms" 0]
      by (force simp: less_Suc_eq_le)
    have "utf8 k \<and> reads (\<lambda>n. json_value n (Suc d)) (json_print x) x" if kx: "(k, x) \<in> set ms" for k x
    proof
      have ok: "utf8 k \<and> json_ok x" using JObj.prems(1) kx by (auto simp: list_all_iff)
      then show "utf8 k" ..
      have "x \<in> Basic_BNFs.snds (k, x)" by simp
      moreover have "Suc d + json_depth x \<le> max_nesting" using dep [OF kx] JObj.prems(2) by simp
      ultimately show "reads (\<lambda>n. json_value n (Suc d)) (json_print x) x"
        using JObj.IH [OF kx] ok by blast
    qed
    then obtain N where N: "\<And>n t. N \<le> n \<Longrightarrow> json_members n (Suc d)
        (join '','' (map (\<lambda>(k, v). json_quote k @ '':'' @ json_print v) ms) @ ''}'' @ t) = Some (ms, t)"
      using reads_members [of ms "Suc d"] Cons by blast
    obtain u where u: "join '','' (map (\<lambda>(k, v). json_quote k @ CHR '':'' # json_print v) ms) = dquote # u"
      using Cons by (cases m; cases ms') (auto simp: json_quote_def)
    have "json_value (Suc n) d (json_print (JObj ms) @ t) = Some (JObj ms, t)" if "N \<le> n" for n t
      using d N [OF that, of t] by (simp add: json_value.simps skip_ws_def is_ws_def u)
    then show ?thesis by (rule readsI_Suc)
  qed
qed

theorem json_parse_print:
  assumes "json_ok v" and "json_depth v \<le> max_nesting"
  shows "json_parse (json_print v) = Some v"
proof -
  obtain N where N: "\<And>n t. N \<le> n \<Longrightarrow> delim t \<Longrightarrow> json_value n 0 (json_print v @ t) = Some (v, t)"
    using readsE [OF reads_value [of v 0]] assms by auto
  let ?n = "max N (2 * length (json_print v) + 2)"
  have "json_value ?n 0 (json_print v) = Some (v, [])" using N [of ?n "[]"] by simp
  with json_parse_fuel [of "json_print v" ?n] show ?thesis by (simp add: skip_ws_def)
qed

text \<open>Sorting the keys of a map keeps the map.\<close>

lemma distinct_insert_key:
  "distinct (map fst (insert_key p xs)) \<longleftrightarrow> fst p \<notin> fst ` set xs \<and> distinct (map fst xs)"
  by (induction xs) (auto simp: set_insert_key)

lemma distinct_sort_keys: "distinct (map fst ms) \<Longrightarrow> distinct (map fst (sort_keys ms))"
proof (induction ms)
  case (Cons p ms)
  then show ?case
    using set_sort_keys [of ms] by (simp add: sort_keys_def distinct_insert_key)
qed (simp add: sort_keys_def)

lemma map_of_sort_keys: "distinct (map fst ms) \<Longrightarrow> map_of (sort_keys ms) = map_of ms"
  by (subst map_of_inject_set) (simp_all add: distinct_sort_keys)

end
