(* ===== verification/Metadata.thy ===== *)
theory Metadata
  imports Bearer GoJsonPrint "HOL-Library.Sublist"
begin

text \<open>
  The RFC 9728 metadata document (metadata.go), its HTTP handler (handler.go) and its mounting on
  a chi router (adapters/chi).
\<close>

section \<open>The document\<close>

text \<open>
  \<open>ProtectedResourceMetadata\<close>. \<open>Extra\<close> is a Go map; the model has its entries as a list with
  distinct keys, each value as the tree \<open>encoding/json\<close> encodes it to.
\<close>

record metadata =
  md_resource :: string
  md_authorization_servers :: "string list"
  md_jwks_uri :: string
  md_scopes_supported :: "string list"
  md_bearer_methods_supported :: "string list"
  md_resource_signing_alg_values_supported :: "string list"
  md_resource_name :: string
  md_resource_documentation :: string
  md_resource_policy_uri :: string
  md_resource_tos_uri :: string
  md_tls_client_certificate_bound_access_tokens :: bool
  md_authorization_details_types_supported :: "string list"
  md_dpop_signing_alg_values_supported :: "string list"
  md_dpop_bound_access_tokens_required :: bool
  md_signed_metadata :: string
  md_extra :: "(string \<times> json) list"

definition empty_metadata :: metadata where
  "empty_metadata = \<lparr>md_resource = [], md_authorization_servers = [], md_jwks_uri = [],
     md_scopes_supported = [], md_bearer_methods_supported = [],
     md_resource_signing_alg_values_supported = [], md_resource_name = [],
     md_resource_documentation = [], md_resource_policy_uri = [], md_resource_tos_uri = [],
     md_tls_client_certificate_bound_access_tokens = False,
     md_authorization_details_types_supported = [], md_dpop_signing_alg_values_supported = [],
     md_dpop_bound_access_tokens_required = False, md_signed_metadata = [], md_extra = []\<rparr>"

section \<open>Validation\<close>

text \<open>The loop over \<open>authorization_servers\<close>, from index \<open>i\<close>.\<close>

fun validate_servers :: "nat \<Rightarrow> string list \<Rightarrow> unit result" where
  "validate_servers i [] = Inr ()"
| "validate_servers i (s # ss) =
     (case validate_issuer_url s of
        Inl e \<Rightarrow> Inl (''authorization_servers['' @ format_int (int i) @ '']: '' @ e)
      | Inr _ \<Rightarrow> validate_servers (Suc i) ss)"

text \<open>\<open>ValidateWithOptions\<close>; the option record has the one field \<open>AllowInsecureLocalhost\<close>.\<close>

definition validate_metadata :: "bool \<Rightarrow> metadata \<Rightarrow> unit result" where
  "validate_metadata allow_localhost m =
     (if md_resource m = [] then Inl ''resource is required''
      else
        (case url_parse (md_resource m) of
           None \<Rightarrow> Inl ''resource must be an absolute URI''
         | Some u \<Rightarrow>
             if \<not> is_abs u then Inl ''resource must be an absolute URI''
             else if url_fragment u \<noteq> []
             then Inl ''resource must not contain a fragment per RFC 9728 par.1.2''
             else if url_scheme u = ''https'' then validate_servers 0 (md_authorization_servers m)
             else if url_scheme u = ''http'' then
               (if \<not> allow_localhost \<or> \<not> is_localhost (url_host u)
                then Inl ''resource scheme must be https per RFC 9728 par.1.2''
                else validate_servers 0 (md_authorization_servers m))
             else Inl ''resource scheme must be https''))"

section \<open>JSON\<close>

text \<open>The \<open>omitempty\<close> fields, in the order of the struct.\<close>

definition string_field :: "string \<Rightarrow> string \<Rightarrow> (string \<times> json) list" where
  "string_field k v = (if v = [] then [] else [(k, JStr v)])"

definition strings_field :: "string \<Rightarrow> string list \<Rightarrow> (string \<times> json) list" where
  "strings_field k vs = (if vs = [] then [] else [(k, JArr (map JStr vs))])"

definition bool_field :: "string \<Rightarrow> bool \<Rightarrow> (string \<times> json) list" where
  "bool_field k b = (if b then [(k, JBool True)] else [])"

definition typed_fields :: "metadata \<Rightarrow> (string \<times> json) list" where
  "typed_fields m =
     [(''resource'', JStr (md_resource m))]
     @ strings_field ''authorization_servers'' (md_authorization_servers m)
     @ string_field ''jwks_uri'' (md_jwks_uri m)
     @ strings_field ''scopes_supported'' (md_scopes_supported m)
     @ strings_field ''bearer_methods_supported'' (md_bearer_methods_supported m)
     @ strings_field ''resource_signing_alg_values_supported''
         (md_resource_signing_alg_values_supported m)
     @ string_field ''resource_name'' (md_resource_name m)
     @ string_field ''resource_documentation'' (md_resource_documentation m)
     @ string_field ''resource_policy_uri'' (md_resource_policy_uri m)
     @ string_field ''resource_tos_uri'' (md_resource_tos_uri m)
     @ bool_field ''tls_client_certificate_bound_access_tokens''
         (md_tls_client_certificate_bound_access_tokens m)
     @ strings_field ''authorization_details_types_supported''
         (md_authorization_details_types_supported m)
     @ strings_field ''dpop_signing_alg_values_supported'' (md_dpop_signing_alg_values_supported m)
     @ bool_field ''dpop_bound_access_tokens_required'' (md_dpop_bound_access_tokens_required m)
     @ string_field ''signed_metadata'' (md_signed_metadata m)"

text \<open>The loop that merges \<open>Extra\<close> into the decoded base.\<close>

definition merge_extra :: "(string \<times> json) list \<Rightarrow> (string \<times> json) list \<Rightarrow> (string \<times> json) list" where
  "merge_extra merged extra = merged @ filter (\<lambda>(k, v). k \<notin> fst ` set merged) extra"

definition marshal_metadata :: "metadata \<Rightarrow> bytes result" where
  "marshal_metadata m =
     (let base = json_print (JObj (typed_fields m)) in
      if md_extra m = [] then Inr base
      else
        (case json_parse base of
           Some (JObj merged) \<Rightarrow> Inr (json_print (JObj (sort_keys (merge_extra merged (md_extra m)))))
         | _ \<Rightarrow> Inl ''json''))"

section \<open>The handler\<close>

record handler_options =
  ho_allow_insecure_localhost :: bool
  ho_cache_control :: string
  ho_enable_cors :: bool

record metadata_handler =
  mh_body :: bytes
  mh_cache_control :: string
  mh_cors :: bool

definition default_cache_control :: string where
  "default_cache_control = ''public, max-age=3600''"

definition new_metadata_handler :: "metadata \<Rightarrow> handler_options \<Rightarrow> metadata_handler result" where
  "new_metadata_handler meta opts =
     bind_res (validate_metadata (ho_allow_insecure_localhost opts) meta) (\<lambda>_.
     bind_res (marshal_metadata meta) (\<lambda>body.
       Inr \<lparr>mh_body = body,
            mh_cache_control = (if ho_cache_control opts = [] then default_cache_control
                                else ho_cache_control opts),
            mh_cors = ho_enable_cors opts\<rparr>))"

definition set_cors_headers :: "response \<Rightarrow> response" where
  "set_cors_headers w =
     set_header ''Access-Control-Allow-Headers'' ''*''
       (set_header ''Access-Control-Allow-Methods'' ''GET, HEAD, OPTIONS''
         (set_header ''Access-Control-Allow-Origin'' ''*'' w))"

definition set_headers :: "metadata_handler \<Rightarrow> response \<Rightarrow> response" where
  "set_headers h w =
     (let w1 = set_header ''X-Content-Type-Options'' ''nosniff''
                 (set_header ''Cache-Control'' (mh_cache_control h)
                   (set_header ''Content-Type'' ''application/json'' w))
      in if mh_cors h then set_cors_headers w1 else w1)"

definition serve_metadata :: "metadata_handler \<Rightarrow> request \<Rightarrow> response \<Rightarrow> response" where
  "serve_metadata h r w =
     (if req_method r = ''GET'' then write_body (mh_body h) (write_header 200 (set_headers h w))
      else if req_method r = ''HEAD'' then write_header 200 (set_headers h w)
      else if req_method r = ''OPTIONS'' \<and> mh_cors h then write_header 204 (set_cors_headers w)
      else write_header 405 (set_header ''Allow'' ''GET, HEAD'' w))"

section \<open>Mounting on a router (adapters/chi/metadata.go)\<close>

text \<open>A chi router, as far as \<open>Mount\<close> uses it: the registered routes, the last one first.\<close>

type_synonym routes = "((string \<times> string) \<times> metadata_handler) list"

definition mount :: "metadata \<Rightarrow> handler_options \<Rightarrow> routes \<Rightarrow> unit result \<times> routes" where
  "mount meta opts rt =
     (case new_metadata_handler meta opts of
        Inl e \<Rightarrow> (Inl e, rt)
      | Inr h \<Rightarrow>
          (case metadata_path_for (md_resource meta) of
             Inl e \<Rightarrow> (Inl e, rt)
           | Inr path \<Rightarrow>
               (let rt1 = ((''HEAD'', path), h) # ((''GET'', path), h) # rt
                in (Inr (), if ho_enable_cors opts then ((''OPTIONS'', path), h) # rt1 else rt1))))"

section \<open>An example document\<close>

definition demo_metadata :: metadata where
  "demo_metadata = empty_metadata\<lparr>md_resource := ''https://h/mcp'',
     md_authorization_servers := [''https://as''], md_dpop_bound_access_tokens_required := True,
     md_extra := [(''resource'', JNull), (''x'', JArr [JNum ''1''])]\<rparr>"

definition demo_handler_options :: handler_options where
  "demo_handler_options = \<lparr>ho_allow_insecure_localhost = False, ho_cache_control = [], ho_enable_cors = True\<rparr>"

section \<open>Facts\<close>

lemma validate_servers_Inr:
  "validate_servers i ss = Inr u \<longleftrightarrow> (\<forall>s \<in> set ss. validate_issuer_url s = Inr ())"
  by (induction ss arbitrary: i) (auto split: sum.splits)

text \<open>What validation establishes of a document.\<close>

lemma validate_metadata_Inr:
  "validate_metadata allow m = Inr x \<longleftrightarrow>
     (\<exists>u. url_parse (md_resource m) = Some u \<and> md_resource m \<noteq> [] \<and> url_fragment u = []
        \<and> (url_scheme u = ''https'' \<or> url_scheme u = ''http'' \<and> allow \<and> is_localhost (url_host u)))
     \<and> (\<forall>s \<in> set (md_authorization_servers m). validate_issuer_url s = Inr ())"
  by (cases "url_parse (md_resource m)")
    (auto simp: validate_metadata_def validate_servers_Inr is_abs_def)

lemma validate_issuer_url_Inr:
  "validate_issuer_url s = Inr x \<longleftrightarrow>
     (\<exists>u. url_parse s = Some u \<and> url_scheme u = ''https'' \<and> url_raw_query u = [] \<and> url_fragment u = [])"
  by (auto simp: validate_issuer_url_def is_abs_def split: option.splits)

text \<open>Only the three loopback names are local, with or without a port or brackets.\<close>

definition metadata_keys :: "string list" where
  "metadata_keys =
     [''resource'', ''authorization_servers'', ''jwks_uri'', ''scopes_supported'',
      ''bearer_methods_supported'', ''resource_signing_alg_values_supported'', ''resource_name'',
      ''resource_documentation'', ''resource_policy_uri'', ''resource_tos_uri'',
      ''tls_client_certificate_bound_access_tokens'', ''authorization_details_types_supported'',
      ''dpop_signing_alg_values_supported'', ''dpop_bound_access_tokens_required'',
      ''signed_metadata'']"

lemma metadata_keys_distinct: "distinct metadata_keys"
  by code_simp

lemma field_keys:
  "subseq (map fst (string_field k v)) [k]" "subseq (map fst (strings_field k vs)) [k]"
  "subseq (map fst (bool_field k b)) [k]"
  by (simp_all add: string_field_def strings_field_def bool_field_def)

lemma subseq_cons_append: "subseq xs [k] \<Longrightarrow> subseq ys ks \<Longrightarrow> subseq (xs @ ys) (k # ks)"
  using list_emb_append_mono [of "(=)" xs "[k]" ys ks] by simp

lemma typed_keys: "subseq (map fst (typed_fields m)) metadata_keys"
  unfolding typed_fields_def metadata_keys_def map_append
  by (rule subseq_cons_append field_keys | simp)+

lemma typed_keys_distinct: "distinct (map fst (typed_fields m))"
  using typed_keys metadata_keys_distinct by (metis subseq_conv_nths distinct_nthsI)

lemma resource_first: "map_of (typed_fields m) ''resource'' = Some (JStr (md_resource m))"
  by (simp add: typed_fields_def)

lemma map_of_filter_absent: "map_of (filter (\<lambda>(k, v). k \<notin> A) xs) k = (if k \<in> A then None else map_of xs k)"
  by (induction xs) auto

lemma map_of_merge_extra: "map_of (merge_extra ms extra) = map_of extra ++ map_of ms"
proof
  fix k
  show "map_of (merge_extra ms extra) k = (map_of extra ++ map_of ms) k"
  proof (cases "map_of ms k")
    case None
    moreover from None have "k \<notin> fst ` set ms"
      by (simp add: map_of_eq_None_iff)
    ultimately show ?thesis
      by (simp add: merge_extra_def map_add_def map_of_filter_absent)
  next
    case (Some v)
    then show ?thesis
      by (simp add: merge_extra_def map_add_def)
  qed
qed

lemma distinct_merge_extra:
  "distinct (map fst ms) \<Longrightarrow> distinct (map fst extra) \<Longrightarrow> distinct (map fst (merge_extra ms extra))"
  by (auto simp: merge_extra_def distinct_map_filter intro: rev_image_eqI)

text \<open>The nesting of a document, member by member.\<close>

lemma canonical_headers:
  "canonical_key ''Content-Type'' = ''Content-Type''" "canonical_key ''Cache-Control'' = ''Cache-Control''"
  "canonical_key ''X-Content-Type-Options'' = ''X-Content-Type-Options''"
  "canonical_key ''Access-Control-Allow-Origin'' = ''Access-Control-Allow-Origin''"
  "canonical_key ''Access-Control-Allow-Methods'' = ''Access-Control-Allow-Methods''"
  "canonical_key ''Access-Control-Allow-Headers'' = ''Access-Control-Allow-Headers''"
  "canonical_key ''Allow'' = ''Allow''"
  by code_simp+

lemmas header_lookup = header_get_def header_values_def header_set_def canonical_headers

lemma fold_max_le: "fold max xs a \<le> b \<longleftrightarrow> a \<le> (b :: nat) \<and> (\<forall>x \<in> set xs. x \<le> b)"
  by (induction xs arbitrary: a) auto

lemma json_depth_obj: "json_depth (JObj ms) \<le> Suc d \<longleftrightarrow> (\<forall>(k, v) \<in> set ms. json_depth v \<le> d)"
  by (auto simp: fold_max_le)

lemma json_depth_strings: "json_depth (JArr (map JStr ss)) \<le> 1"
proof -
  have "fold max (map json_depth (map JStr ss)) 0 \<le> 0" unfolding fold_max_le by auto
  then show ?thesis by simp
qed

lemma typed_depth: "\<forall>(k, v) \<in> set (typed_fields m). json_depth v \<le> 1"
  using json_depth_strings
  by (simp add: typed_fields_def strings_field_def string_field_def bool_field_def ball_Un
      del: json_depth.simps(1))

lemma typed_parse:
  "json_ok (JObj (typed_fields m)) \<Longrightarrow>
     json_parse (json_print (JObj (typed_fields m))) = Some (JObj (typed_fields m))"
  by (rule json_parse_print, assumption)
    (rule order_trans [of _ "Suc 1"], unfold json_depth_obj, rule typed_depth, simp add: max_nesting_def)

text \<open>What a client reads back: the typed fields, and of \<open>Extra\<close> what they do not name.\<close>

lemma marshal_reads:
  assumes ok: "json_ok (JObj (typed_fields m))" "json_ok (JObj (md_extra m))"
    and deep: "json_depth (JObj (md_extra m)) \<le> max_nesting"
    and dist: "distinct (map fst (md_extra m))"
  obtains body ms where "marshal_metadata m = Inr body" and "json_parse body = Some (JObj ms)"
    and "distinct (map fst ms)" and "map_of ms = map_of (md_extra m) ++ map_of (typed_fields m)"
proof (cases "md_extra m = []")
  case True
  show ?thesis
    by (rule that [of "json_print (JObj (typed_fields m))" "typed_fields m"])
      (simp_all add: marshal_metadata_def True Let_def typed_parse [OF ok(1)] typed_keys_distinct
        del: json_print.simps)
next
  case False
  let ?all = "merge_extra (typed_fields m) (md_extra m)"
  have dist': "distinct (map fst ?all)" by (rule distinct_merge_extra [OF typed_keys_distinct dist])
  have set_all: "set ?all \<subseteq> set (typed_fields m) \<union> set (md_extra m)"
    by (auto simp: merge_extra_def)
  have "json_ok (JObj (sort_keys ?all))"
    using ok set_all unfolding json_ok.simps list_all_iff set_sort_keys by blast
  moreover have "json_depth (JObj (sort_keys ?all)) \<le> max_nesting"
  proof -
    obtain d where d: "max_nesting = Suc d" "1 \<le> d" by (simp add: max_nesting_def)
    have "\<forall>(k, v) \<in> set (md_extra m). json_depth v \<le> d"
      using deep unfolding d(1) json_depth_obj .
    then show ?thesis
      using typed_depth [of m] d(2) set_all unfolding d(1) json_depth_obj set_sort_keys by fastforce
  qed
  ultimately have "json_parse (json_print (JObj (sort_keys ?all))) = Some (JObj (sort_keys ?all))"
    by (rule json_parse_print)
  moreover have "marshal_metadata m = Inr (json_print (JObj (sort_keys ?all)))"
    using False by (simp only: marshal_metadata_def Let_def if_False typed_parse [OF ok(1)]
        option.case json.case)
  ultimately show ?thesis
    using that distinct_sort_keys [OF dist']
    by (metis map_of_sort_keys [OF dist'] map_of_merge_extra)
qed

lemma mount_Inr:
  assumes "mount meta opts rt = (Inr x, rt')"
  shows "\<exists>h path. new_metadata_handler meta opts = Inr h
    \<and> metadata_path_for (md_resource meta) = Inr path
    \<and> (\<forall>k. map_of rt' k = (if k \<in> {(''GET'', path), (''HEAD'', path)}
         \<or> k = (''OPTIONS'', path) \<and> ho_enable_cors opts then Some h else map_of rt k))"
proof -
  from assms obtain h path where h: "new_metadata_handler meta opts = Inr h"
    and p: "metadata_path_for (md_resource meta) = Inr path"
    by (auto simp: mount_def Let_def split: sum.splits)
  with assms have "rt' = (if ho_enable_cors opts then [((''OPTIONS'', path), h)] else [])
    @ ((''HEAD'', path), h) # ((''GET'', path), h) # rt"
    by (auto simp: mount_def Let_def)
  with h p show ?thesis by (intro exI [of _ h] exI [of _ path]) (auto simp: map_of_Cons_code)
qed

lemma plain_path_well_known:
  assumes "plain_path p"
  shows "plain_path (WellKnownSuffix @ trim_right (CHR ''/'') p)"
proof -
  have "list_all path_char WellKnownSuffix" by code_simp
  moreover have "list_all path_char (trim_right (CHR ''/'') p)"
    using assms set_dropWhileD
    by (fastforce simp: plain_path_def trim_right_def list_all_iff)
  ultimately show ?thesis by (simp add: plain_path_def WellKnownSuffix_def)
qed

text \<open>The example document is mounted, and its body can be read back.\<close>

lemma demo_metadata_ok:
  "json_ok (JObj (typed_fields demo_metadata))" "json_ok (JObj (md_extra demo_metadata))"
  "distinct (map fst (md_extra demo_metadata))" "json_depth (JObj (md_extra demo_metadata)) = 2"
  by code_simp+

lemma demo_marshals: "\<exists>body. marshal_metadata demo_metadata = Inr body"
proof -
  have "json_depth (JObj (md_extra demo_metadata)) \<le> max_nesting"
    unfolding demo_metadata_ok by (simp add: max_nesting_def)
  then show ?thesis by (rule marshal_reads [OF demo_metadata_ok(1,2) _ demo_metadata_ok(3)]) blast
qed

lemma demo_path:
  "metadata_path_for (md_resource demo_metadata) = Inr ''/.well-known/oauth-protected-resource/mcp''"
  by code_simp

lemma demo_mounts: "fst (mount demo_metadata demo_handler_options []) = Inr ()"
proof -
  have "validate_metadata False demo_metadata = Inr ()" by code_simp
  with demo_marshals demo_path show ?thesis
    by (auto simp: mount_def new_metadata_handler_def demo_handler_options_def Let_def)
qed

section \<open>Properties\<close>

text \<open>
  C13. Reading back what the handler serves gives an object with each key once: every typed field
  the document sets under its name, and an entry of \<open>Extra\<close> exactly when no typed field has its key.
\<close>

theorem metadata_roundtrip:
  assumes "json_ok (JObj (typed_fields m))" and "json_ok (JObj (md_extra m))"
    and "json_depth (JObj (md_extra m)) \<le> max_nesting" and "distinct (map fst (md_extra m))"
  shows "\<exists>body ms. marshal_metadata m = Inr body \<and> json_parse body = Some (JObj ms)
    \<and> distinct (map fst ms)
    \<and> (\<forall>k. map_of ms k = (case map_of (typed_fields m) k of
                             Some v \<Rightarrow> Some v | None \<Rightarrow> map_of (md_extra m) k))"
proof -
  obtain body ms where m: "marshal_metadata m = Inr body" "json_parse body = Some (JObj ms)"
    "distinct (map fst ms)" "map_of ms = map_of (md_extra m) ++ map_of (typed_fields m)"
    using marshal_reads [OF assms] by blast
  then show ?thesis by (intro exI [of _ body] exI [of _ ms]) (simp add: map_add_def split: option.split)
qed

lemma metadata_roundtrip_witness:
  "\<exists>body ms. marshal_metadata demo_metadata = Inr body \<and> json_parse body = Some (JObj ms)
    \<and> map_of ms ''resource'' = Some (JStr ''https://h/mcp'')
    \<and> map_of ms ''x'' = Some (JArr [JNum ''1'']) \<and> map_of ms ''jwks_uri'' = None"
proof -
  have "map_of (typed_fields demo_metadata) ''resource'' = Some (JStr ''https://h/mcp'')"
    "map_of (typed_fields demo_metadata) ''x'' = None"
    "map_of (typed_fields demo_metadata) ''jwks_uri'' = None"
    "map_of (md_extra demo_metadata) ''x'' = Some (JArr [JNum ''1''])"
    "map_of (md_extra demo_metadata) ''jwks_uri'' = None"
    by code_simp+
  then show ?thesis
    using metadata_roundtrip [OF demo_metadata_ok(1,2) _ demo_metadata_ok(3)] demo_metadata_ok(4)
    by (fastforce simp: max_nesting_def)
qed

text \<open>
  Mounting registers the handler under GET and HEAD (and OPTIONS with CORS) at the well-known
  path of a resource that is https, or http on a loopback name when that is allowed, has no
  fragment and only https issuers without query or fragment; on any error nothing is registered.
\<close>

theorem mount_validated:
  "case mount meta opts rt of
     (Inl e, rt') \<Rightarrow> rt' = rt
   | (Inr _, rt') \<Rightarrow>
       \<exists>u h path. url_parse (md_resource meta) = Some u \<and> url_fragment u = []
         \<and> (url_scheme u = ''https''
            \<or> url_scheme u = ''http'' \<and> ho_allow_insecure_localhost opts \<and> is_localhost (url_host u))
         \<and> (\<forall>s \<in> set (md_authorization_servers meta). \<exists>a. url_parse s = Some a
              \<and> url_scheme a = ''https'' \<and> url_raw_query a = [] \<and> url_fragment a = [])
         \<and> metadata_path_for (md_resource meta) = Inr path
         \<and> marshal_metadata meta = Inr (mh_body h)
         \<and> (\<forall>k. map_of rt' k = (if k \<in> {(''GET'', path), (''HEAD'', path)}
                  \<or> k = (''OPTIONS'', path) \<and> ho_enable_cors opts then Some h else map_of rt k))"
proof (cases "mount meta opts rt")
  case (Pair res rt')
  show ?thesis
  proof (cases res)
    case (Inl e)
    with Pair show ?thesis by (auto simp: mount_def Let_def split: sum.splits)
  next
    case (Inr x)
    with Pair obtain h path
      where m: "new_metadata_handler meta opts = Inr h" "metadata_path_for (md_resource meta) = Inr path"
        "\<forall>k. map_of rt' k = (if k \<in> {(''GET'', path), (''HEAD'', path)}
           \<or> k = (''OPTIONS'', path) \<and> ho_enable_cors opts then Some h else map_of rt k)"
      using mount_Inr by blast
    from m(1) obtain v where v: "validate_metadata (ho_allow_insecure_localhost opts) meta = Inr v"
      and b: "marshal_metadata meta = Inr (mh_body h)"
      by (auto simp: new_metadata_handler_def)
    from v m b Pair Inr show ?thesis
      unfolding validate_metadata_Inr validate_issuer_url_Inr by (simp, blast)
  qed
qed

lemma mount_validated_witness:
  "\<exists>h. map_of (snd (mount demo_metadata demo_handler_options []))
         (''GET'', ''/.well-known/oauth-protected-resource/mcp'') = Some h
       \<and> marshal_metadata demo_metadata = Inr (mh_body h)"
proof -
  have "fst (mount demo_metadata demo_handler_options []) = Inr ()" by (rule demo_mounts)
  then obtain rt' where m: "mount demo_metadata demo_handler_options [] = (Inr (), rt')"
    by (cases "mount demo_metadata demo_handler_options []") simp
  show ?thesis
    using mount_validated [of "[]" demo_metadata demo_handler_options] unfolding m
    by (auto simp: demo_path)
qed

text \<open>
  HEAD gives the status and headers of GET without the body; OPTIONS is answered only with
  CORS; every other method is a 405 that names the allowed ones, and sends no document.
\<close>

theorem metadata_methods:
  "(let get = serve_metadata h (r\<lparr>req_method := ''GET''\<rparr>) new_response;
        head = serve_metadata h (r\<lparr>req_method := ''HEAD''\<rparr>) new_response
    in resp_status get = Some 200 \<and> resp_body get = mh_body h
       \<and> header_get (resp_header get) ''Content-Type'' = ''application/json''
       \<and> header_get (resp_header get) ''Cache-Control'' = mh_cache_control h
       \<and> head = get\<lparr>resp_body := []\<rparr>)
   \<and> (req_method r \<notin> {''GET'', ''HEAD''} \<longrightarrow>
        (let other = serve_metadata h r new_response in
         resp_body other = []
         \<and> resp_status other = Some (if req_method r = ''OPTIONS'' \<and> mh_cors h then 204 else 405)
         \<and> (resp_status other = Some 405 \<longrightarrow> header_get (resp_header other) ''Allow'' = ''GET, HEAD'')))"
proof -
  note ser = serve_metadata_def set_headers_def set_cors_headers_def Let_def
  have "header_get (resp_header (serve_metadata h (r\<lparr>req_method := ''GET''\<rparr>) new_response)) ''Content-Type''
    = ''application/json''"
    by (simp add: ser header_lookup)
  then show ?thesis
    by (simp add: ser header_lookup write_body_after write_header_def new_response_def set_header_def)
qed

lemma metadata_methods_witness:
  "resp_status (serve_metadata \<lparr>mh_body = ''{}'', mh_cache_control = ''no-store'', mh_cors = False\<rparr>
     \<lparr>req_method = ''POST'', req_path = ''/'', req_host = ''h'', req_tls = True, req_header = no_header,
      req_remote_addr = []\<rparr> new_response) = Some 405"
  using metadata_methods [of "\<lparr>mh_body = ''{}'', mh_cache_control = ''no-store'', mh_cors = False\<rparr>"
    "\<lparr>req_method = ''POST'', req_path = ''/'', req_host = ''h'', req_tls = True, req_header = no_header,
      req_remote_addr = []\<rparr>"]
  by (simp add: Let_def)

end
