(* ===== verification/GoForm.thy ===== *)
theory GoForm
  imports GoHttp GoUrl GoJsonPrint "HOL-Library.AList"
begin

text \<open>
  Form values (\<open>url.Values\<close> of net/url), their encoding and parsing, and the part of
  \<open>Request.ParseForm\<close> of net/http the validator calls.
\<close>

section \<open>Values\<close>

text \<open>\<open>url.Values\<close>: a Go map, as the list of its entries, each key once.\<close>

type_synonym form_values = "(string \<times> string list) list"

definition values_of :: "form_values \<Rightarrow> string \<Rightarrow> string list" where
  "values_of f k = (case map_of f k of None \<Rightarrow> [] | Some xs \<Rightarrow> xs)"

definition form_get :: "form_values \<Rightarrow> string \<Rightarrow> string" where
  "form_get f k = (case values_of f k of [] \<Rightarrow> [] | x # _ \<Rightarrow> x)"

definition form_set :: "string \<Rightarrow> string \<Rightarrow> form_values \<Rightarrow> form_values" where
  "form_set k x f = AList.update k [x] f"

definition form_add :: "string \<Rightarrow> string \<Rightarrow> form_values \<Rightarrow> form_values" where
  "form_add k x f = AList.update k (values_of f k @ [x]) f"

lemma values_of_Nil [simp]: "values_of [] k = []"
  by (simp add: values_of_def)

lemma values_of_set [simp]: "values_of (form_set k x f) k' = (if k' = k then [x] else values_of f k')"
  by (simp add: values_of_def form_set_def update_conv')

lemma values_of_add [simp]:
  "values_of (form_add k x f) k' = (if k' = k then values_of f k @ [x] else values_of f k')"
  by (simp add: values_of_def form_add_def update_conv')

lemma form_get_set [simp]: "form_get (form_set k x f) k' = (if k' = k then x else form_get f k')"
  by (simp add: form_get_def)

lemma form_get_add_other [simp]: "k' \<noteq> k \<Longrightarrow> form_get (form_add k x f) k' = form_get f k'"
  by (simp add: form_get_def)

lemma form_get_Nil [simp]: "form_get [] k = []"
  by (simp add: form_get_def)

lemma distinct_form_set [simp]: "distinct (map fst f) \<Longrightarrow> distinct (map fst (form_set k x f))"
  by (simp add: form_set_def distinct_update)

lemma distinct_form_add [simp]: "distinct (map fst f) \<Longrightarrow> distinct (map fst (form_add k x f))"
  by (simp add: form_add_def distinct_update)

section \<open>Encoding\<close>

definition query_escape :: "string \<Rightarrow> string" where
  "query_escape s = escape EncQuery s"

definition query_unescape :: "string \<Rightarrow> string option" where
  "query_unescape s = unescape EncQuery s"

definition encode_pair :: "string \<times> string \<Rightarrow> string" where
  "encode_pair p = query_escape (fst p) @ ''='' @ query_escape (snd p)"

text \<open>The pairs of a form, the keys in order.\<close>

definition form_pairs :: "form_values \<Rightarrow> (string \<times> string) list" where
  "form_pairs f = concat (map (\<lambda>(k, xs). map (Pair k) xs) (sort_keys f))"

text \<open>\<open>Values.Encode\<close>\<close>

definition form_encode :: "form_values \<Rightarrow> string" where
  "form_encode f = join ''&'' (map encode_pair (form_pairs f))"

section \<open>Parsing\<close>

text \<open>\<open>strings.Cut(query, "&")\<close>, repeated until nothing is left.\<close>

function pieces :: "string \<Rightarrow> string list" where
  "pieces s =
     (case cut (CHR ''&'') s of
        None \<Rightarrow> if s = [] then [] else [s]
      | Some (p, r) \<Rightarrow> p # pieces r)"
  by auto
termination
  by (relation "measure length") (auto simp: cut_Some)

declare pieces.simps [simp del]

text \<open>
  \<open>parseQuery\<close>: whether every piece was good, and the values of the good ones. A bad piece does
  not stop the loop.
\<close>

fun parse_pieces :: "string list \<Rightarrow> form_values \<Rightarrow> bool \<times> form_values" where
  "parse_pieces [] f = (True, f)"
| "parse_pieces (p # ps) f =
     (if CHR '';'' \<in> set p then (False, snd (parse_pieces ps f))
      else if p = [] then parse_pieces ps f
      else
        (let (k, x) = (case cut (CHR ''='') p of None \<Rightarrow> (p, []) | Some kx \<Rightarrow> kx) in
         (case (query_unescape k, query_unescape x) of
            (Some k', Some x') \<Rightarrow> parse_pieces ps (form_add k' x' f)
          | _ \<Rightarrow> (False, snd (parse_pieces ps f)))))"

definition parse_query :: "string \<Rightarrow> bool \<times> form_values" where
  "parse_query s = parse_pieces (pieces s) []"

section \<open>Request.ParseForm\<close>

text \<open>
  The parts of a request that \<open>ParseForm\<close> reads beside its method: the raw query, what
  \<open>mime.ParseMediaType\<close> makes of its Content-Type (the media type, and whether it parsed), and
  what reading its body gives.
\<close>

record form_request = request +
  fr_raw_query :: string
  fr_media :: "string \<times> bool"
  fr_body :: "bytes result"

definition max_form_size :: nat where "max_form_size = 10485760"

definition form_media_type :: string where
  "form_media_type = ''application/x-www-form-urlencoded''"

definition parse_post_form :: "form_request \<Rightarrow> bool \<times> form_values" where
  "parse_post_form r =
     (let (ct, ok) = fr_media r in
      if ct = form_media_type then
        (case fr_body r of
           Inl _ \<Rightarrow> (False, [])
         | Inr b \<Rightarrow>
             if max_form_size < length b then (False, [])
             else (let (ok', f) = parse_query b in (ok \<and> ok', f)))
      else (ok, []))"

text \<open>\<open>ParseForm\<close>: whether it returns no error, and \<open>r.PostForm\<close>.\<close>

definition parse_form :: "form_request \<Rightarrow> bool \<times> form_values" where
  "parse_form r =
     (let (ok, f) = (if req_method r \<in> {''POST'', ''PUT'', ''PATCH''} then parse_post_form r
                     else (True, []))
      in (ok \<and> fst (parse_query (fr_raw_query r)), f))"

section \<open>A form that was encoded is read back\<close>

lemma upper_hex_unhex:
  assumes "d < 16"
  shows "is_hex (upper_hex d) \<and> unhex (upper_hex d) = d"
  using assms by (cases "d < 10") (simp_all add: upper_hex_def is_hex_def unhex_def)

lemma hex_digits_lt: "byte c div 16 < 16 \<and> byte c mod 16 < 16"
proof -
  have "byte c < 16 * 16" using nat_of_char_less_256 [of c] by simp
  then show ?thesis by (simp add: less_mult_imp_div_less)
qed

lemma plain_query_char: "\<not> should_escape EncQuery c \<Longrightarrow> c \<notin> set ''%+&=; ''"
proof -
  have "\<forall>d \<in> set ''%+&=; ''. should_escape EncQuery d" by code_simp
  then show "\<not> should_escape EncQuery c \<Longrightarrow> c \<notin> set ''%+&=; ''" by blast
qed

lemma query_unescape_escape: "query_unescape (query_escape s) = Some s"
  unfolding query_escape_def query_unescape_def
proof (induction s)
  case (Cons c s)
  show ?case
  proof (cases "should_escape EncQuery c \<and> c \<noteq> CHR '' ''")
    case True
    have "char_of (byte c div 16 * 16 + byte c mod 16) = c" by simp
    then show ?thesis
      using True Cons.IH by (simp add: upper_hex_unhex hex_digits_lt escape_ok_def)
  next
    case False
    with Cons.IH plain_query_char [of c] show ?thesis by (cases "c = CHR '' ''") simp_all
  qed
qed simp

lemma upper_hex_not: "d < 16 \<Longrightarrow> upper_hex d \<notin> set ''&=;''"
  using upper_hex_unhex [of d] by (auto simp: is_hex_def)

lemma query_escape_not: "c \<in> set ''&=;'' \<Longrightarrow> c \<notin> set (query_escape s)"
  unfolding query_escape_def
proof (induction s)
  case (Cons d s)
  have "upper_hex (byte d div 16) \<noteq> c" "upper_hex (byte d mod 16) \<noteq> c"
    using upper_hex_not hex_digits_lt [of d] Cons.prems by blast+
  with Cons plain_query_char [of d] show ?case by auto
qed simp

lemma pieces_join:
  assumes "\<forall>x \<in> set xs. CHR ''&'' \<notin> set x \<and> x \<noteq> []"
  shows "pieces (join ''&'' xs) = xs"
  using assms
proof (induction "''&''" xs rule: join.induct)
  case 1
  then show ?case by (simp add: pieces.simps)
next
  case (2 x)
  then have "cut (CHR ''&'') x = None" by (simp add: cut_None)
  with 2 show ?case by (simp add: pieces.simps)
next
  case (3 x y zs)
  then have "cut (CHR ''&'') (x @ CHR ''&'' # join ''&'' (y # zs)) = Some (x, join ''&'' (y # zs))"
    by simp
  with 3 show ?case by (subst pieces.simps) simp
qed

lemma parse_pieces_encoded:
  "parse_pieces (map encode_pair ps) f = (True, fold (\<lambda>(k, x). form_add k x) ps f)"
proof (induction ps arbitrary: f)
  case (Cons p ps)
  have "CHR '';'' \<notin> set (encode_pair p)"
    using query_escape_not [of "CHR '';''"] by (simp add: encode_pair_def)
  moreover have "cut (CHR ''='') (encode_pair p) = Some (query_escape (fst p), query_escape (snd p))"
    using query_escape_not [of "CHR ''=''"] by (simp add: encode_pair_def)
  moreover have "encode_pair p \<noteq> []" by (simp add: encode_pair_def)
  ultimately show ?case
    using Cons by (simp add: query_unescape_escape case_prod_beta)
qed simp

lemma values_of_fold:
  "values_of (fold (\<lambda>(k, x). form_add k x) ps f) k
    = values_of f k @ map snd (filter (\<lambda>p. fst p = k) ps)"
  by (induction ps arbitrary: f) auto

lemma values_of_pairs:
  "distinct (map fst f) \<Longrightarrow>
     map snd (filter (\<lambda>p. fst p = k) (concat (map (\<lambda>(k, xs). map (Pair k) xs) f))) = values_of f k"
proof (induction f)
  case (Cons p f)
  obtain k' xs where p: "p = (k', xs)" by (cases p)
  have "k' = k \<Longrightarrow> values_of f k = []"
    using Cons.prems p by (auto simp: values_of_def map_of_eq_None_iff split: option.splits dest: map_of_SomeD intro: rev_image_eqI)
  with Cons p show ?case by (auto simp: values_of_def filter_map comp_def)
qed simp

theorem form_roundtrip:
  assumes "distinct (map fst f)"
  shows "\<exists>g. parse_query (form_encode f) = (True, g) \<and> (\<forall>k. values_of g k = values_of f k)"
proof -
  have "\<forall>x \<in> set (map encode_pair (form_pairs f)). CHR ''&'' \<notin> set x \<and> x \<noteq> []"
    using query_escape_not [of "CHR ''&''"] by (auto simp: encode_pair_def)
  then have "parse_query (form_encode f)
    = (True, fold (\<lambda>(k, x). form_add k x) (form_pairs f) [])"
    by (simp add: parse_query_def form_encode_def pieces_join parse_pieces_encoded)
  moreover have "values_of (fold (\<lambda>(k, x). form_add k x) (form_pairs f) []) k = values_of f k" for k
    unfolding values_of_fold form_pairs_def values_of_pairs [OF distinct_sort_keys [OF assms]]
    by (simp add: values_of_def map_of_sort_keys [OF assms])
  ultimately show ?thesis by blast
qed

end
