(* ===== verification/ExchangeTypes.thy ===== *)
theory ExchangeTypes
  imports GoForm
begin

text \<open>
  What the two sides of an RFC 8693 token exchange share: the token types (exchange_types.go) and
  the error of a token endpoint with its JSON form (exchange_errors.go).
\<close>

section \<open>Token types\<close>

definition TokenTypeAccessToken :: string where
  "TokenTypeAccessToken = ''urn:ietf:params:oauth:token-type:access_token''"
definition TokenTypeRefreshToken :: string where
  "TokenTypeRefreshToken = ''urn:ietf:params:oauth:token-type:refresh_token''"
definition TokenTypeIDToken :: string where
  "TokenTypeIDToken = ''urn:ietf:params:oauth:token-type:id_token''"
definition TokenTypeJWT :: string where
  "TokenTypeJWT = ''urn:ietf:params:oauth:token-type:jwt''"
definition TokenTypeSAML1 :: string where
  "TokenTypeSAML1 = ''urn:ietf:params:oauth:token-type:saml1''"
definition TokenTypeSAML2 :: string where
  "TokenTypeSAML2 = ''urn:ietf:params:oauth:token-type:saml2''"

definition or_default :: "string \<Rightarrow> string" where
  "or_default t = (if t = [] then TokenTypeAccessToken else t)"

definition grant_type_token_exchange :: string where
  "grant_type_token_exchange = ''urn:ietf:params:oauth:grant-type:token-exchange''"

section \<open>Errors\<close>

text \<open>\<open>ExchangeError\<close>. The status 0 stands for: derive it from the code.\<close>

record exchange_error =
  xe_code :: string
  xe_description :: string
  xe_uri :: string
  xe_http_status :: int

definition exchange_error_of :: "string \<Rightarrow> string \<Rightarrow> exchange_error" where
  "exchange_error_of code desc =
     \<lparr>xe_code = code, xe_description = desc, xe_uri = [], xe_http_status = 0\<rparr>"

lemma exchange_error_of_sel [simp]:
  "xe_code (exchange_error_of c d) = c" "xe_description (exchange_error_of c d) = d"
  by (simp_all add: exchange_error_of_def)

text \<open>The dynamic type of the \<open>error\<close> of an exchange: an \<open>*ExchangeError\<close>, or another with its text.\<close>

datatype exchange_failure = ExchangeFailure exchange_error | PlainFailure string

definition exchange_error_text :: "exchange_error \<Rightarrow> string" where
  "exchange_error_text e =
     (if xe_description e = [] then ''aoa: token exchange error: '' @ xe_code e
      else ''aoa: token exchange error: '' @ xe_code e @ '': '' @ xe_description e)"

fun failure_text :: "exchange_failure \<Rightarrow> string" where
  "failure_text (ExchangeFailure e) = exchange_error_text e"
| "failure_text (PlainFailure s) = s"

definition exchange_error_status :: "string \<Rightarrow> int" where
  "exchange_error_status code = (if code = ''invalid_client'' then 401 else 400)"

record error_body =
  eb_error :: string
  eb_description :: string
  eb_uri :: string

definition zero_error_body :: error_body where
  "zero_error_body = \<lparr>eb_error = [], eb_description = [], eb_uri = []\<rparr>"

definition dec_error_body :: "string \<Rightarrow> json \<Rightarrow> error_body \<Rightarrow> error_body option" where
  "dec_error_body k v b =
     (if key_is ''error'' k then map_option (\<lambda>s. b\<lparr>eb_error := s\<rparr>) (dec_string v (eb_error b))
      else if key_is ''error_description'' k
      then map_option (\<lambda>s. b\<lparr>eb_description := s\<rparr>) (dec_string v (eb_description b))
      else if key_is ''error_uri'' k then map_option (\<lambda>s. b\<lparr>eb_uri := s\<rparr>) (dec_string v (eb_uri b))
      else Some b)"

definition parse_exchange_error :: "int \<Rightarrow> bytes \<Rightarrow> exchange_error" where
  "parse_exchange_error status body =
     (let unparseable = \<lparr>xe_code = ''invalid_request'', xe_description = ''unparseable error response'',
            xe_uri = [], xe_http_status = status\<rparr>
      in case unmarshal dec_error_body zero_error_body body of
           None \<Rightarrow> unparseable
         | Some p \<Rightarrow>
             if eb_error p = [] then unparseable
             else \<lparr>xe_code = eb_error p, xe_description = eb_description p, xe_uri = eb_uri p,
                    xe_http_status = status\<rparr>)"

text \<open>
  \<open>json.NewEncoder(w).Encode(v)\<close>: the JSON text and a newline. The first \<open>WriteHeader\<close> panics on a
  status outside 100 to 999: \<open>None\<close>.
\<close>

definition json_line :: "json \<Rightarrow> string" where
  "json_line v = json_print v @ [CHR 0x0A]"

definition write_status :: "int \<Rightarrow> response \<Rightarrow> response option" where
  "write_status s w =
     (if resp_status w = None \<and> (s < 100 \<or> 999 < s) then None else Some (write_header (nat s) w))"

text \<open>\<open>Content-Type: application/json\<close> and \<open>Cache-Control: no-store\<close>\<close>

definition no_store_json :: "response \<Rightarrow> response" where
  "no_store_json w = set_header ''Cache-Control'' ''no-store'' (set_header ''Content-Type'' ''application/json'' w)"

definition exchange_error_members :: "exchange_error \<Rightarrow> (string \<times> json) list" where
  "exchange_error_members e =
     [(''error'', JStr (xe_code e))]
     @ (if xe_description e = [] then [] else [(''error_description'', JStr (xe_description e))])
     @ (if xe_uri e = [] then [] else [(''error_uri'', JStr (xe_uri e))])"

definition write_exchange_error :: "exchange_failure \<Rightarrow> response \<Rightarrow> response option" where
  "write_exchange_error err w =
     (let ee = (case err of
                  ExchangeFailure e \<Rightarrow> e
                | PlainFailure _ \<Rightarrow> \<lparr>xe_code = ''server_error'', xe_description = [], xe_uri = [],
                                     xe_http_status = 500\<rparr>);
          status = (if xe_http_status ee = 0 then exchange_error_status (xe_code ee)
                    else xe_http_status ee)
      in map_option
           (write_body (json_line (JObj (sort_keys (exchange_error_members ee)))))
           (write_status status (no_store_json w)))"

section \<open>Facts\<close>

lemma json_parse_line:
  assumes "json_ok v" and "json_depth v \<le> max_nesting"
  shows "json_parse (json_line v) = Some v"
proof -
  obtain N where N: "\<And>n t. N \<le> n \<Longrightarrow> delim t \<Longrightarrow> json_value n 0 (json_print v @ t) = Some (v, t)"
    using readsE [OF reads_value [of v 0]] assms by auto
  let ?n = "max N (2 * length (json_line v) + 2)"
  have "json_value ?n 0 (json_line v) = Some (v, [CHR 0x0A])"
    using N [of ?n "[CHR 0x0A]"] by (simp add: json_line_def)
  with json_parse_fuel [of "json_line v" ?n] show ?thesis by (simp add: skip_ws_def is_ws_def)
qed

lemma error_keys:
  "key_is ''error'' ''error''" "\<not> key_is ''error'' ''error_description''" "\<not> key_is ''error'' ''error_uri''"
  "key_is ''error_description'' ''error_description''" "\<not> key_is ''error_description'' ''error_uri''"
  "key_is ''error_uri'' ''error_uri''"
  by code_simp+

lemma error_members_sorted: "sort_keys (exchange_error_members e) = exchange_error_members e"
proof -
  have "\<not> bytes_less ''error_description'' ''error''" "\<not> bytes_less ''error_uri'' ''error''"
    "\<not> bytes_less ''error_uri'' ''error_description''"
    "bytes_less ''error'' ''error_description''" "bytes_less ''error'' ''error_uri''"
    "bytes_less ''error_description'' ''error_uri''"
    by code_simp+
  then show ?thesis by (simp add: exchange_error_members_def sort_keys_def)
qed

lemma decode_error_members:
  "dec_fields dec_error_body (exchange_error_members e) zero_error_body
    = Some \<lparr>eb_error = xe_code e, eb_description = xe_description e, eb_uri = xe_uri e\<rparr>"
  by (simp add: exchange_error_members_def dec_error_body_def error_keys zero_error_body_def)

definition utf8_error :: "exchange_error \<Rightarrow> bool" where
  "utf8_error e \<longleftrightarrow> utf8 (xe_code e) \<and> utf8 (xe_description e) \<and> utf8 (xe_uri e)"

lemma error_members_ok:
  assumes "utf8_error e"
  shows "json_ok (JObj (exchange_error_members e))"
    and "json_depth (JObj (exchange_error_members e)) \<le> max_nesting"
proof -
  have "utf8 ''error''" "utf8 ''error_description''" "utf8 ''error_uri''" by code_simp+
  with assms show "json_ok (JObj (exchange_error_members e))"
    by (simp add: utf8_error_def exchange_error_members_def)
  show "json_depth (JObj (exchange_error_members e)) \<le> max_nesting"
    by (simp add: exchange_error_members_def max_nesting_def)
qed

lemma parse_error_body:
  assumes "utf8_error e" and "xe_code e \<noteq> []"
  shows "parse_exchange_error s (json_line (JObj (sort_keys (exchange_error_members e))))
    = e\<lparr>xe_http_status := s\<rparr>"
  using json_parse_line [OF error_members_ok [OF assms(1)]] assms(2)
  by (simp add: parse_exchange_error_def unmarshal_def error_members_sorted decode_error_members)

section \<open>Properties\<close>

text \<open>
  C17. A token-endpoint error that is written with a status that allows a body is read back by
  \<open>parseExchangeError\<close>, which the client calls for a status outside 2xx and 3xx, as the same error, with
  the status it was sent with: the error's own, or the one its code stands for. With any other status that \<open>net/http\<close> accepts the error is lost: under 101, 204 and
  304 the body stays empty and reads back as no error of the server, and another status below 200 is
  only an interim response, so that the client sees 200. An error of any other type is sent as a bare
  500 server_error, the same for every text.
\<close>

theorem exchange_error_roundtrip:
  assumes "utf8_error e" and "xe_code e \<noteq> []"
    and "s = (if xe_http_status e = 0 then exchange_error_status (xe_code e) else xe_http_status e)"
    and "write_exchange_error (ExchangeFailure e) new_response = Some rsp"
  shows "(if body_allowed (nat s)
      then resp_status rsp = Some (nat s) \<and> parse_exchange_error s (resp_body rsp) = e\<lparr>xe_http_status := s\<rparr>
      else if informational (nat s) then resp_status rsp = Some 200
      else resp_status rsp = Some (nat s) \<and> resp_body rsp = []
        \<and> xe_description (parse_exchange_error s (resp_body rsp)) = ''unparseable error response'')
    \<and> (\<exists>rsp0. resp_status rsp0 = Some 500
         \<and> xe_code (parse_exchange_error 500 (resp_body rsp0)) = ''server_error''
         \<and> (\<forall>t. write_exchange_error (PlainFailure t) new_response = Some rsp0))"
proof -
  let ?body = "\<lambda>e. json_line (JObj (sort_keys (exchange_error_members e)))"
  let ?plain = "\<lparr>xe_code = ''server_error'', xe_description = [], xe_uri = [], xe_http_status = 500\<rparr>"
  have none: "resp_status (no_store_json new_response) = None" "resp_body (no_store_json new_response) = []"
    by (simp_all add: no_store_json_def new_response_def)
  have w: "rsp = write_body (?body e) (write_header (nat s) (no_store_json new_response))"
    using assms(3,4) by (auto simp: write_exchange_error_def write_status_def Let_def split: if_splits)
  have sent: "if body_allowed (nat s)
      then resp_status rsp = Some (nat s) \<and> resp_body rsp = ?body e
      else if informational (nat s) then resp_status rsp = Some 200
      else resp_status rsp = Some (nat s) \<and> resp_body rsp = []"
    unfolding w by (simp add: none informational_not)
  have empty: "parse_exchange_error s [] = \<lparr>xe_code = ''invalid_request'',
      xe_description = ''unparseable error response'', xe_uri = [], xe_http_status = s\<rparr>" for s
  proof -
    have "json_parse [] = None" by code_simp
    then show ?thesis by (simp add: parse_exchange_error_def unmarshal_def)
  qed
  have "utf8_error ?plain" by code_simp
  then have "parse_exchange_error 500 (?body ?plain) = ?plain" by (simp add: parse_error_body)
  then have "\<exists>rsp0. resp_status rsp0 = Some 500
      \<and> xe_code (parse_exchange_error 500 (resp_body rsp0)) = ''server_error''
      \<and> (\<forall>t. write_exchange_error (PlainFailure t) new_response = Some rsp0)"
    by (simp add: write_exchange_error_def write_status_def none body_allowed_def)
  then show ?thesis
    using sent parse_error_body [OF assms(1,2), of s] empty by (simp split: if_splits)
qed

theorem exchange_error_roundtrip_witness:
  "\<exists>rsp. write_exchange_error (ExchangeFailure (exchange_error_of ''invalid_client'' ''who'')) new_response = Some rsp
     \<and> resp_status rsp = Some 401
     \<and> parse_exchange_error 401 (resp_body rsp) = (exchange_error_of ''invalid_client'' ''who'')\<lparr>xe_http_status := 401\<rparr>"
proof -
  let ?e = "exchange_error_of ''invalid_client'' ''who''"
  have "utf8_error ?e" by code_simp
  moreover obtain rsp where w: "write_exchange_error (ExchangeFailure ?e) new_response = Some rsp"
    by (simp add: write_exchange_error_def write_status_def exchange_error_of_def exchange_error_status_def)
  ultimately have "resp_status rsp = Some 401 \<and> parse_exchange_error 401 (resp_body rsp) = ?e\<lparr>xe_http_status := 401\<rparr>"
    using exchange_error_roundtrip [OF _ _ _ w, of 401]
    by (simp add: exchange_error_of_def exchange_error_status_def body_allowed_def)
  with w show ?thesis by blast
qed

end
