(* ===== verification/GoUrlPrint.thy ===== *)
theory GoUrlPrint
  imports Resource
begin

text \<open>\<open>URL.String\<close> of net/url, and what \<open>http.NewRequest\<close> does to the host of a URL.\<close>

section \<open>String\<close>

definition valid_encoded :: "string \<Rightarrow> encoding \<Rightarrow> bool" where
  "valid_encoded s mode \<longleftrightarrow>
     (\<forall>c \<in> set s. c \<in> set ''!$&()*+,;=:@[]%'' \<or> c = CHR 0x27 \<or> \<not> should_escape mode c)"

text \<open>\<open>EscapedPath\<close>, and \<open>EscapedFragment\<close>, which has no special case for a star.\<close>

definition escaped_path :: "url \<Rightarrow> string" where
  "escaped_path u =
     (if url_raw_path u \<noteq> [] \<and> valid_encoded (url_raw_path u) EncPath
         \<and> unescape EncPath (url_raw_path u) = Some (url_path u) then url_raw_path u
      else if url_path u = ''*'' then ''*''
      else escape EncPath (url_path u))"

definition escaped_fragment :: "url \<Rightarrow> string" where
  "escaped_fragment u =
     (if url_raw_fragment u \<noteq> [] \<and> valid_encoded (url_raw_fragment u) EncFragment
         \<and> unescape EncFragment (url_raw_fragment u) = Some (url_fragment u) then url_raw_fragment u
      else escape EncFragment (url_fragment u))"

definition userinfo_string :: "string \<times> string option \<Rightarrow> string" where
  "userinfo_string ui =
     escape EncUserPassword (fst ui)
     @ (case snd ui of None \<Rightarrow> [] | Some p \<Rightarrow> '':'' @ escape EncUserPassword p)"

definition authority_string :: "url \<Rightarrow> string" where
  "authority_string u =
     (if url_scheme u = [] \<and> url_host u = [] \<and> url_user u = None then []
      else if url_omit_host u \<and> url_host u = [] \<and> url_user u = None then []
      else (if url_host u \<noteq> [] \<or> url_path u \<noteq> [] \<or> url_user u \<noteq> None then ''//'' else [])
           @ (case url_user u of None \<Rightarrow> [] | Some ui \<Rightarrow> userinfo_string ui @ ''@'')
           @ escape EncHost (url_host u))"

definition url_string :: "url \<Rightarrow> string" where
  "url_string u =
     (let sch = (if url_scheme u \<noteq> [] then url_scheme u @ '':'' else []);
          body = (if url_opaque u \<noteq> [] then sch @ url_opaque u
                  else
                    (let a = sch @ authority_string u; p = escaped_path u;
                         b = a @ (if p \<noteq> [] \<and> hd p \<noteq> CHR ''/'' \<and> url_host u \<noteq> [] then ''/'' else []);
                         c = b @ (if b = [] \<and> CHR '':'' \<in> set (first_segment p) then ''./'' else [])
                     in c @ p))
      in body
         @ (if url_force_query u \<or> url_raw_query u \<noteq> [] then ''?'' @ url_raw_query u else [])
         @ (if url_fragment u \<noteq> [] then ''#'' @ escaped_fragment u else []))"

text \<open>\<open>removeEmptyPort\<close>: a colon after the last bracket is the start of a port.\<close>

definition remove_empty_port :: "string \<Rightarrow> string" where
  "remove_empty_port h =
     (case cut_last (CHR '':'') h of
        None \<Rightarrow> h
      | Some (_, port) \<Rightarrow> if CHR '']'' \<in> set port then h else trim_suffix '':'' h)"

section \<open>Plain URIs\<close>

lemma escape_host_plain: "list_all host_char h \<Longrightarrow> escape EncHost h = h"
  by (induction h) (auto simp: host_char_def should_escape_def)

lemma url_string_plain:
  assumes "plain_scheme s" and "plain_host h" and "plain_path p"
  shows "url_string (empty_url\<lparr>url_scheme := s, url_host := h, url_path := p\<rparr>) = s @ ''://'' @ h @ p"
proof -
  have h: "h \<noteq> []" "escape EncHost h = h"
    using assms(2) by (simp_all add: plain_host_def escape_host_plain)
  have p: "escape EncPath p = p" "p \<noteq> ''*''" "p = [] \<or> hd p = CHR ''/''"
    using assms(3) by (auto simp: plain_path_def escape_path prefix_def)
  have s: "s \<noteq> []" using assms(1) by (simp add: plain_scheme_def)
  show ?thesis
    using h p s
    by (auto simp: url_string_def authority_string_def escaped_path_def empty_url_def Let_def)
qed

lemma remove_empty_port_plain:
  assumes "plain_host h"
  shows "remove_empty_port h = h"
proof -
  have "CHR '':'' \<notin> set h" using plain_host_not [OF assms] by auto
  then show ?thesis by (simp add: remove_empty_port_def cut_last_None)
qed

end
