(* ===== verification/ExchangeClient.thy ===== *)
theory ExchangeClient
  imports ExchangeTypes GoUrlPrint Jose GoCodec
begin

text \<open>
  The client side of an RFC 8693 token exchange: the DPoP key and its proofs (exchange_dpop.go),
  client authentication (exchange_client_auth.go), discovery of the token endpoint
  (exchange_discovery.go) and the exchange itself (exchange.go).
\<close>

section \<open>The world of the client\<close>

text \<open>
  An HTTP request the client sends, and what \<open>client.Do\<close> brings back. The HTTP client is the
  caller's or the default one; either way it is a function of the request and of the state \<open>'p\<close> of
  the other side.
\<close>

record http_request =
  hr_method :: string
  hr_url :: url
  hr_header :: header
  hr_body :: bytes

record http_response =
  hs_status :: nat
  hs_header :: header
  hs_body :: "bytes result"

type_synonym 'p http_client = "http_request \<Rightarrow> 'p \<Rightarrow> http_response result \<times> 'p"

text \<open>
  The clock and the audit log as in the world of the middleware; the readings of \<open>crypto/rand\<close>; the
  discovery cache; and the other side.
\<close>

record 'p client_world =
  cw_clock :: "nat \<Rightarrow> instant"
  cw_tick :: nat
  cw_rand :: "nat \<Rightarrow> bytes"
  cw_rands :: nat
  cw_audit :: "event list"
  cw_cache :: "(string \<times> string) list"
  cw_peer :: 'p

definition client_now :: "'p client_world \<Rightarrow> instant \<times> 'p client_world" where
  "client_now w = (cw_clock w (cw_tick w), w\<lparr>cw_tick := Suc (cw_tick w)\<rparr>)"

definition random_id :: "'p client_world \<Rightarrow> string \<times> 'p client_world" where
  "random_id w = (b64_encode (cw_rand w (cw_rands w)), w\<lparr>cw_rands := Suc (cw_rands w)\<rparr>)"

definition client_send ::
  "'p http_client \<Rightarrow> http_request \<Rightarrow> 'p client_world \<Rightarrow> http_response result \<times> 'p client_world" where
  "client_send client req w = (let (r, p) = client req (cw_peer w) in (r, w\<lparr>cw_peer := p\<rparr>))"

text \<open>\<open>http.NewRequest\<close> with a method and a URL, and no body.\<close>

definition new_request :: "('k, 's) jose \<Rightarrow> string \<Rightarrow> string \<Rightarrow> http_request result" where
  "new_request J meth raw =
     (case url_parse raw of
        None \<Rightarrow> Inl (''parse '' @ quote (uprint J) raw)
      | Some u \<Rightarrow>
          Inr \<lparr>hr_method = meth, hr_url = u\<lparr>url_host := remove_empty_port (url_host u)\<rparr>,
               hr_header = no_header, hr_body = []\<rparr>)"

section \<open>Keys (exchange_client_auth.go, exchange_dpop.go)\<close>

text \<open>
  The crypto and JOSE functions the client calls beside those of \<open>jose\<close>: PEM and x509 parsing,
  the key type of a private key, and signing. \<open>'r\<close> is a parsed raw key. A key of type EC is an
  \<open>ECDSAPrivateKey\<close> with a curve, or it is not one.
\<close>

datatype key_type = KeyEC "string option" | KeyRSA | KeyOKP | KeyOther string

record assertion =
  as_issuer :: string
  as_subject :: string
  as_audience :: "string list"
  as_issued_at :: instant
  as_expiration :: instant
  as_jti :: string

record ('k, 'r) signing_lib =
  sl_pem_decode :: "bytes \<Rightarrow> bytes option"
  sl_pkcs8 :: "bytes \<Rightarrow> 'r option"
  sl_pkcs1 :: "bytes \<Rightarrow> 'r option"
  sl_ec :: "bytes \<Rightarrow> 'r option"
  sl_import :: "'r \<Rightarrow> 'k result"
  sl_parse_key :: "bytes \<Rightarrow> 'k result"
  sl_public_of :: "'k \<Rightarrow> 'k result"
  sl_key_type :: "'k \<Rightarrow> key_type"
  sl_jws_sign :: "bytes \<Rightarrow> string \<Rightarrow> 'k \<Rightarrow> string \<Rightarrow> 'k \<Rightarrow> bytes result"
  sl_jwt_build :: "assertion \<Rightarrow> unit result"
  sl_jwt_sign :: "assertion \<Rightarrow> string \<Rightarrow> 'k \<Rightarrow> bytes result"

definition parse_pem_key :: "('k, 'r) signing_lib \<Rightarrow> bytes \<Rightarrow> 'r result" where
  "parse_pem_key L b =
     (case sl_pkcs8 L b of
        Some k \<Rightarrow> Inr k
      | None \<Rightarrow>
          (case sl_pkcs1 L b of
             Some k \<Rightarrow> Inr k
           | None \<Rightarrow>
               (case sl_ec L b of
                  Some k \<Rightarrow> Inr k
                | None \<Rightarrow> Inl ''aoa: unsupported PEM private key format'')))"

definition parse_private_key :: "('k, 'r) signing_lib \<Rightarrow> bytes \<Rightarrow> 'k result" where
  "parse_private_key L b =
     (case sl_pem_decode L b of
        Some block \<Rightarrow>
          bind_res (parse_pem_key L block) (\<lambda>raw. wrap_err ''aoa: import key'' (sl_import L raw))
      | None \<Rightarrow> wrap_err ''aoa: parse private key (want PEM or JWK)'' (sl_parse_key L b))"

definition dpop_alg_for_key :: "('k, 's) jose \<Rightarrow> ('k, 'r) signing_lib \<Rightarrow> 'k \<Rightarrow> string result" where
  "dpop_alg_for_key J L k =
     (case sl_key_type L k of
        KeyEC None \<Rightarrow> Inl ''aoa: unexpected EC key type''
      | KeyEC (Some crv) \<Rightarrow>
          if crv \<noteq> ''P-256''
          then Inl (''aoa: DPoP EC key must use curve P-256 (ES256), got '' @ crv)
          else Inr ''ES256''
      | KeyRSA \<Rightarrow> Inr ''RS256''
      | KeyOKP \<Rightarrow> Inr ''EdDSA''
      | KeyOther t \<Rightarrow> Inl (''aoa: unsupported DPoP key type '' @ quote (uprint J) t))"

text \<open>\<open>DPoPKey\<close>; the zero value, which has no private key, is \<open>None\<close> wherever one is expected.\<close>

record 'k dpop_key =
  dk_private :: 'k
  dk_public :: 'k
  dk_alg :: string
  dk_jkt :: string

definition new_dpop_key :: "('k, 's) jose \<Rightarrow> ('k, 'r) signing_lib \<Rightarrow> bytes \<Rightarrow> 'k dpop_key result" where
  "new_dpop_key J L key =
     bind_res (parse_private_key L key) (\<lambda>priv.
     bind_res (wrap_err ''aoa: derive public key'' (sl_public_of L priv)) (\<lambda>pub.
     bind_res (dpop_alg_for_key J L priv) (\<lambda>alg.
     bind_res (wrap_err ''aoa: thumbprint'' (jwk_thumbprint J pub)) (\<lambda>tp.
       Inr \<lparr>dk_private = priv, dk_public = pub, dk_alg = alg, dk_jkt = b64_encode tp\<rparr>))))"

text \<open>The payload of a proof, its keys in the order \<open>encoding/json\<close> gives a map.\<close>

definition proof_members :: "string \<Rightarrow> string \<Rightarrow> string \<Rightarrow> int \<Rightarrow> string \<Rightarrow> (string \<times> json) list" where
  "proof_members jti htm htu iat nonce =
     [(''htm'', JStr htm), (''htu'', JStr htu), (''iat'', JNum (format_int iat)), (''jti'', JStr jti)]
     @ (if nonce \<noteq> [] then [(''nonce'', JStr nonce)] else [])"

definition proof_for ::
  "('k, 'r) signing_lib \<Rightarrow> 'k dpop_key \<Rightarrow> string \<Rightarrow> string \<Rightarrow> string \<Rightarrow> 'p client_world
     \<Rightarrow> bytes result \<times> 'p client_world" where
  "proof_for L k htm htu nonce w =
     (let (jti, w1) = random_id w; (t, w2) = client_now w1;
          body = json_print (JObj (proof_members jti htm htu (unix_seconds t) nonce))
      in (wrap_err ''aoa: sign proof''
            (sl_jws_sign L body (dk_alg k) (dk_private k) ''dpop+jwt'' (dk_public k)), w2))"

section \<open>Client authentication (exchange_client_auth.go)\<close>

datatype 'k client_auth =
  SecretAuth (ca_id: string) (ca_secret: string) (ca_post: bool)
| PrivateKeyJWT (ca_id: string) (ca_key: 'k) (ca_alg: string)

definition private_key_jwt_auth ::
  "('k, 's) jose \<Rightarrow> ('k, 'r) signing_lib \<Rightarrow> string \<Rightarrow> bytes \<Rightarrow> string \<Rightarrow> 'k client_auth result" where
  "private_key_jwt_auth J L client_id key alg =
     (case jwa_lookup J alg of
        None \<Rightarrow> Inl (''aoa: unknown algorithm '' @ quote (uprint J) alg)
      | Some symm \<Rightarrow>
          if alg = ''none'' \<or> symm
          then Inl (''aoa: algorithm '' @ quote (uprint J) alg
                 @ '' not allowed for private_key_jwt (asymmetric only)'')
          else bind_res (parse_private_key L key) (\<lambda>k. Inr (PrivateKeyJWT client_id k alg)))"

text \<open>\<open>base64.StdEncoding\<close>: the other two characters for 62 and 63, and padding.\<close>

definition b64_std :: "bytes \<Rightarrow> string" where
  "b64_std s =
     (let e = map (\<lambda>c. if c = CHR ''-'' then CHR ''+'' else if c = CHR ''_'' then CHR ''/'' else c)
                (b64_encode s)
      in e @ replicate ((4 - length e mod 4) mod 4) (CHR ''=''))"

text \<open>\<open>SetBasicAuth\<close>\<close>

definition basic_auth :: "string \<Rightarrow> string \<Rightarrow> string" where
  "basic_auth user password = ''Basic '' @ b64_std (user @ '':'' @ password)"

definition token_endpoint_url :: "http_request \<Rightarrow> string" where
  "token_endpoint_url req = url_string (hr_url req)"

definition apply_secret_auth ::
  "string \<Rightarrow> string \<Rightarrow> bool \<Rightarrow> http_request \<Rightarrow> form_values \<Rightarrow> http_request \<times> form_values" where
  "apply_secret_auth cid sec post req f =
     (if post then (req, form_set ''client_secret'' sec (form_set ''client_id'' cid f))
      else (req\<lparr>hr_header := header_set ''Authorization'' (basic_auth cid sec) (hr_header req)\<rparr>, f))"

definition apply_private_key_jwt ::
  "('k, 'r) signing_lib \<Rightarrow> string \<Rightarrow> 'k \<Rightarrow> string \<Rightarrow> http_request \<Rightarrow> form_values \<Rightarrow> 'p client_world
     \<Rightarrow> (http_request \<times> form_values) result \<times> 'p client_world" where
  "apply_private_key_jwt L cid key alg req f w =
     (let (t, w1) = client_now w; (jti, w2) = random_id w1;
          tok = \<lparr>as_issuer = cid, as_subject = cid, as_audience = [token_endpoint_url req],
                 as_issued_at = t, as_expiration = time_add t (60 * second), as_jti = jti\<rparr>
      in (bind_res (wrap_err ''aoa: build client assertion'' (sl_jwt_build L tok)) (\<lambda>_.
          bind_res (wrap_err ''aoa: sign client assertion'' (sl_jwt_sign L tok alg key)) (\<lambda>signed.
            Inr (req,
              form_set ''client_assertion'' signed
                (form_set ''client_assertion_type''
                  ''urn:ietf:params:oauth:client-assertion-type:jwt-bearer''
                  (form_set ''client_id'' cid f))))), w2))"

text \<open>The method \<open>apply\<close> of the interface \<open>ClientAuth\<close>.\<close>

definition apply_auth ::
  "('k, 'r) signing_lib \<Rightarrow> 'k client_auth \<Rightarrow> http_request \<Rightarrow> form_values \<Rightarrow> 'p client_world
     \<Rightarrow> (http_request \<times> form_values) result \<times> 'p client_world" where
  "apply_auth L a req f w =
     (case a of
        SecretAuth cid sec post \<Rightarrow> (Inr (apply_secret_auth cid sec post req f), w)
      | PrivateKeyJWT cid key alg \<Rightarrow> apply_private_key_jwt L cid key alg req f w)"

lemmas apply_auth_unfold = apply_auth_def apply_secret_auth_def apply_private_key_jwt_def

end
