(* ===== verification/Exchanger.thy ===== *)
theory Exchanger
  imports ExchangeClient
begin

text \<open>
  Discovery of the token endpoint (exchange_discovery.go) and the token exchange of a client
  (exchange.go).
\<close>

section \<open>Discovery (exchange_discovery.go)\<close>

record as_metadata =
  am_issuer :: string
  am_token_endpoint :: string

definition zero_as_metadata :: as_metadata where
  "zero_as_metadata = \<lparr>am_issuer = [], am_token_endpoint = []\<rparr>"

definition dec_as_metadata :: "string \<Rightarrow> json \<Rightarrow> as_metadata \<Rightarrow> as_metadata option" where
  "dec_as_metadata k v m =
     (if key_is ''issuer'' k then map_option (\<lambda>s. m\<lparr>am_issuer := s\<rparr>) (dec_string v (am_issuer m))
      else if key_is ''token_endpoint'' k
      then map_option (\<lambda>s. m\<lparr>am_token_endpoint := s\<rparr>) (dec_string v (am_token_endpoint m))
      else Some m)"

definition as_metadata_url :: "string \<Rightarrow> string" where
  "as_metadata_url issuer = trim_right (CHR ''/'') issuer @ ''/.well-known/oauth-authorization-server''"

text \<open>The checks on the metadata response. The text of a JSON error is left out.\<close>

definition read_as_metadata :: "('k, 's) jose \<Rightarrow> string \<Rightarrow> http_response \<Rightarrow> string result" where
  "read_as_metadata J issuer resp =
     (if hs_status resp \<noteq> 200
      then Inl (''aoa: AS metadata status '' @ format_int (int (hs_status resp)))
      else
        bind_res (read_limited (hs_body resp)) (\<lambda>body.
          case unmarshal dec_as_metadata zero_as_metadata body of
            None \<Rightarrow> Inl ''aoa: parse AS metadata''
          | Some m \<Rightarrow>
              if am_token_endpoint m = [] then Inl ''aoa: AS metadata has no token_endpoint''
              else if am_issuer m \<noteq> issuer
              then Inl (''aoa: AS metadata issuer '' @ quote (uprint J) (am_issuer m) @ '' != ''
                     @ quote (uprint J) issuer)
              else Inr (am_token_endpoint m)))"

definition discover ::
  "('k, 's) jose \<Rightarrow> 'p http_client \<Rightarrow> string \<Rightarrow> 'p client_world \<Rightarrow> string result \<times> 'p client_world" where
  "discover J client issuer w =
     (case map_of (cw_cache w) issuer of
        Some ep \<Rightarrow> (Inr ep, w)
      | None \<Rightarrow>
          (case new_request J ''GET'' (as_metadata_url issuer) of
             Inl e \<Rightarrow> (Inl e, w)
           | Inr req \<Rightarrow>
               (case client_send client req w of
                  (Inl e, w1) \<Rightarrow> (Inl (''aoa: fetch AS metadata: '' @ e), w1)
                | (Inr resp, w1) \<Rightarrow>
                    (case read_as_metadata J issuer resp of
                       Inl e \<Rightarrow> (Inl e, w1)
                     | Inr ep \<Rightarrow> (Inr ep, w1\<lparr>cw_cache := AList.update issuer ep (cw_cache w1)\<rparr>)))))"

section \<open>Configuration, request and result (exchange.go)\<close>

record ('k, 'p) exchange_config =
  xc_token_endpoint :: string
  xc_issuer :: string
  xc_client_auth :: "'k client_auth option"
  xc_http_client :: "'p http_client option"
  xc_dpop_key :: "'k dpop_key option"

record exchange_request =
  xr_subject_token :: string
  xr_subject_token_type :: string
  xr_actor_token :: string
  xr_actor_token_type :: string
  xr_resource :: "string list"
  xr_audience :: "string list"
  xr_scope :: "string list"
  xr_requested_token_type :: string

record exchange_result =
  er_access_token :: string
  er_issued_token_type :: string
  er_token_type :: string
  er_expires_in :: duration
  er_scope :: "string list"
  er_refresh_token :: string
  er_raw :: bytes

record ('k, 'p) token_exchanger =
  tx_endpoint :: string
  tx_issuer :: string
  tx_auth :: "'k client_auth"
  tx_client :: "'p http_client"
  tx_dpop :: "'k dpop_key option"

text \<open>\<open>dflt\<close> is the \<open>http.Client\<close> the code builds when none is given: one that follows no redirect.\<close>

definition new_token_exchanger ::
  "'p http_client \<Rightarrow> ('k, 'p) exchange_config \<Rightarrow> ('k, 'p) token_exchanger result" where
  "new_token_exchanger dflt cfg =
     (if (xc_token_endpoint cfg = []) = (xc_issuer cfg = [])
      then Inl ''aoa: ExchangeConfig requires exactly one of TokenEndpoint or Issuer''
      else
        (case xc_client_auth cfg of
           None \<Rightarrow> Inl ''aoa: ExchangeConfig.ClientAuth is required''
         | Some auth \<Rightarrow>
             bind_res (if xc_issuer cfg \<noteq> []
                       then wrap_err ''aoa: ExchangeConfig.Issuer'' (validate_issuer_url (xc_issuer cfg))
                       else Inr ()) (\<lambda>_.
               Inr \<lparr>tx_endpoint = xc_token_endpoint cfg, tx_issuer = xc_issuer cfg, tx_auth = auth,
                    tx_client = (case xc_http_client cfg of Some c \<Rightarrow> c | None \<Rightarrow> dflt),
                    tx_dpop = xc_dpop_key cfg\<rparr>)))"

definition build_exchange_form :: "exchange_request \<Rightarrow> form_values" where
  "build_exchange_form req =
     (let f0 = form_set ''subject_token_type'' (or_default (xr_subject_token_type req))
                 (form_set ''subject_token'' (xr_subject_token req)
                   (form_set ''grant_type'' grant_type_token_exchange []));
          f1 = (if xr_actor_token req \<noteq> []
                then form_set ''actor_token_type'' (xr_actor_token_type req)
                       (form_set ''actor_token'' (xr_actor_token req) f0)
                else f0);
          f2 = fold (form_add ''resource'') (xr_resource req) f1;
          f3 = fold (form_add ''audience'') (xr_audience req) f2;
          f4 = (if xr_scope req \<noteq> [] then form_set ''scope'' (join '' '' (xr_scope req)) f3 else f3)
      in if xr_requested_token_type req \<noteq> []
         then form_set ''requested_token_type'' (xr_requested_token_type req) f4 else f4)"

text \<open>\<open>htuOf\<close>\<close>

definition htu_of :: "string \<Rightarrow> string" where
  "htu_of endpoint =
     (case url_parse endpoint of
        None \<Rightarrow> endpoint
      | Some u \<Rightarrow> url_string (u\<lparr>url_raw_query := [], url_fragment := []\<rparr>))"

record result_body =
  rb_access_token :: string
  rb_issued_token_type :: string
  rb_token_type :: string
  rb_expires_in :: int
  rb_scope :: string
  rb_refresh_token :: string

definition zero_result_body :: result_body where
  "zero_result_body = \<lparr>rb_access_token = [], rb_issued_token_type = [], rb_token_type = [],
     rb_expires_in = 0, rb_scope = [], rb_refresh_token = []\<rparr>"

definition dec_result_body :: "string \<Rightarrow> json \<Rightarrow> result_body \<Rightarrow> result_body option" where
  "dec_result_body k v b =
     (if key_is ''access_token'' k
      then map_option (\<lambda>s. b\<lparr>rb_access_token := s\<rparr>) (dec_string v (rb_access_token b))
      else if key_is ''issued_token_type'' k
      then map_option (\<lambda>s. b\<lparr>rb_issued_token_type := s\<rparr>) (dec_string v (rb_issued_token_type b))
      else if key_is ''token_type'' k
      then map_option (\<lambda>s. b\<lparr>rb_token_type := s\<rparr>) (dec_string v (rb_token_type b))
      else if key_is ''expires_in'' k
      then map_option (\<lambda>n. b\<lparr>rb_expires_in := n\<rparr>) (dec_int64 v (rb_expires_in b))
      else if key_is ''scope'' k
      then map_option (\<lambda>s. b\<lparr>rb_scope := s\<rparr>) (dec_string v (rb_scope b))
      else if key_is ''refresh_token'' k
      then map_option (\<lambda>s. b\<lparr>rb_refresh_token := s\<rparr>) (dec_string v (rb_refresh_token b))
      else Some b)"

text \<open>\<open>parseExchangeResult\<close>; the product of \<open>ExpiresIn\<close> is one of int64 values and wraps.\<close>

definition parse_exchange_result :: "bytes \<Rightarrow> exchange_result result" where
  "parse_exchange_result body =
     (case unmarshal dec_result_body zero_result_body body of
        None \<Rightarrow> Inl ''aoa: parse exchange response''
      | Some p \<Rightarrow>
          if rb_access_token p = [] then Inl ''aoa: exchange response missing access_token''
          else Inr \<lparr>er_access_token = rb_access_token p, er_issued_token_type = rb_issued_token_type p,
                    er_token_type = rb_token_type p, er_expires_in = wrap64 (rb_expires_in p * nanos),
                    er_scope = (if rb_scope p \<noteq> [] then str_fields (rb_scope p) else []),
                    er_refresh_token = rb_refresh_token p, er_raw = body\<rparr>)"

text \<open>\<open>ExchangeResult.Decode\<close> into a struct: \<open>None\<close> when there is no payload or it does not decode.\<close>

definition decode_result :: "(string \<Rightarrow> json \<Rightarrow> 'a \<Rightarrow> 'a option) \<Rightarrow> 'a \<Rightarrow> exchange_result \<Rightarrow> 'a option" where
  "decode_result f zero r = (if er_raw r = [] then None else unmarshal f zero (er_raw r))"

section \<open>The exchange\<close>

text \<open>What the code makes of the response: the result, or the error and the nonce to retry with.\<close>

definition read_token_response :: "http_response \<Rightarrow> (exchange_failure + exchange_result) \<times> string" where
  "read_token_response resp =
     (case read_limited (hs_body resp) of
        Inl e \<Rightarrow> (Inl (PlainFailure e), [])
      | Inr body \<Rightarrow>
          if 300 \<le> hs_status resp \<and> hs_status resp < 400
          then (Inl (ExchangeFailure \<lparr>xe_code = ''invalid_request'',
                  xe_description = ''token endpoint returned a redirect, which is not followed'',
                  xe_uri = [], xe_http_status = int (hs_status resp)\<rparr>), [])
          else if hs_status resp div 100 \<noteq> 2 then
            (let ee = parse_exchange_error (int (hs_status resp)) body in
             (Inl (ExchangeFailure ee),
              if xe_code ee = ''use_dpop_nonce'' then header_get (hs_header resp) ''DPoP-Nonce'' else []))
          else
            (case parse_exchange_result body of
               Inl e \<Rightarrow> (Inl (PlainFailure e), [])
             | Inr r \<Rightarrow> (Inr r, [])))"

text \<open>The request of \<open>do\<close>, with its authentication, its proof and its encoded body.\<close>

definition token_request ::
  "('k, 's) jose \<Rightarrow> ('k, 'r) signing_lib \<Rightarrow> ('k, 'p) token_exchanger \<Rightarrow> string \<Rightarrow> form_values \<Rightarrow> string
     \<Rightarrow> 'p client_world \<Rightarrow> http_request result \<times> 'p client_world" where
  "token_request J L x endpoint f nonce w =
     (case new_request J ''POST'' endpoint of
        Inl e \<Rightarrow> (Inl e, w)
      | Inr req0 \<Rightarrow>
          (let req = req0\<lparr>hr_header := header_set ''Accept'' ''application/json''
                 (header_set ''Content-Type'' form_media_type (hr_header req0))\<rparr> in
           case apply_auth L (tx_auth x) req f w of
             (Inl e, w1) \<Rightarrow> (Inl e, w1)
           | (Inr (req1, f1), w1) \<Rightarrow>
               (case tx_dpop x of
                  None \<Rightarrow> (Inr (req1\<lparr>hr_body := form_encode f1\<rparr>), w1)
                | Some k \<Rightarrow>
                    (case proof_for L k ''POST'' (htu_of endpoint) nonce w1 of
                       (Inl e, w2) \<Rightarrow> (Inl e, w2)
                     | (Inr proof, w2) \<Rightarrow>
                         (Inr (req1\<lparr>hr_header := header_set ''DPoP'' proof (hr_header req1),
                                    hr_body := form_encode f1\<rparr>), w2)))))"

definition exchange_do ::
  "('k, 's) jose \<Rightarrow> ('k, 'r) signing_lib \<Rightarrow> ('k, 'p) token_exchanger \<Rightarrow> string \<Rightarrow> form_values \<Rightarrow> string
     \<Rightarrow> 'p client_world \<Rightarrow> ((exchange_failure + exchange_result) \<times> string) \<times> 'p client_world" where
  "exchange_do J L x endpoint f nonce w =
     (case token_request J L x endpoint f nonce w of
        (Inl e, w1) \<Rightarrow> ((Inl (PlainFailure e), []), w1)
      | (Inr req, w1) \<Rightarrow>
          (case client_send (tx_client x) req w1 of
             (Inl e, w2) \<Rightarrow> ((Inl (PlainFailure e), []), w2)
           | (Inr resp, w2) \<Rightarrow> (read_token_response resp, w2)))"

definition exchange_with_nonce_retry ::
  "('k, 's) jose \<Rightarrow> ('k, 'r) signing_lib \<Rightarrow> ('k, 'p) token_exchanger \<Rightarrow> string \<Rightarrow> form_values
     \<Rightarrow> 'p client_world \<Rightarrow> (exchange_failure + exchange_result) \<times> 'p client_world" where
  "exchange_with_nonce_retry J L x endpoint f w =
     (case exchange_do J L x endpoint f [] w of
        ((Inr res, _), w1) \<Rightarrow> (Inr res, w1)
      | ((Inl err, nonce), w1) \<Rightarrow>
          if tx_dpop x = None \<or> nonce = [] then (Inl err, w1)
          else (let ((res, _), w2) = exchange_do J L x endpoint f nonce w1 in (res, w2)))"

definition client_emit :: "event \<Rightarrow> 'p client_world \<Rightarrow> 'p client_world" where
  "client_emit ev w =
     (let (t, w1) = client_now w in w1\<lparr>cw_audit := cw_audit w1 @ [ev\<lparr>ev_timestamp := t\<rparr>]\<rparr>)"

definition resolve_endpoint ::
  "('k, 's) jose \<Rightarrow> ('k, 'p) token_exchanger \<Rightarrow> 'p client_world \<Rightarrow> string result \<times> 'p client_world" where
  "resolve_endpoint J x w =
     (if tx_endpoint x \<noteq> [] then (Inr (tx_endpoint x), w)
      else discover J (tx_client x) (tx_issuer x) w)"

definition exchange ::
  "('k, 's) jose \<Rightarrow> ('k, 'r) signing_lib \<Rightarrow> ('k, 'p) token_exchanger \<Rightarrow> exchange_request
     \<Rightarrow> 'p client_world \<Rightarrow> (exchange_failure + exchange_result) \<times> 'p client_world" where
  "exchange J L x req w =
     (if xr_subject_token req = []
      then (Inl (PlainFailure ''aoa: ExchangeRequest.SubjectToken is required''), w)
      else if xr_actor_token req \<noteq> [] \<and> xr_actor_token_type req = []
      then (Inl (PlainFailure ''aoa: ActorTokenType is required when ActorToken is set''), w)
      else
        (case resolve_endpoint J x w of
           (Inl e, w1) \<Rightarrow> (Inl (PlainFailure e), w1)
         | (Inr endpoint, w1) \<Rightarrow>
             (case exchange_with_nonce_retry J L x endpoint (build_exchange_form req) w1 of
                (Inl err, w2) \<Rightarrow>
                  (Inl err, client_emit (empty_event\<lparr>ev_kind := EventTokenExchanged,
                     ev_outcome := OutcomeDeny, ev_reason := failure_text err\<rparr>) w2)
              | (Inr res, w2) \<Rightarrow>
                  (Inr res, client_emit (empty_event\<lparr>ev_kind := EventTokenExchanged,
                     ev_outcome := OutcomeAllow, ev_scope := er_scope res\<rparr>) w2))))"

end
