(* ===== verification/Admission.thy ===== *)
theory Admission
  imports Bearer
begin

text \<open>
  What the middleware admits, declaratively: the conditions a request must meet, each with the
  world its check leaves, and the proof that the handler passes a request on exactly when they
  all hold.
\<close>

section \<open>The conditions\<close>

definition claims_ok :: "('s, 'e) bearer_mw \<Rightarrow> claims \<Rightarrow> bool" where
  "claims_ok mw c \<longleftrightarrow>
     (\<exists>a \<in> set (cl_audience c). a \<in> set (mw_audiences mw))
     \<and> set (mw_required_scope mw) \<subseteq> set (cl_scope c)"

definition validator_ok :: "('s, 'e) bearer_mw \<Rightarrow> claims \<Rightarrow> 'e \<Rightarrow> 'e \<Rightarrow> bool" where
  "validator_ok mw c e e' \<longleftrightarrow>
     (case mw_claim_val mw of None \<Rightarrow> e' = e | Some val \<Rightarrow> val c e = (None, e'))"

definition proof_fits ::
  "('s, 'e) bearer_mw \<Rightarrow> request \<Rightarrow> string \<Rightarrow> claims \<Rightarrow> dpop_proof \<Rightarrow> instant \<Rightarrow> bool" where
  "proof_fits mw r tok c p t \<longleftrightarrow>
     dp_jti p \<noteq> [] \<and> equal_fold (dp_htm p) (req_method r)
     \<and> htu_equal (dp_htu p) (request_htu r (mw_trust_fwd mw))
     \<and> time_add t (- mw_proof_max_age mw) \<le> dp_iat p \<and> dp_iat p \<le> time_add t (mw_skew mw)
     \<and> dp_ath p = ath_for tok \<and> dp_jkt p = bound_key_thumbprint c"

definition nonce_ok ::
  "('s, 'e) bearer_mw \<Rightarrow> request \<Rightarrow> dpop_proof \<Rightarrow> ('s, 'e) world \<Rightarrow> ('s, 'e) world \<Rightarrow> bool" where
  "nonce_ok mw r p w w' \<longleftrightarrow>
     (case mw_nonce mw of None \<Rightarrow> w' = w
      | Some src \<Rightarrow> dp_nonce p \<noteq> [] \<and> ns_valid src r (dp_nonce p) w = (True, w'))"

definition jti_ok :: "('s, 'e) bearer_mw \<Rightarrow> dpop_proof \<Rightarrow> ('s, 'e) world \<Rightarrow> ('s, 'e) world \<Rightarrow> bool" where
  "jti_ok mw p w w' \<longleftrightarrow>
     mw_replay mw (dp_jti p) (time_add (dp_iat p) (mw_proof_max_age mw)) w = (Inr False, w')"

definition proof_ok ::
  "('k, 's) jose \<Rightarrow> ('s, 'e) bearer_mw \<Rightarrow> request \<Rightarrow> string \<Rightarrow> claims \<Rightarrow> string \<Rightarrow> dpop_proof
     \<Rightarrow> ('s, 'e) world \<Rightarrow> ('s, 'e) world \<Rightarrow> bool" where
  "proof_ok J mw r tok c raw p w w' \<longleftrightarrow>
     header_values (req_header r) ''DPoP'' = [raw] \<and> proves J (mw_dpop_algs mw) raw p
     \<and> proof_fits mw r tok c p (w_clock w (w_tick w))
     \<and> (\<exists>w2. nonce_ok mw r p (w\<lparr>w_tick := Suc (w_tick w)\<rparr>) w2 \<and> jti_ok mw p w2 w')"

definition sender_ok ::
  "('k, 's) jose \<Rightarrow> ('s, 'e) bearer_mw \<Rightarrow> request \<Rightarrow> string \<Rightarrow> claims \<Rightarrow> string
     \<Rightarrow> ('s, 'e) world \<Rightarrow> ('s, 'e) world \<Rightarrow> bool" where
  "sender_ok J mw r tok c scheme w w' \<longleftrightarrow>
     (if scheme = ''DPoP'' then
        mw_dpop_mode mw \<noteq> DPoPOff \<and> bound_key_thumbprint c \<noteq> []
        \<and> (\<exists>raw p. proof_ok J mw r tok c raw p w w')
      else
        mw_dpop_mode mw \<noteq> DPoPRequired \<and> bound_key_thumbprint c = []
        \<and> (mw_dpop_mode mw = DPoPOptional \<longrightarrow> header_values (req_header r) ''DPoP'' = [])
        \<and> w' = w)"

text \<open>The events of an admission, in their order.\<close>

definition allowed :: "string \<Rightarrow> event" where
  "allowed kind = empty_event\<lparr>ev_kind := kind, ev_outcome := OutcomeAllow\<rparr>"

definition allow_events ::
  "('s, 'e) bearer_mw \<Rightarrow> request \<Rightarrow> claims \<Rightarrow> string \<Rightarrow> ('s, 'e) world \<Rightarrow> ('s, 'e) world" where
  "allow_events mw r c scheme w =
     (let w1 = (if scheme = ''DPoP'' then emit mw r (allowed EventDPoPVerified) (Some c) w else w)
      in emit mw r (allowed EventTokenValidated) (Some c) w1)"

abbreviation verifier_of :: "('s, 'e) bearer_mw \<Rightarrow> ('s, 'e) token_verifier" where
  "verifier_of mw \<equiv> \<lparr>tv_keys = mw_keys mw, tv_issuer = mw_issuer mw, tv_skew = mw_skew mw,
     tv_algs = mw_algs mw\<rparr>"

section \<open>Stage by stage\<close>

lemma audience_matches_iff: "audience_matches aud acc \<longleftrightarrow> (\<exists>a \<in> set aud. a \<in> set acc)"
  by (auto simp: audience_matches_def list_ex_iff)

lemma missing_scopes_Nil: "missing_scopes granted required = [] \<longleftrightarrow> set required \<subseteq> set granted"
  by (auto simp: missing_scopes_def filter_not_Nil_iff)

lemma claims_ok_iff:
  "claims_ok mw c \<longleftrightarrow> audience_matches (cl_audience c) (mw_audiences mw)
     \<and> missing_scopes (cl_scope c) (mw_required_scope mw) = []"
  by (simp add: claims_ok_def audience_matches_iff missing_scopes_Nil)

lemma extract_token_scheme:
  "extract_token r = Some (s, t) \<Longrightarrow> (s = ''Bearer'' \<or> s = ''DPoP'') \<and> t \<noteq> []"
  by (auto simp: extract_token_def split: list.splits if_splits)

lemma check_proof_claims_None [admit]:
  "check_proof_claims mw r tok c p w = (None, w') \<longleftrightarrow>
     proof_fits mw r tok c p (w_clock w (w_tick w)) \<and> w' = w\<lparr>w_tick := Suc (w_tick w)\<rparr>"
  by (auto simp: check_proof_claims_def proof_fits_def now_def before_def after_def not_less)

lemma check_nonce_None [admit]: "check_nonce mw r p w = (None, w') \<longleftrightarrow> nonce_ok mw r p w w'"
  by (auto simp: check_nonce_def nonce_ok_def Let_def split: option.splits prod.splits)

lemma check_replay_None [admit]: "check_replay mw p w = (None, w') \<longleftrightarrow> jti_ok mw p w w'"
  by (auto simp: check_replay_def jti_ok_def split: prod.splits sum.splits bool.splits)

lemma verify_proof_None [admit]:
  "verify_proof J mw r tok c w = (None, w') \<longleftrightarrow>
     bound_key_thumbprint c \<noteq> [] \<and> (\<exists>raw p. proof_ok J mw r tok c raw p w w')"
proof (cases "\<exists>raw. header_values (req_header r) ''DPoP'' = [raw]")
  case False
  then show ?thesis by (auto simp: verify_proof_def proof_ok_def split: list.splits)
next
  case True
  then obtain raw where h: "header_values (req_header r) ''DPoP'' = [raw]" by blast
  show ?thesis
  proof (cases "parse_and_verify_proof J raw (mw_dpop_algs mw)")
    case (Inl e)
    then have "\<not> proves J (mw_dpop_algs mw) raw p" for p
      using parse_and_verify_proof_Inr [of J raw "mw_dpop_algs mw" p] by simp
    with h Inl show ?thesis by (simp add: verify_proof_def proof_ok_def)
  next
    case (Inr p)
    have one: "proves J (mw_dpop_algs mw) raw q \<longleftrightarrow> q = p" for q
      using parse_and_verify_proof_Inr [of J raw "mw_dpop_algs mw" q] Inr by auto
    obtain a w1 where a: "check_proof_claims mw r tok c p w = (a, w1)" by fastforce
    obtain b w2 where b: "check_nonce mw r p w1 = (b, w2)" by fastforce
    have "verify_proof J mw r tok c w = (None, w') \<longleftrightarrow>
        bound_key_thumbprint c \<noteq> [] \<and> a = None \<and> b = None \<and> check_replay mw p w2 = (None, w')"
      using h Inr a b by (auto simp: verify_proof_def split: option.splits)
    also have "\<dots> \<longleftrightarrow> bound_key_thumbprint c \<noteq> []
        \<and> check_proof_claims mw r tok c p w = (None, w\<lparr>w_tick := Suc (w_tick w)\<rparr>)
        \<and> (\<exists>w2. check_nonce mw r p (w\<lparr>w_tick := Suc (w_tick w)\<rparr>) = (None, w2)
                \<and> check_replay mw p w2 = (None, w'))"
      using a b check_proof_claims_None [of mw r tok c p w w1] by auto
    finally show ?thesis
      by (simp add: h one proof_ok_def check_proof_claims_None check_nonce_None check_replay_None)
  qed
qed

lemma enforce_dpop_True [admit]:
  assumes "scheme = ''Bearer'' \<or> scheme = ''DPoP''"
    and "\<not> (scheme = ''DPoP'' \<and> mw_dpop_mode mw = DPoPOff)"
  shows "enforce_dpop J mw r tok c scheme rsp w = (True, rsp', w') \<longleftrightarrow>
    rsp' = rsp \<and> (\<exists>w1. sender_ok J mw r tok c scheme w w1
      \<and> w' = (if scheme = ''DPoP'' then emit mw r (allowed EventDPoPVerified) (Some c) w1 else w1))"
proof (cases "mw_dpop_mode mw = DPoPOff")
  case True
  with assms show ?thesis by (auto simp: enforce_dpop_def sender_ok_def)
next
  case False
  have sender: "sender_ok J mw r tok c scheme w w1 \<longleftrightarrow> verify_dpop J mw r tok c scheme w = (None, w1)" for w1
    using False assms(1)
    by (cases "mw_dpop_mode mw")
      (auto simp: verify_dpop_def sender_ok_def gate_bearer_def verify_proof_None)
  obtain v w1 where v: "verify_dpop J mw r tok c scheme w = (v, w1)" by fastforce
  have "sender_ok J mw r tok c scheme w x \<longleftrightarrow> v = None \<and> x = w1" for x
    unfolding sender v by auto
  with False v show ?thesis
    by (cases v) (auto simp: enforce_dpop_def allowed_def)
qed

lemma authenticate_Some [admit]:
  "authenticate J mw r rsp w = (Some (c, raw, scheme), rsp', w') \<longleftrightarrow>
     extract_token r = Some (scheme, raw) \<and> \<not> (scheme = ''DPoP'' \<and> mw_dpop_mode mw = DPoPOff)
     \<and> rsp' = rsp \<and> claims_ok mw c
     \<and> (\<exists>w1 e. verify J (verifier_of mw) raw w = (Inr c, w1)
          \<and> validator_ok mw c (w_ext w1) e \<and> w' = w1\<lparr>w_ext := e\<rparr>)"
proof (cases "extract_token r")
  case None
  then show ?thesis by (simp add: authenticate_def)
next
  case (Some st)
  obtain s t where st: "st = (s, t)" by (cases st)
  obtain v w1 where v: "verify J (verifier_of mw) t w = (v, w1)" by fastforce
  show ?thesis
  proof (cases v)
    case (Inl ve)
    with Some st v show ?thesis by (auto simp: authenticate_def)
  next
    case (Inr d)
    obtain x e where xe: "(case mw_claim_val mw of None \<Rightarrow> (None, w_ext w1)
                          | Some val \<Rightarrow> val d (w_ext w1)) = (x, e)" by fastforce
    then have "validator_ok mw d (w_ext w1) e' \<longleftrightarrow> x = None \<and> e' = e" for e'
      by (cases "mw_claim_val mw") (auto simp: validator_ok_def)
    with Some st v Inr xe show ?thesis
      by (cases x) (auto simp: authenticate_def claims_ok_iff)
  qed
qed

section \<open>The handler\<close>

definition admits ::
  "('k, 's) jose \<Rightarrow> ('s, 'e) bearer_mw \<Rightarrow> request \<Rightarrow> string \<Rightarrow> string \<Rightarrow> claims
     \<Rightarrow> ('s, 'e) world \<Rightarrow> ('s, 'e) world \<Rightarrow> bool" where
  "admits J mw r scheme raw c w w' \<longleftrightarrow>
     extract_token r = Some (scheme, raw) \<and> claims_ok mw c
     \<and> (\<exists>w1 e. verify J (verifier_of mw) raw w = (Inr c, w1)
          \<and> validator_ok mw c (w_ext w1) e
          \<and> sender_ok J mw r raw c scheme (w1\<lparr>w_ext := e\<rparr>) w')"

lemma guard_Some:
  "guard J mw r rsp w = (Some c, rsp', w') \<longleftrightarrow>
     rsp' = rsp \<and> (\<exists>scheme raw w2. admits J mw r scheme raw c w w2
        \<and> w' = allow_events mw r c scheme w2)"
proof -
  have "guard J mw r rsp w = (Some c, rsp', w') \<longleftrightarrow>
      (\<exists>raw scheme rsp1 w1 w2. authenticate J mw r rsp w = (Some (c, raw, scheme), rsp1, w1)
        \<and> enforce_dpop J mw r raw c scheme rsp1 w1 = (True, rsp', w2)
        \<and> w' = emit mw r (allowed EventTokenValidated) (Some c) w2)"
    by (auto simp: guard_def allowed_def split: prod.splits option.splits bool.splits)
  also have "\<dots> \<longleftrightarrow> rsp' = rsp \<and> (\<exists>scheme raw w2. admits J mw r scheme raw c w w2
        \<and> w' = allow_events mw r c scheme w2)" (is "?l \<longleftrightarrow> ?r")
  proof
    assume ?l
    then obtain raw scheme rsp1 w1 w2 where
      a: "authenticate J mw r rsp w = (Some (c, raw, scheme), rsp1, w1)"
      and e: "enforce_dpop J mw r raw c scheme rsp1 w1 = (True, rsp', w2)"
      and w': "w' = emit mw r (allowed EventTokenValidated) (Some c) w2" by blast
    note au = iffD1 [OF authenticate_Some a]
    then have "scheme = ''Bearer'' \<or> scheme = ''DPoP''" "\<not> (scheme = ''DPoP'' \<and> mw_dpop_mode mw = DPoPOff)"
      using extract_token_scheme by blast+
    note en = iffD1 [OF enforce_dpop_True [OF this] e]
    from en obtain w3 where w3: "sender_ok J mw r raw c scheme w1 w3" "rsp' = rsp1"
      "w2 = (if scheme = ''DPoP'' then emit mw r (allowed EventDPoPVerified) (Some c) w3 else w3)"
      by blast
    with au have "admits J mw r scheme raw c w w3" unfolding admits_def by blast
    with au w3 w' show ?r unfolding allow_events_def Let_def by blast
  next
    assume ?r
    then obtain scheme raw w2 where rsp: "rsp' = rsp" and ad: "admits J mw r scheme raw c w w2"
      and w': "w' = allow_events mw r c scheme w2" by blast
    then obtain w1 e where x: "extract_token r = Some (scheme, raw)" "claims_ok mw c"
      "verify J (verifier_of mw) raw w = (Inr c, w1)" "validator_ok mw c (w_ext w1) e"
      "sender_ok J mw r raw c scheme (w1\<lparr>w_ext := e\<rparr>) w2"
      unfolding admits_def by blast
    have off: "\<not> (scheme = ''DPoP'' \<and> mw_dpop_mode mw = DPoPOff)"
      using x(5) by (auto simp: sender_ok_def)
    have sch: "scheme = ''Bearer'' \<or> scheme = ''DPoP''" using extract_token_scheme [OF x(1)] ..
    have "authenticate J mw r rsp w = (Some (c, raw, scheme), rsp, w1\<lparr>w_ext := e\<rparr>)"
      using x off authenticate_Some by blast
    moreover have "enforce_dpop J mw r raw c scheme rsp (w1\<lparr>w_ext := e\<rparr>) = (True, rsp,
        if scheme = ''DPoP'' then emit mw r (allowed EventDPoPVerified) (Some c) w2 else w2)"
      using enforce_dpop_True [OF sch off] x(5) by blast
    ultimately show ?l using rsp w' by (auto simp: allow_events_def Let_def)
  qed
  finally show ?thesis .
qed

text \<open>A sender-constrained token in an \<open>Authorization: Bearer\<close> header is never admitted.\<close>

lemma bound_bearer_denied:
  assumes "extract_token r = Some (''Bearer'', raw)" and "extract_cnf (token_payload raw) \<noteq> []"
  shows "fst (guard J mw r rsp w) = None"
proof (rule ccontr)
  assume "fst (guard J mw r rsp w) \<noteq> None"
  then obtain c rsp' w' where "guard J mw r rsp w = (Some c, rsp', w')"
    by (metis not_None_eq prod.collapse)
  then obtain w2 where "admits J mw r ''Bearer'' raw c w w2"
    using assms(1) unfolding guard_Some admits_def by auto
  then obtain w1 e where "verify J (verifier_of mw) raw w = (Inr c, w1)"
    and s: "sender_ok J mw r raw c ''Bearer'' (w1\<lparr>w_ext := e\<rparr>) w2"
    unfolding admits_def by blast
  then have "bound_key_thumbprint c = extract_cnf (token_payload raw)"
    using verified_at_cnf [OF verify_Inr_D] by (simp add: bound_key_thumbprint_def)
  with s assms(2) show False by (simp add: sender_ok_def)
qed

lemma handler_denied: "fst (guard J mw r rsp w) = None \<Longrightarrow> handler J mw nxt r rsp w = snd (guard J mw r rsp w)"
  by (auto simp: handler_def split: prod.splits)

lemma admitted_facts:
  assumes "guard J mw r rsp w = (Some c, rsp', w')"
  shows "\<exists>scheme raw w1 e w2. extract_token r = Some (scheme, raw) \<and> verified_at J (verifier_of mw) raw w c
    \<and> claims_ok mw c \<and> cl_cnf_jkt c = extract_cnf (token_payload raw)
    \<and> sender_ok J mw r raw c scheme (w1\<lparr>w_ext := e\<rparr>) w2"
  using assms verified_at_cnf unfolding guard_Some admits_def by (metis verify_Inr_D)

end
