(* ===== verification/Outcomes.thy ===== *)
theory Outcomes
  imports Admission
begin

text \<open>
  What the middleware leaves behind: the audit events and the response of an admission and of a
  denial, for a configuration whose own calls emit nothing.
\<close>

section \<open>The challenge response\<close>

lemma canonical_www: "canonical_key ''WWW-Authenticate'' = ''Www-Authenticate''"
  by code_simp

lemma canonical_nonce: "canonical_key ''DPoP-Nonce'' = ''Dpop-Nonce''"
  by code_simp

lemma default_error_handler_challenge:
  "header_values (resp_header (default_error_handler up realm meta (AuthError ae) rsp)) ''WWW-Authenticate''
     = header_values (resp_header rsp) ''WWW-Authenticate''
       @ (if ae_with_bearer ae
          then [build_challenge up (zero_auth_error\<lparr>ae_status := ae_status ae, ae_scheme := ''Bearer''\<rparr>)
                  realm meta]
          else [])
       @ [build_challenge up ae realm meta]"
  by (simp add: default_error_handler_def Let_def header_values_def header_add_def header_set_def
      canonical_www canonical_nonce)

lemma default_error_handler_nonce:
  "header_values (resp_header (default_error_handler up realm meta (AuthError ae) rsp)) ''DPoP-Nonce''
     = (if ae_nonce ae = [] then header_values (resp_header rsp) ''DPoP-Nonce'' else [ae_nonce ae])"
  by (simp add: default_error_handler_def Let_def header_values_def header_add_def header_set_def
      canonical_www canonical_nonce)

lemma default_error_handler_status:
  "resp_status (default_error_handler up realm meta (AuthError ae) rsp) =
     (if resp_status rsp = None \<and> \<not> informational (ae_status ae) then Some (ae_status ae) else resp_status rsp)"
  by (simp add: default_error_handler_def Let_def)

lemma default_error_handler_body:
  "resp_body (default_error_handler up realm meta (AuthError ae) rsp) = resp_body rsp"
  by (simp add: default_error_handler_def Let_def)

text \<open>The answer to a denial that has one challenge.\<close>

lemma default_answer:
  assumes "\<not> ae_with_bearer ae" and "200 \<le> ae_status ae"
  shows "resp_status (default_error_handler up realm meta (AuthError ae) new_response) = Some (ae_status ae)"
    and "header_values (resp_header (default_error_handler up realm meta (AuthError ae) new_response)) ''WWW-Authenticate''
      = [build_challenge up ae realm meta]"
proof -
  have "header_values (resp_header new_response) ''WWW-Authenticate'' = []" "resp_status new_response = None"
    by (simp_all add: header_values_def new_response_def no_header_def)
  with assms show "resp_status (default_error_handler up realm meta (AuthError ae) new_response) = Some (ae_status ae)"
    "header_values (resp_header (default_error_handler up realm meta (AuthError ae) new_response)) ''WWW-Authenticate''
      = [build_challenge up ae realm meta]"
    by (simp_all add: default_error_handler_status default_error_handler_challenge)
qed

section \<open>Denials\<close>

text \<open>The errors of the DPoP stage.\<close>

definition dpop_error :: "auth_error \<Rightarrow> bool" where
  "dpop_error ae \<longleftrightarrow> ae_status ae = 401 \<and> ae_scheme ae = ''DPoP''
     \<and> (ae_audit_kind ae = [] \<or> ae_audit_kind ae = EventJTIReplay)
     \<and> (ae_audit_outcome ae = [] \<or> ae_audit_outcome ae = OutcomeError)"

lemma dpop_error_simps [simp]:
  "dpop_error (errInvalidDPoPProof s)"
  "dpop_error (errWrongScheme algs)"
  "dpop_error ((errUseDPoPNonce algs)\<lparr>ae_nonce := n\<rparr>)"
  "dpop_error ((errInvalidDPoPProof s)\<lparr>ae_audit_outcome := OutcomeError\<rparr>)"
  "dpop_error ((errInvalidDPoPProof s)\<lparr>ae_audit_kind := EventJTIReplay\<rparr>)"
  by (simp_all add: dpop_error_def auth_error_defs)

lemma check_proof_claims_error: "check_proof_claims mw r tok c p w = (Some ae, w') \<Longrightarrow> dpop_error ae"
  by (auto simp: check_proof_claims_def Let_def split: if_splits prod.splits)

lemma check_nonce_error: "check_nonce mw r p w = (Some ae, w') \<Longrightarrow> dpop_error ae"
  by (auto simp: check_nonce_def Let_def split: option.splits if_splits prod.splits)

lemma check_replay_error: "check_replay mw p w = (Some ae, w') \<Longrightarrow> dpop_error ae"
  by (auto simp: check_replay_def split: prod.splits sum.splits bool.splits)

lemma verify_proof_error: "verify_proof J mw r tok c w = (Some ae, w') \<Longrightarrow> dpop_error ae"
  by (auto simp: verify_proof_def split: if_splits list.splits sum.splits prod.splits option.splits
      dest: check_proof_claims_error check_nonce_error check_replay_error)

lemma gate_bearer_error: "gate_bearer mw r c = Some ae \<Longrightarrow> dpop_error ae"
  by (auto simp: gate_bearer_def split: if_splits)

lemma verify_dpop_error: "verify_dpop J mw r tok c s w = (Some ae, w') \<Longrightarrow> dpop_error ae"
  by (auto simp: verify_dpop_def split: if_splits dest: verify_proof_error gate_bearer_error)

text \<open>
  \<open>remembers w w'\<close>: from \<open>w\<close> to \<open>w'\<close> the clock has not gone back, and the replay cache has
  forgotten no jti whose expiry is after every reading of the clock in between. \<open>heard w w'\<close>: in
  addition, nothing was emitted.
\<close>

definition remembers :: "('s, 'e) world \<Rightarrow> ('s, 'e) world \<Rightarrow> bool" where
  "remembers w w' \<longleftrightarrow> later w w'
     \<and> (\<forall>j x. mr_seen (w_mem w) j = Some x
          \<longrightarrow> (\<forall>i. w_tick w \<le> i \<longrightarrow> i < w_tick w' \<longrightarrow> w_clock w i < x)
          \<longrightarrow> mr_seen (w_mem w') j = Some x)"

definition heard :: "('s, 'e) world \<Rightarrow> ('s, 'e) world \<Rightarrow> bool" where
  "heard w w' \<longleftrightarrow> remembers w w' \<and> w_audit w' = w_audit w"

lemma remembers_refl [simp]: "remembers w w"
  by (simp add: remembers_def)

lemma remembers_trans: "remembers u v \<Longrightarrow> remembers v w \<Longrightarrow> remembers u w"
  by (auto simp: remembers_def later_def)

lemma remembers_same: "later w w' \<Longrightarrow> w_mem w' = w_mem w \<Longrightarrow> remembers w w'"
  by (simp add: remembers_def)

lemma heard_remembers: "heard w w' \<Longrightarrow> remembers w w'"
  by (simp add: heard_def)

lemma heard_later: "heard w w' \<Longrightarrow> later w w'"
  by (simp add: heard_def remembers_def)

lemma heard_refl [simp]: "heard w w"
  by (simp add: heard_def)

lemma heard_trans: "heard u v \<Longrightarrow> heard v w \<Longrightarrow> heard u w"
  by (auto simp: heard_def intro: remembers_trans)

lemma quiet_heard: "quiet w w' \<Longrightarrow> heard w w'"
  by (simp add: quiet_def heard_def remembers_def)

lemma heard_ext [simp]: "heard w (w'\<lparr>w_ext := e\<rparr>) \<longleftrightarrow> heard w w'"
  by (simp add: heard_def remembers_def later_def)

lemma heard_tick [simp]: "heard w (w\<lparr>w_tick := Suc (w_tick w)\<rparr>)"
  by (simp add: heard_def remembers_def later_def)

lemma emit_remembers: "remembers w (emit mw r ev c w)"
  by (rule remembers_same) (auto simp: emit_def now_def later_def Let_def split: option.split)

lemma mem_seen_heard: "mem_seen j x w = (b, w') \<Longrightarrow> heard w w'"
  using mem.keeps [of "w_mem w"]
  by (auto simp: mem_seen_def now_def heard_def remembers_def later_def Let_def split: prod.splits)
    (metis le_refl lessI snd_conv)

text \<open>A denial: one event, then the error handler.\<close>

definition denial ::
  "('s, 'e) bearer_mw \<Rightarrow> request \<Rightarrow> response \<Rightarrow> ('s, 'e) world \<Rightarrow> response \<Rightarrow> ('s, 'e) world \<Rightarrow> bool" where
  "denial mw r rsp w rsp' w' \<longleftrightarrow>
     (\<exists>ae ev c w1. heard w w1 \<and> (rsp', w') = deny mw r ae ev c rsp w1
        \<and> ae_status ae \<in> {401, 403}
        \<and> ev_kind ev \<in> {EventTokenRejected, EventDPoPRejected, EventJTIReplay}
        \<and> ev_outcome ev \<in> {[], OutcomeError})"

lemma denialI:
  assumes "heard w w1" and "deny mw r ae ev c rsp w1 = (rsp', w')" and "ae_status ae \<in> {401, 403}"
    and "ev_kind ev \<in> {EventTokenRejected, EventDPoPRejected, EventJTIReplay}"
    and "ev_outcome ev \<in> {[], OutcomeError}"
  shows "denial mw r rsp w rsp' w'"
  using assms unfolding denial_def by metis

lemma denial_heard: "heard w w1 \<Longrightarrow> denial mw r rsp w1 rsp' w' \<Longrightarrow> denial mw r rsp w rsp' w'"
  unfolding denial_def by (meson heard_trans)

text \<open>What every event carries.\<close>

definition about :: "('s, 'e) bearer_mw \<Rightarrow> request \<Rightarrow> event \<Rightarrow> bool" where
  "about mw r ev \<longleftrightarrow> ev_resource ev = mw_resource mw
     \<and> ev_http ev = \<lparr>hc_method = req_method r, hc_path = req_path r,
         hc_remote_addr = req_remote_addr r, hc_user_agent = user_agent r\<rparr>"

lemma emit_audit:
  "\<exists>ev'. w_audit (emit mw r ev c w) = w_audit w @ [ev'] \<and> about mw r ev'
     \<and> ev_kind ev' = ev_kind ev \<and> ev_outcome ev' = ev_outcome ev \<and> ev_error ev' = ev_error ev
     \<and> ev_reason ev' = ev_reason ev \<and> ev_timestamp ev' = w_clock w (w_tick w)
     \<and> (\<forall>cl. c = Some cl \<longrightarrow> ev_subject ev' = cl_subject cl \<and> ev_issuer ev' = cl_issuer cl
          \<and> ev_audience ev' = cl_audience cl \<and> ev_scope ev' = cl_scope cl)"
  by (cases c) (simp_all add: emit_def now_def Let_def about_def)

lemma denial_audit:
  assumes "denial mw r rsp w rsp' w'"
  shows "\<exists>ev. w_audit w' = w_audit w @ [ev] \<and> about mw r ev
    \<and> ev_kind ev \<in> {EventTokenRejected, EventDPoPRejected, EventJTIReplay}
    \<and> ev_outcome ev \<in> {OutcomeDeny, OutcomeError}"
proof -
  obtain ae ev c w1 where h: "heard w w1" and d: "(rsp', w') = deny mw r ae ev c rsp w1"
    and k: "ev_kind ev \<in> {EventTokenRejected, EventDPoPRejected, EventJTIReplay}"
    and o: "ev_outcome ev \<in> {[], OutcomeError}"
    using assms unfolding denial_def by blast
  let ?e = "if ev_outcome ev = [] then ev\<lparr>ev_outcome := OutcomeDeny\<rparr> else ev"
  have w': "w' = emit mw r ?e c w1" using d by (simp add: deny_def Let_def)
  have a: "w_audit w1 = w_audit w" using h by (simp add: heard_def)
  have e: "ev_kind ?e = ev_kind ev" "ev_outcome ?e \<in> {OutcomeDeny, OutcomeError}"
    using o by auto
  show ?thesis
    using emit_audit [of mw r ?e c w1] e k unfolding w' a by metis
qed

lemma denial_response:
  assumes "denial mw r rsp w rsp' w'"
  shows "\<exists>ae. rsp' = mw_on_error mw r (AuthError ae) rsp \<and> ae_status ae \<in> {401, 403}"
  using assms unfolding denial_def deny_def Let_def by (metis Pair_inject)

section \<open>Configurations that emit nothing of their own\<close>

text \<open>
  A configuration whose key source, replay cache and nonce source leave the audit log alone: the
  library's own do, and what a caller supplies is asked to.
\<close>

locale pipeline = key_source "mw_keys mw" for mw :: "('s, 'e) bearer_mw" +
  assumes replay_heard: "mw_replay mw j x w = (b, w') \<Longrightarrow> heard w w'"
    and nonce_heard: "mw_nonce mw = Some src \<Longrightarrow> ns_valid src r n w = (ok, w') \<Longrightarrow> heard w w'"
    and challenge_heard: "mw_nonce mw = Some src \<Longrightarrow> ns_current src r w = (n, w') \<Longrightarrow> heard w w'"
begin

lemma verify_heard: "verify J (verifier_of mw) raw w = (v, w') \<Longrightarrow> heard w w'"
  using verify_quiet by (blast intro: quiet_heard)

lemma check_proof_claims_heard: "check_proof_claims mw r tok c p w = (a, w') \<Longrightarrow> heard w w'"
  by (auto simp: check_proof_claims_def now_def split: if_splits)

lemma check_nonce_heard:
  assumes "check_nonce mw r p w = (a, w')"
  shows "heard w w'"
proof (cases "mw_nonce mw")
  case None
  with assms show ?thesis by (simp add: check_nonce_def)
next
  case (Some src)
  obtain ok w1 where v: "(if dp_nonce p = [] then (False, w) else ns_valid src r (dp_nonce p) w) = (ok, w1)"
    by fastforce
  then have h: "heard w w1" using nonce_heard [OF Some] by (auto split: if_splits)
  obtain n w2 where c: "ns_current src r w1 = (n, w2)" by fastforce
  show ?thesis
    using assms Some v c h challenge_heard [OF Some c]
    by (auto simp: check_nonce_def split: if_splits intro: heard_trans)
qed

lemma check_replay_heard: "check_replay mw p w = (a, w') \<Longrightarrow> heard w w'"
  by (auto simp: check_replay_def split: prod.splits sum.splits bool.splits dest: replay_heard)

lemma verify_proof_heard:
  assumes "verify_proof J mw r tok c w = (a, w')"
  shows "heard w w'"
proof (cases "\<exists>raw p. header_values (req_header r) ''DPoP'' = [raw]
    \<and> parse_and_verify_proof J raw (mw_dpop_algs mw) = Inr p \<and> bound_key_thumbprint c \<noteq> []")
  case False
  with assms show ?thesis
    by (auto simp: verify_proof_def split: if_splits list.splits sum.splits)
next
  case True
  then obtain raw p where h: "header_values (req_header r) ''DPoP'' = [raw]"
      "parse_and_verify_proof J raw (mw_dpop_algs mw) = Inr p" "bound_key_thumbprint c \<noteq> []"
    by blast
  obtain x w1 where x: "check_proof_claims mw r tok c p w = (x, w1)" by fastforce
  obtain y w2 where y: "check_nonce mw r p w1 = (y, w2)" by fastforce
  obtain z w3 where z: "check_replay mw p w2 = (z, w3)" by fastforce
  note q = check_proof_claims_heard [OF x] check_nonce_heard [OF y] check_replay_heard [OF z]
  have "w' = w1 \<or> w' = w2 \<or> w' = w3"
    using assms h x y z by (auto simp: verify_proof_def split: option.splits)
  with q show ?thesis by (metis heard_trans)
qed

lemma verify_dpop_heard: "verify_dpop J mw r tok c s w = (a, w') \<Longrightarrow> heard w w'"
  by (auto simp: verify_dpop_def split: if_splits dest: verify_proof_heard)

lemma sender_ok_heard:
  assumes "sender_ok J mw r tok c s w w'"
  shows "heard w w'"
proof (cases "s = ''DPoP''")
  case True
  with assms have "verify_proof J mw r tok c w = (None, w')"
    by (auto simp: sender_ok_def verify_proof_None)
  then show ?thesis by (rule verify_proof_heard)
qed (use assms in \<open>simp add: sender_ok_def\<close>)

lemma admits_heard:
  assumes "admits J mw r s raw c w w'"
  shows "heard w w'"
proof -
  obtain w1 e where "verify J (verifier_of mw) raw w = (Inr c, w1)"
    and s: "sender_ok J mw r raw c s (w1\<lparr>w_ext := e\<rparr>) w'"
    using assms unfolding admits_def by blast
  then have "heard w (w1\<lparr>w_ext := e\<rparr>)" using verify_heard by simp
  with sender_ok_heard [OF s] show ?thesis by (rule heard_trans [rotated])
qed

lemma authenticate_None:
  assumes "authenticate J mw r rsp w = (None, rsp', w')"
  shows "denial mw r rsp w rsp' w'"
proof (cases "extract_token r")
  case None
  then have "deny mw r (no_token_error mw) (rejected [] [] ''no token'') None rsp w = (rsp', w')"
    using assms by (simp add: authenticate_def)
  then show ?thesis
    by (rule denialI [OF heard_refl])
      (simp_all add: no_token_error_def auth_error_defs rejected_def split: dpop_mode.split)
next
  case (Some st)
  obtain s t where st: "st = (s, t)" by (cases st)
  show ?thesis
  proof (cases "s = ''DPoP'' \<and> mw_dpop_mode mw = DPoPOff")
    case True
    then have "deny mw r errNoToken (rejected [] [] ''DPoP not enabled'') None rsp w = (rsp', w')"
      using assms Some st by (simp add: authenticate_def)
    then show ?thesis
      by (rule denialI [OF heard_refl]) (simp_all add: auth_error_defs rejected_def)
  next
    case on: False
    obtain v w1 where v: "verify J (verifier_of mw) t w = (v, w1)" by fastforce
    note h = verify_heard [OF v]
    have "\<exists>ae ev c x. deny mw r ae ev c rsp (w1\<lparr>w_ext := x\<rparr>) = (rsp', w')
        \<and> ae_status ae \<in> {401, 403} \<and> ev_kind ev = EventTokenRejected \<and> ev_outcome ev \<in> {[], OutcomeError}"
    proof (cases v)
      case (Inl ve)
      with assms Some st on v show ?thesis
        by (cases "ve_kind ve"; intro exI [of _ "w_ext w1"] exI)
          (auto simp: authenticate_def rejected_def auth_error_defs)
    next
      case (Inr c)
      obtain e x where ex: "(case mw_claim_val mw of None \<Rightarrow> (None, w_ext w1)
                          | Some val \<Rightarrow> val c (w_ext w1)) = (e, x)" by fastforce
      show ?thesis
      proof (cases "audience_matches (cl_audience c) (mw_audiences mw)
          \<and> missing_scopes (cl_scope c) (mw_required_scope mw) = []")
        case True
        with assms Some st on v Inr ex show ?thesis
          by (cases e; intro exI [of _ x] exI)
            (auto simp: authenticate_def rejected_def auth_error_defs)
      next
        case False
        with assms Some st on v Inr show ?thesis
          by (cases "audience_matches (cl_audience c) (mw_audiences mw)"; intro exI [of _ "w_ext w1"] exI)
            (auto simp: authenticate_def rejected_def auth_error_defs)
      qed
    qed
    then show ?thesis
      using h by (auto intro!: denialI [of w "w1\<lparr>w_ext := x\<rparr>" for x])
  qed
qed

lemma enforce_dpop_False:
  assumes "enforce_dpop J mw r tok c s rsp w = (False, rsp', w')"
  shows "denial mw r rsp w rsp' w'"
proof (cases "mw_dpop_mode mw = DPoPOff")
  case True
  show ?thesis
    by (rule denialI [OF heard_refl, of mw r "errWrongScheme (mw_dpop_algs_list mw)" _ "Some c"])
      (use assms True in \<open>auto simp: enforce_dpop_def auth_error_defs empty_event_def split: if_splits\<close>)
next
  case False
  obtain a w1 where v: "verify_dpop J mw r tok c s w = (a, w1)" by fastforce
  with assms False obtain ae where ae: "a = Some ae" by (cases a) (auto simp: enforce_dpop_def)
  then have e: "dpop_error ae" using v verify_dpop_error by blast
  show ?thesis
    by (rule denialI [OF verify_dpop_heard [OF v], of mw r ae _ "Some c"])
      (use assms False v ae e in \<open>auto simp: enforce_dpop_def dpop_error_def\<close>)
qed

lemma guard_None:
  assumes "guard J mw r rsp w = (None, rsp', w')"
  shows "denial mw r rsp w rsp' w'"
proof -
  obtain a rsp1 w1 where a: "authenticate J mw r rsp w = (a, rsp1, w1)" by (metis prod_cases3)
  show ?thesis
  proof (cases a)
    case None
    then show ?thesis using assms a authenticate_None by (simp add: guard_def)
  next
    case (Some t)
    obtain c raw s where t: "t = (c, raw, s)" by (metis prod_cases3)
    obtain ok rsp2 w2 where e: "enforce_dpop J mw r raw c s rsp1 w1 = (ok, rsp2, w2)" by (metis prod_cases3)
    have n: "\<not> ok" "rsp2 = rsp'" "w2 = w'"
      using assms a Some t e by (auto simp: guard_def split: bool.splits)
    have au: "authenticate J mw r rsp w = (Some (c, raw, s), rsp1, w1)" using a Some t by simp
    then obtain w0 x where "rsp1 = rsp" and "verify J (verifier_of mw) raw w = (Inr c, w0)"
      and "w1 = w0\<lparr>w_ext := x\<rparr>"
      unfolding authenticate_Some by blast
    then have "heard w w1" "rsp1 = rsp" using verify_heard by simp_all
    moreover have "denial mw r rsp1 w1 rsp' w'" using enforce_dpop_False e n by simp
    ultimately show ?thesis using denial_heard by blast
  qed
qed

text \<open>The events of an admission: the proof, if there was one, then the token.\<close>

lemma guard_Some_audit:
  assumes "guard J mw r rsp w = (Some c, rsp', w')" and "extract_token r = Some (s, raw)"
  shows "\<exists>evs. w_audit w' = w_audit w @ evs
    \<and> map ev_kind evs = (if s = ''DPoP'' then [EventDPoPVerified, EventTokenValidated]
                         else [EventTokenValidated])
    \<and> (\<forall>ev \<in> set evs. about mw r ev \<and> ev_outcome ev = OutcomeAllow
         \<and> ev_subject ev = cl_subject c \<and> ev_issuer ev = cl_issuer c)"
proof -
  obtain w2 where ad: "admits J mw r s raw c w w2" and w': "w' = allow_events mw r c s w2"
    using assms unfolding guard_Some admits_def by auto
  have h: "w_audit w2 = w_audit w" using admits_heard [OF ad] by (simp add: heard_def)
  obtain e1 where e1: "w_audit (emit mw r (allowed EventDPoPVerified) (Some c) w2) = w_audit w @ [e1]"
    "about mw r e1" "ev_kind e1 = EventDPoPVerified" "ev_outcome e1 = OutcomeAllow"
    "ev_subject e1 = cl_subject c" "ev_issuer e1 = cl_issuer c"
    using emit_audit [of mw r "allowed EventDPoPVerified" "Some c" w2] h by (auto simp: allowed_def)
  define w3 where "w3 = (if s = ''DPoP'' then emit mw r (allowed EventDPoPVerified) (Some c) w2 else w2)"
  obtain e2 where e2: "w_audit w' = w_audit w3 @ [e2]"
    "about mw r e2" "ev_kind e2 = EventTokenValidated" "ev_outcome e2 = OutcomeAllow"
    "ev_subject e2 = cl_subject c" "ev_issuer e2 = cl_issuer c"
    using emit_audit [of mw r "allowed EventTokenValidated" "Some c" w3] w'
    by (auto simp: allowed_def allow_events_def w3_def Let_def)
  show ?thesis
  proof (cases "s = ''DPoP''")
    case True
    then show ?thesis using e1 e2 by (intro exI [of _ "[e1, e2]"]) (simp add: w3_def)
  next
    case False
    then show ?thesis using e2 h by (intro exI [of _ "[e2]"]) (simp add: w3_def)
  qed
qed

end

section \<open>The library's own parts\<close>

lemma hmac_heard:
  "ns_valid (new_dpop_nonce_source s) r n w = (b, w') \<Longrightarrow> heard w w'"
  "ns_current (new_dpop_nonce_source s) r w = (n, w') \<Longrightarrow> heard w w'"
  by (auto simp: new_dpop_nonce_source_def hmac_valid_def hmac_current_def now_def heard_def
      remembers_def later_def Let_def)

interpretation library_parts: pipeline
  "mw\<lparr>mw_keys := remote_lookup J uri ttl, mw_replay := mem_seen,
      mw_nonce := Some (new_dpop_nonce_source secret)\<rparr>"
  by unfold_locales
    (auto dest: remote_keys.lookup_quiet remote_keys.lookup_ext mem_seen_heard hmac_heard)

text \<open>Every middleware that \<open>RequireBearer\<close> builds from them.\<close>

lemma resolve_key_source_quiet: "resolve_key_source J keys uri ttl = Inr ks \<Longrightarrow> key_source ks"
  by (auto simp: resolve_key_source_def split: option.splits sum.splits
      intro: static_keys.key_source_axioms remote_keys.key_source_axioms)

lemma configure_pipeline:
  assumes "configure J opts = Inr mw"
    and "bo_dpop_replay opts = None"
    and "bo_dpop_nonce opts = None \<or> (\<exists>s. bo_dpop_nonce opts = Some (new_dpop_nonce_source s))"
  shows "pipeline mw"
proof -
  obtain algs ks d where ks: "resolve_key_source J (bo_keys_jwks opts) (bo_jwks_uri opts)
      (bo_jwks_cache_ttl opts) = Inr ks"
    and d: "build_dpop_runtime J opts = Inr d"
    and mw: "mw_keys mw = ks" "mw_replay mw = dr_replay d" "mw_nonce mw = bo_dpop_nonce opts"
    using configure_InrD [OF assms(1)] by blast
  have r: "dr_replay d = mem_seen \<or> dr_replay d = (\<lambda>_ _ w. (Inl ''nil'', w))"
    using d assms(2) by (auto simp: build_dpop_runtime_def Let_def split: if_splits)
  show ?thesis
    using resolve_key_source_quiet [OF ks] r assms(3)
    unfolding pipeline_def pipeline_axioms_def mw
    by (auto dest: mem_seen_heard hmac_heard)
qed

lemma configure_mem_seen:
  assumes "configure J opts = Inr mw" and "bo_dpop opts \<noteq> DPoPOff" and "bo_dpop_replay opts = None"
  shows "mw_replay mw = mem_seen"
  using configure_InrD [OF assms(1)] assms(2,3) by (auto simp: build_dpop_runtime_def Let_def)

end
