(* ===== verification/ExchangeValidator.thy ===== *)
theory ExchangeValidator
  imports ExchangeTypes Outcomes
begin

text \<open>
  The server side of an RFC 8693 token exchange (exchange_validator.go): the construction of a
  validator, the authorization of an inbound request, and the writing of the response.
\<close>

section \<open>Options and the grant\<close>

text \<open>
  \<open>ExchangeGrant\<close>. A nil \<open>Act\<close> is \<open>None\<close>. \<open>map[string]any\<close> values are JSON trees in which each
  key of an object occurs once; a number stands for the float64 nearest to its literal.
\<close>

record exchange_grant =
  eg_subject :: claims
  eg_actor :: "claims option"
  eg_is_delegation :: bool
  eg_requested_audience :: "string list"
  eg_requested_scope :: "string list"
  eg_requested_resource :: "string list"
  eg_requested_token_type :: string
  eg_act :: "(string \<times> json) list option"
  eg_confirmation :: string

text \<open>
  \<open>ExchangePolicy\<close>: the caller's code. It may narrow the grant it is given a pointer to, and change
  its own state.
\<close>

type_synonym 'e exchange_policy = "exchange_grant \<Rightarrow> 'e \<Rightarrow> exchange_failure option \<times> exchange_grant \<times> 'e"

record 'e exchange_validator_options =
  vo_keys_jwks :: "bytes option"
  vo_jwks_uri :: string
  vo_issuer :: string
  vo_jwks_cache_ttl :: duration
  vo_allowed_algorithms :: "string list"
  vo_clock_skew :: duration
  vo_policy :: "'e exchange_policy option"
  vo_audience :: "string list"

record ('s, 'e) exchange_validator =
  ev_verifier :: "('s, 'e) token_verifier"
  ev_policy :: "'e exchange_policy option"
  ev_audiences :: "string list"

definition new_exchange_validator ::
  "('k, 's) jose \<Rightarrow> 'e exchange_validator_options \<Rightarrow> ('s, 'e) exchange_validator result" where
  "new_exchange_validator J opts =
     (if vo_keys_jwks opts = None \<and> vo_jwks_uri opts = []
      then Inl ''aoa: ExchangeValidatorOptions requires KeysJWKS or JWKSURI''
      else if vo_issuer opts = [] then Inl ''aoa: ExchangeValidatorOptions.Issuer is required''
      else
        bind_res (parse_algs J (vo_allowed_algorithms opts)) (\<lambda>algs.
        bind_res (resolve_key_source J (vo_keys_jwks opts) (vo_jwks_uri opts) (vo_jwks_cache_ttl opts)) (\<lambda>ks.
          Inr \<lparr>ev_verifier = \<lparr>tv_keys = ks, tv_issuer = vo_issuer opts,
                 tv_skew = (if vo_clock_skew opts = 0 then 60 * second else vo_clock_skew opts),
                 tv_algs = algs\<rparr>,
               ev_policy = vo_policy opts, ev_audiences = vo_audience opts\<rparr>)))"

section \<open>may_act\<close>

text \<open>
  \<open>mayActAllows\<close>. A \<open>json.RawMessage\<close> field keeps the text of the last member with its name, null
  included; the text is decoded again, so the model keeps its tree.
\<close>

definition dec_may_act :: "string \<Rightarrow> json \<Rightarrow> json option \<Rightarrow> json option option" where
  "dec_may_act k v p = (if key_is ''may_act'' k then Some (Some v) else Some p)"

definition dec_sub :: "string \<Rightarrow> json \<Rightarrow> string \<Rightarrow> string option" where
  "dec_sub k v sub = (if key_is ''sub'' k then dec_string v sub else Some sub)"

definition may_act_allows :: "claims \<Rightarrow> string \<Rightarrow> bool" where
  "may_act_allows subject actor =
     (case decode_claims dec_may_act None subject of
        None \<Rightarrow> True
      | Some None \<Rightarrow> True
      | Some (Some v) \<Rightarrow>
          (case dec_struct dec_sub v [] of
             None \<Rightarrow> False
           | Some sub \<Rightarrow> if sub = [] then False else sub = actor))"

section \<open>The act chain\<close>

text \<open>
  Decoding into \<open>any\<close>: a number must fit a float64 (it is rejected from half a unit above the
  largest one), and a later member of an object replaces an earlier one of the same name.
\<close>

definition digits_nat :: "string \<Rightarrow> nat" where
  "digits_nat s = foldl (\<lambda>a c. a * 10 + (byte c - 48)) 0 s"

definition float64_fits :: "string \<Rightarrow> bool" where
  "float64_fits l =
     (let l1 = trim_prefix ''-'' l;
          ip = takeWhile is_digit l1; r1 = drop (length ip) l1;
          fp = (if prefix ''.'' r1 then takeWhile is_digit (tl r1) else []);
          r2 = (if prefix ''.'' r1 then drop (length fp) (tl r1) else r1);
          ex = (case r2 of
                  [] \<Rightarrow> 0
                | _ # e \<Rightarrow> if prefix ''-'' e then - int (digits_nat (tl e))
                           else int (digits_nat (trim_prefix ''+'' e)));
          m = digits_nat (ip @ fp); x = ex - int (length fp);
          limit = (2 ^ 54 - 1) * 2 ^ 970
      in if 0 \<le> x then m * 10 ^ nat x < limit else m < limit * 10 ^ nat (- x))"

fun to_any :: "json \<Rightarrow> json option"
  and any_list :: "json list \<Rightarrow> json list option"
  and any_members :: "(string \<times> json) list \<Rightarrow> (string \<times> json) list \<Rightarrow> (string \<times> json) list option" where
  "to_any (JNum l) = (if float64_fits l then Some (JNum l) else None)"
| "to_any (JArr vs) = map_option JArr (any_list vs)"
| "to_any (JObj ms) = map_option JObj (any_members ms [])"
| "to_any v = Some v"
| "any_list [] = Some []"
| "any_list (v # vs) =
     (case (to_any v, any_list vs) of (Some a, Some as) \<Rightarrow> Some (a # as) | _ \<Rightarrow> None)"
| "any_members [] m = Some m"
| "any_members ((k, v) # ms) m =
     (case to_any v of None \<Rightarrow> None | Some a \<Rightarrow> any_members ms (AList.update k a m))"

text \<open>The field \<open>Act map[string]any\<close>: null makes it nil, an object is merged into what is there.\<close>

definition dec_act ::
  "string \<Rightarrow> json \<Rightarrow> (string \<times> json) list option \<Rightarrow> (string \<times> json) list option option" where
  "dec_act k v act =
     (if key_is ''act'' k then
        (case v of
           JNull \<Rightarrow> Some None
         | JObj ms \<Rightarrow> map_option Some (any_members ms (or_zero [] act))
         | _ \<Rightarrow> None)
      else Some act)"

definition build_act_chain :: "string \<Rightarrow> claims \<Rightarrow> (string \<times> json) list" where
  "build_act_chain actor subject =
     [(''sub'', JStr actor)]
     @ (case decode_claims dec_act None subject of
          Some (Some act) \<Rightarrow> if act = [] then [] else [(''act'', JObj act)]
        | _ \<Rightarrow> [])"

section \<open>Validate\<close>

definition exchange_emit :: "event \<Rightarrow> ('s, 'e) world \<Rightarrow> ('s, 'e) world" where
  "exchange_emit ev w = (let (t, w1) = now w in emit_event (ev\<lparr>ev_timestamp := t\<rparr>) w1)"

definition exchange_deny ::
  "exchange_error \<Rightarrow> ('s, 'e) world \<Rightarrow> (exchange_error + exchange_grant) \<times> ('s, 'e) world" where
  "exchange_deny ee w =
     (Inl ee, exchange_emit (empty_event\<lparr>ev_kind := EventTokenExchanged, ev_outcome := OutcomeDeny,
                ev_error := xe_code ee, ev_reason := xe_description ee\<rparr>) w)"

text \<open>The checks of the form, in order: the subject token and the actor token.\<close>

definition check_exchange_form :: "bool \<times> form_values \<Rightarrow> exchange_error + string \<times> string" where
  "check_exchange_form pf =
     (let (ok, f) = pf in
      if \<not> ok then Inl (exchange_error_of ''invalid_request'' ''unparseable form'')
      else if form_get f ''grant_type'' \<noteq> grant_type_token_exchange
      then Inl (exchange_error_of ''unsupported_grant_type'' [])
      else if form_get f ''subject_token'' = [] \<or> form_get f ''subject_token_type'' = []
      then Inl (exchange_error_of ''invalid_request'' ''subject_token and subject_token_type are required'')
      else if form_get f ''actor_token'' \<noteq> [] \<and> form_get f ''actor_token_type'' = []
      then Inl (exchange_error_of ''invalid_request'' ''actor_token_type is required with actor_token'')
      else Inr (form_get f ''subject_token'', form_get f ''actor_token''))"

text \<open>The verification of one of the two tokens, and the audience check that follows it.\<close>

definition verify_party ::
  "('k, 's) jose \<Rightarrow> ('s, 'e) exchange_validator \<Rightarrow> string \<Rightarrow> string \<Rightarrow> ('s, 'e) world
     \<Rightarrow> (exchange_error + claims) \<times> ('s, 'e) world" where
  "verify_party J v which tok w =
     (case verify J (ev_verifier v) tok w of
        (Inl _, w1) \<Rightarrow> (Inl (exchange_error_of ''invalid_grant'' (which @ '' invalid'')), w1)
      | (Inr c, w1) \<Rightarrow>
          if ev_audiences v \<noteq> [] \<and> \<not> audience_matches (cl_audience c) (ev_audiences v)
          then (Inl (exchange_error_of ''invalid_grant'' (which @ '' audience not accepted'')), w1)
          else (Inr c, w1))"

definition impersonation_grant :: "form_values \<Rightarrow> claims \<Rightarrow> exchange_grant" where
  "impersonation_grant f subject =
     \<lparr>eg_subject = subject, eg_actor = None, eg_is_delegation = False,
      eg_requested_audience = values_of f ''audience'',
      eg_requested_scope = str_fields (form_get f ''scope''),
      eg_requested_resource = values_of f ''resource'',
      eg_requested_token_type = form_get f ''requested_token_type'',
      eg_act = None, eg_confirmation = bound_key_thumbprint subject\<rparr>"

text \<open>The branch on the actor token.\<close>

definition with_actor ::
  "('k, 's) jose \<Rightarrow> ('s, 'e) exchange_validator \<Rightarrow> string \<Rightarrow> exchange_grant \<Rightarrow> ('s, 'e) world
     \<Rightarrow> (exchange_error + exchange_grant) \<times> ('s, 'e) world" where
  "with_actor J v actor_token g w =
     (let subject = eg_subject g in
      if actor_token \<noteq> [] then
        (case verify_party J v ''actor_token'' actor_token w of
           (Inl ee, w1) \<Rightarrow> (Inl ee, w1)
         | (Inr actor, w1) \<Rightarrow>
             if \<not> may_act_allows subject (cl_subject actor)
             then (Inl (exchange_error_of ''invalid_grant'' ''actor not permitted (may_act)''), w1)
             else (Inr (g\<lparr>eg_actor := Some actor, eg_is_delegation := True,
                          eg_act := Some (build_act_chain (cl_subject actor) subject)\<rparr>), w1))
      else if \<not> may_act_allows subject []
      then (Inl (exchange_error_of ''invalid_grant'' ''subject requires a permitted actor''), w)
      else (Inr g, w))"

definition apply_policy ::
  "('s, 'e) exchange_validator \<Rightarrow> exchange_grant \<Rightarrow> ('s, 'e) world
     \<Rightarrow> (exchange_error + exchange_grant) \<times> ('s, 'e) world" where
  "apply_policy v g w =
     (case ev_policy v of
        None \<Rightarrow> (Inr g, w)
      | Some p \<Rightarrow>
          (let (err, g1, e) = p g (w_ext w); w1 = w\<lparr>w_ext := e\<rparr> in
           case err of
             None \<Rightarrow> (Inr g1, w1)
           | Some (ExchangeFailure ee) \<Rightarrow> (Inl ee, w1)
           | Some (PlainFailure _) \<Rightarrow> (Inl (exchange_error_of ''invalid_target'' ''policy denied''), w1)))"

text \<open>
  \<open>Validate\<close>. The event of a success reports the subject that was verified and the audience and
  scope of the grant as the policy left it.
\<close>

definition validate_exchange ::
  "('k, 's) jose \<Rightarrow> ('s, 'e) exchange_validator \<Rightarrow> form_request \<Rightarrow> ('s, 'e) world
     \<Rightarrow> (exchange_error + exchange_grant) \<times> ('s, 'e) world" where
  "validate_exchange J v r w =
     (case check_exchange_form (parse_form r) of
        Inl ee \<Rightarrow> exchange_deny ee w
      | Inr (subject_token, actor_token) \<Rightarrow>
          (case verify_party J v ''subject_token'' subject_token w of
             (Inl ee, w1) \<Rightarrow> exchange_deny ee w1
           | (Inr subject, w1) \<Rightarrow>
               (case with_actor J v actor_token (impersonation_grant (snd (parse_form r)) subject) w1 of
                  (Inl ee, w2) \<Rightarrow> exchange_deny ee w2
                | (Inr g, w2) \<Rightarrow>
                    (case apply_policy v g w2 of
                       (Inl ee, w3) \<Rightarrow> exchange_deny ee w3
                     | (Inr g1, w3) \<Rightarrow>
                         (Inr g1, exchange_emit (empty_event\<lparr>ev_kind := EventTokenExchanged,
                            ev_outcome := OutcomeAllow, ev_subject := cl_subject subject,
                            ev_issuer := cl_issuer subject, ev_audience := eg_requested_audience g1,
                            ev_scope := eg_requested_scope g1\<rparr>) w3)))))"

section \<open>The response\<close>

record issued_token =
  it_access_token :: string
  it_issued_token_type :: string
  it_token_type :: string
  it_expires_in :: duration
  it_scope :: "string list"
  it_refresh_token :: string

text \<open>
  \<open>int(d.Seconds())\<close> for a positive duration. \<open>Seconds\<close> adds the whole seconds \<open>s\<close> and the rest as
  float64 values; with \<open>k\<close> the binary exponent of \<open>s\<close>, the sum rounds up to \<open>s + 1\<close> when the rest is
  within half a unit, \<open>2 ^ (k - 53)\<close>, of a second.
\<close>

fun binary_exponent :: "nat \<Rightarrow> nat" where
  "binary_exponent n = (if n < 2 then 0 else Suc (binary_exponent (n div 2)))"

declare binary_exponent.simps [simp del]

definition float_seconds :: "duration \<Rightarrow> int" where
  "float_seconds d =
     (let s = d div nanos; n = d mod nanos in
      if s = 0 \<or> n = 0 then s
      else if (nanos - n) * 2 ^ (53 - binary_exponent (nat s)) \<le> nanos then s + 1 else s)"

definition issued_members :: "issued_token \<Rightarrow> (string \<times> json) list" where
  "issued_members t =
     [(''access_token'', JStr (it_access_token t)),
      (''issued_token_type'', JStr (or_default (it_issued_token_type t))),
      (''token_type'', JStr (if it_token_type t = [] then ''Bearer'' else it_token_type t))]
     @ (if 0 < it_expires_in t then [(''expires_in'', JNum (format_int (float_seconds (it_expires_in t))))] else [])
     @ (if it_scope t \<noteq> [] then [(''scope'', JStr (join '' '' (it_scope t)))] else [])
     @ (if it_refresh_token t \<noteq> [] then [(''refresh_token'', JStr (it_refresh_token t))] else [])"

definition write_exchange_response :: "issued_token \<Rightarrow> response \<Rightarrow> unit result \<times> response" where
  "write_exchange_response t w =
     (if it_access_token t = [] then (Inl ''aoa: IssuedToken.AccessToken is required'', w)
      else (Inr (), write_body (json_line (JObj (sort_keys (issued_members t)))) (no_store_json w)))"

end
