(* ===== verification/Delegation.thy ===== *)
theory Delegation
  imports ExchangeValidator
begin

text \<open>
  What the exchange validator guarantees: which tokens it grants an exchange for, what \<open>may_act\<close>
  forbids, how the actor chain grows, and what it audits.
\<close>

section \<open>The branches of Validate\<close>

lemma verify_party_Inr:
  "verify_party J v which tok w = (Inr c, w') \<longleftrightarrow>
     verify J (ev_verifier v) tok w = (Inr c, w')
     \<and> (ev_audiences v = [] \<or> audience_matches (cl_audience c) (ev_audiences v))"
  by (cases "verify J (ev_verifier v) tok w") (auto simp: verify_party_def split: sum.splits)

lemma check_exchange_form_Inr:
  "check_exchange_form (ok, f) = Inr (st, at) \<longleftrightarrow>
     ok \<and> form_get f ''grant_type'' = grant_type_token_exchange
     \<and> st = form_get f ''subject_token'' \<and> st \<noteq> [] \<and> form_get f ''subject_token_type'' \<noteq> []
     \<and> at = form_get f ''actor_token'' \<and> (at = [] \<or> form_get f ''actor_token_type'' \<noteq> [])"
  by (auto simp: check_exchange_form_def)

lemma with_actor_Inr:
  "with_actor J v at g w = (Inr g', w') \<longleftrightarrow>
     (if at = [] then may_act_allows (eg_subject g) [] \<and> g' = g \<and> w' = w
      else \<exists>actor. verify_party J v ''actor_token'' at w = (Inr actor, w')
        \<and> may_act_allows (eg_subject g) (cl_subject actor)
        \<and> g' = g\<lparr>eg_actor := Some actor, eg_is_delegation := True,
                  eg_act := Some (build_act_chain (cl_subject actor) (eg_subject g))\<rparr>)"
  by (cases "verify_party J v ''actor_token'' at w")
    (auto simp: with_actor_def Let_def split: sum.splits)

definition policy_passes ::
  "('s, 'e) exchange_validator \<Rightarrow> exchange_grant \<Rightarrow> ('s, 'e) world \<Rightarrow> exchange_grant \<Rightarrow> bool" where
  "policy_passes v g w g' \<longleftrightarrow>
     (case ev_policy v of None \<Rightarrow> g' = g
      | Some p \<Rightarrow> fst (p g (w_ext w)) = None \<and> fst (snd (p g (w_ext w))) = g')"

lemma apply_policy_Inr:
  "(\<exists>w'. apply_policy v g w = (Inr g', w')) \<longleftrightarrow> policy_passes v g w g'"
  by (auto simp: apply_policy_def policy_passes_def Let_def
      split: option.splits prod.splits exchange_failure.splits)

text \<open>
  A grant: the form, the two verifications in their order, and the policy. \<open>g0\<close> is the grant the
  policy is shown.
\<close>

definition exchange_granted ::
  "('k, 's) jose \<Rightarrow> ('s, 'e) exchange_validator \<Rightarrow> form_request \<Rightarrow> ('s, 'e) world
     \<Rightarrow> exchange_grant \<Rightarrow> exchange_grant \<Rightarrow> bool" where
  "exchange_granted J v r w g0 g \<longleftrightarrow>
     (\<exists>f subject w1 w2.
        parse_form r = (True, f) \<and> form_get f ''grant_type'' = grant_type_token_exchange
        \<and> form_get f ''subject_token'' \<noteq> [] \<and> form_get f ''subject_token_type'' \<noteq> []
        \<and> (form_get f ''actor_token'' = [] \<or> form_get f ''actor_token_type'' \<noteq> [])
        \<and> verify_party J v ''subject_token'' (form_get f ''subject_token'') w = (Inr subject, w1)
        \<and> with_actor J v (form_get f ''actor_token'') (impersonation_grant f subject) w1 = (Inr g0, w2)
        \<and> policy_passes v g0 w2 g)"

lemma validate_exchange_Inr:
  "(\<exists>w'. validate_exchange J v r w = (Inr g, w')) \<longleftrightarrow> (\<exists>g0. exchange_granted J v r w g0 g)"
proof -
  obtain ok f where pf: "parse_form r = (ok, f)" by (cases "parse_form r")
  show ?thesis
  proof (cases "check_exchange_form (ok, f)")
    case (Inl e)
    then show ?thesis
      by (auto simp: validate_exchange_def exchange_granted_def pf exchange_deny_def
          check_exchange_form_def split: if_splits)
  next
    case (Inr p)
    obtain st at where p: "p = (st, at)" by (cases p)
    note form = Inr [unfolded p check_exchange_form_Inr]
    obtain x w1 where x: "verify_party J v ''subject_token'' st w = (x, w1)" by fastforce
    show ?thesis
    proof (cases x)
      case (Inl e)
      with x form Inr p show ?thesis
        by (auto simp: validate_exchange_def exchange_granted_def pf exchange_deny_def)
    next
      case (Inr subject)
      obtain y w2 where y: "with_actor J v at (impersonation_grant f subject) w1 = (y, w2)" by fastforce
      have g: "exchange_granted J v r w g0 g \<longleftrightarrow> y = Inr g0 \<and> policy_passes v g0 w2 g" for g0
        using form x y Inr by (auto simp: exchange_granted_def pf)
      have e: "validate_exchange J v r w
        = (case y of Inl ee \<Rightarrow> exchange_deny ee w2
           | Inr g \<Rightarrow> (case apply_policy v g w2 of
               (Inl ee, w3) \<Rightarrow> exchange_deny ee w3
             | (Inr g1, w3) \<Rightarrow> (Inr g1, exchange_emit (empty_event\<lparr>ev_kind := EventTokenExchanged,
                            ev_outcome := OutcomeAllow, ev_subject := cl_subject subject,
                            ev_issuer := cl_issuer subject, ev_audience := eg_requested_audience g1,
                            ev_scope := eg_requested_scope g1\<rparr>) w3)))"
        using \<open>check_exchange_form (ok, f) = Inr p\<close> p x y Inr
        by (simp add: validate_exchange_def pf)
      show ?thesis
      proof (cases y)
        case (Inl ee)
        then show ?thesis by (simp add: e g exchange_deny_def)
      next
        case (Inr g1)
        obtain z w3 where z: "apply_policy v g1 w2 = (z, w3)" by fastforce
        have "policy_passes v g1 w2 g \<longleftrightarrow> z = Inr g"
          using z by (auto simp flip: apply_policy_Inr)
        then show ?thesis
          by (cases z) (auto simp: e g Inr z exchange_deny_def)
      qed
    qed
  qed
qed

section \<open>The two parties\<close>

text \<open>
  What the validator knows of a party it accepted: its token has an asymmetric algorithm and names
  the configured issuer and, when audiences are configured, one of them; it had not expired at a
  reading of the clock during the call, up to the skew; and its payload is the token's.
\<close>

definition trusted_party ::
  "('k, 's) jose \<Rightarrow> 'e exchange_validator_options \<Rightarrow> duration \<Rightarrow> ('s, 'e) world \<Rightarrow> string \<Rightarrow> claims \<Rightarrow> bool" where
  "trusted_party J opts skew w tok c \<longleftrightarrow>
     (\<exists>kid alg. header_kid_alg J tok = Inr (kid, alg) \<and> asymmetric J alg)
     \<and> cl_issuer c = vo_issuer opts
     \<and> (vo_audience opts = [] \<or> (\<exists>a \<in> set (cl_audience c). a \<in> set (vo_audience opts)))
     \<and> (cl_expiry c = zero_time \<or> (\<exists>i \<ge> w_tick w. w_clock w i - skew < cl_expiry c))
     \<and> cl_raw c = token_payload tok"

lemma new_exchange_validator_Inr:
  assumes "new_exchange_validator J opts = Inr v"
  shows "\<exists>algs ks. parse_algs J (vo_allowed_algorithms opts) = Inr algs \<and> key_source ks
    \<and> ev_verifier v = \<lparr>tv_keys = ks, tv_issuer = vo_issuer opts,
         tv_skew = (if vo_clock_skew opts = 0 then 60 * second else vo_clock_skew opts), tv_algs = algs\<rparr>
    \<and> ev_policy v = vo_policy opts \<and> ev_audiences v = vo_audience opts"
  using assms
  by (auto simp: new_exchange_validator_def split: if_splits intro: resolve_key_source_quiet)

lemma verify_party_trusted:
  assumes v: "new_exchange_validator J opts = Inr v" and J: "jwt_validates J"
    and p: "verify_party J v which tok w = (Inr c, w')"
  shows "trusted_party J opts (tv_skew (ev_verifier v)) w tok c" and "quiet w w'" and "w_ext w' = w_ext w"
proof -
  obtain algs ks where algs: "parse_algs J (vo_allowed_algorithms opts) = Inr algs" and ks: "key_source ks"
    and ver: "tv_keys (ev_verifier v) = ks" "tv_issuer (ev_verifier v) = vo_issuer opts"
      "tv_algs (ev_verifier v) = algs" and aud: "ev_audiences v = vo_audience opts"
    using new_exchange_validator_Inr [OF v] by auto
  have vfy: "verify J (ev_verifier v) tok w = (Inr c, w')"
    and a: "vo_audience opts = [] \<or> audience_matches (cl_audience c) (vo_audience opts)"
    using p unfolding verify_party_Inr aud by blast+
  obtain kid alg k x t where h: "header_kid_alg J tok = Inr (kid, alg)" "alg \<in> set algs"
    "ks kid w = (Inr k, x)"
    "jwt_parse J tok k (vo_issuer opts) (tv_skew (ev_verifier v)) (w_clock x (w_tick x)) = Inr t"
    "c = new_claims t tok"
    using verify_Inr_D [OF vfy] unfolding verified_at_def ver by blast
  have "asymmetric J alg" using parse_algs_set(2) [OF algs] h(2) by blast
  moreover have "tok_issuer t = Some (vo_issuer opts)"
    and "tok_expiration t = Some e \<Longrightarrow> w_clock x (w_tick x) - tv_skew (ev_verifier v) < e" for e
    using J h(4) unfolding jwt_validates_def by blast+
  moreover have "w_clock x = w_clock w" "w_tick w \<le> w_tick x"
    using key_source.lookup_quiet [OF ks h(3)] by (simp_all add: quiet_def later_def)
  ultimately show "trusted_party J opts (tv_skew (ev_verifier v)) w tok c"
    using h a by (auto simp: trusted_party_def new_claims_def or_zero_def audience_matches_def
        list_ex_iff split: option.splits)
  have "ev_verifier v = \<lparr>tv_keys = ks, tv_issuer = vo_issuer opts,
      tv_skew = tv_skew (ev_verifier v), tv_algs = algs\<rparr>"
    using ver by (cases "ev_verifier v") simp
  with key_source.verify_quiet [OF ks] vfy show "quiet w w'" "w_ext w' = w_ext w"
    by metis+
qed

lemma trusted_party_later:
  "trusted_party J opts s w' tok c \<Longrightarrow> quiet w w' \<Longrightarrow> trusted_party J opts s w tok c"
  by (auto simp: trusted_party_def quiet_def later_def)

section \<open>may_act\<close>

text \<open>The claim as a function of the payload: the last member with the name decides.\<close>

definition may_act_of :: "bytes \<Rightarrow> json option" where
  "may_act_of payload =
     (case json_parse payload of
        Some (JObj ms) \<Rightarrow>
          (case filter (key_is ''may_act'' \<circ> fst) ms of [] \<Rightarrow> None | ps \<Rightarrow> Some (snd (last ps)))
      | _ \<Rightarrow> None)"

lemma dec_may_act_fields:
  "dec_fields dec_may_act ms p
    = Some (case filter (key_is ''may_act'' \<circ> fst) ms of [] \<Rightarrow> p | ps \<Rightarrow> Some (snd (last ps)))"
  by (induction ms arbitrary: p) (auto simp: dec_may_act_def split: list.split)

lemma may_act_allows_iff:
  "may_act_allows c actor \<longleftrightarrow>
     (case may_act_of (cl_raw c) of
        None \<Rightarrow> True
      | Some v \<Rightarrow> \<exists>s. dec_struct dec_sub v [] = Some s \<and> s \<noteq> [] \<and> s = actor)"
proof (cases "cl_raw c = []")
  case True
  have "json_parse [] = None" by code_simp
  with True show ?thesis by (simp add: may_act_allows_def decode_claims_def may_act_of_def)
next
  case False
  show ?thesis
  proof (cases "json_parse (cl_raw c)")
    case None
    with False show ?thesis
      by (simp add: may_act_allows_def decode_claims_def unmarshal_def may_act_of_def)
  next
    case (Some j)
    then show ?thesis
      using False
      by (cases j)
        (auto simp: may_act_allows_def decode_claims_def unmarshal_def may_act_of_def
          dec_may_act_fields split: list.splits option.splits)
  qed
qed

section \<open>The actor chain\<close>

text \<open>The \<open>act\<close> claim for a list of actors, the latest first (RFC 8693 par.4.1).\<close>

fun act_chain :: "string list \<Rightarrow> (string \<times> json) list" where
  "act_chain [] = []"
| "act_chain (a # as) =
     (''sub'', JStr a) # (if as = [] then [] else [(''act'', JObj (act_chain as))])"

text \<open>A token that says it was delegated through these actors, the latest first.\<close>

definition delegated :: "claims \<Rightarrow> string list \<Rightarrow> bool" where
  "delegated c as \<longleftrightarrow>
     (\<exists>ms. json_parse (cl_raw c) = Some (JObj ms)
        \<and> filter (key_is ''act'' \<circ> fst) ms = (if as = [] then [] else [(''act'', JObj (act_chain as))]))"

lemma any_members_chain: "any_members (act_chain as) [] = Some (act_chain as)"
  by (induction as) auto

lemma dec_act_none: "\<forall>p \<in> set ms. \<not> key_is ''act'' (fst p) \<Longrightarrow> dec_fields dec_act ms a = Some a"
  by (induction ms) (auto simp: dec_act_def)

lemma dec_fields_append:
  "dec_fields f (xs @ ys) a = (case dec_fields f xs a of None \<Rightarrow> None | Some b \<Rightarrow> dec_fields f ys b)"
  by (induction f xs a rule: dec_fields.induct) (auto split: option.split)

lemma dec_act_one:
  assumes "filter (key_is ''act'' \<circ> fst) ms = [(k, JObj xs)]" and "any_members xs [] = Some ys"
  shows "dec_fields dec_act ms None = Some (Some ys)"
proof -
  obtain us vs where ms: "ms = us @ (k, JObj xs) # vs" and us: "\<forall>p \<in> set us. \<not> key_is ''act'' (fst p)"
    and k: "key_is ''act'' k" and vs: "filter (key_is ''act'' \<circ> fst) vs = []"
    using assms(1) unfolding filter_eq_Cons_iff by auto
  have "\<forall>p \<in> set vs. \<not> key_is ''act'' (fst p)" using vs by (auto simp: filter_empty_conv)
  with us k assms(2) show ?thesis
    by (simp add: ms dec_fields_append dec_act_none dec_act_def or_zero_def)
qed

lemma delegated_build:
  assumes "delegated c as"
  shows "build_act_chain b c = act_chain (b # as)"
proof -
  obtain ms where j: "json_parse (cl_raw c) = Some (JObj ms)"
    and f: "filter (key_is ''act'' \<circ> fst) ms = (if as = [] then [] else [(''act'', JObj (act_chain as))])"
    using assms by (auto simp: delegated_def)
  have raw: "cl_raw c \<noteq> []"
  proof
    assume "cl_raw c = []"
    moreover have "json_parse [] = None" by code_simp
    ultimately show False using j by simp
  qed
  show ?thesis
  proof (cases "as = []")
    case True
    with f have "\<forall>p \<in> set ms. \<not> key_is ''act'' (fst p)" by (auto simp: filter_empty_conv)
    with True raw j show ?thesis
      by (simp add: build_act_chain_def decode_claims_def unmarshal_def dec_act_none)
  next
    case False
    with f have "dec_fields dec_act ms None = Some (Some (act_chain as))"
      using dec_act_one any_members_chain by auto
    moreover have "act_chain as \<noteq> []" using False by (cases as) auto
    ultimately show ?thesis using False raw j
      by (simp add: build_act_chain_def decode_claims_def unmarshal_def)
  qed
qed

section \<open>Audit\<close>

lemma verify_party_quiet:
  assumes v: "new_exchange_validator J opts = Inr v" and p: "verify_party J v which tok w = (x, w')"
  shows "quiet w w'"
proof -
  obtain algs ks where ks: "key_source ks"
    and ver: "ev_verifier v = \<lparr>tv_keys = ks, tv_issuer = vo_issuer opts,
       tv_skew = (if vo_clock_skew opts = 0 then 60 * second else vo_clock_skew opts), tv_algs = algs\<rparr>"
    using new_exchange_validator_Inr [OF v] by blast
  obtain y where "verify J (ev_verifier v) tok w = (y, w')"
    using p by (auto simp: verify_party_def split: prod.splits sum.splits if_splits)
  then show ?thesis using key_source.verify_quiet [OF ks] unfolding ver by metis
qed

lemma with_actor_quiet:
  assumes "new_exchange_validator J opts = Inr v" and "with_actor J v at g w = (x, w')"
  shows "quiet w w'"
proof (cases "at = []")
  case True
  with assms(2) show ?thesis by (auto simp: with_actor_def Let_def split: if_splits)
next
  case False
  obtain y w1 where y: "verify_party J v ''actor_token'' at w = (y, w1)" by fastforce
  from verify_party_quiet [OF assms(1) y] False assms(2) y show ?thesis
    by (auto simp: with_actor_def Let_def split: sum.splits if_splits)
qed

lemma apply_policy_audit:
  "apply_policy v g w = (x, w') \<Longrightarrow>
     w_audit w' = w_audit w \<and> w_mem w' = w_mem w \<and> w_clock w' = w_clock w \<and> w_tick w' = w_tick w"
  by (auto simp: apply_policy_def Let_def split: option.splits prod.splits exchange_failure.splits)

lemma exchange_emit_sel [simp]:
  "w_audit (exchange_emit ev w) = w_audit w @ [ev\<lparr>ev_timestamp := w_clock w (w_tick w)\<rparr>]"
  "w_mem (exchange_emit ev w) = w_mem w"
  by (simp_all add: exchange_emit_def now_def)

text \<open>The event of a call that ends with \<open>res\<close>.\<close>

definition exchange_event :: "exchange_error + exchange_grant \<Rightarrow> event \<Rightarrow> bool" where
  "exchange_event res ev \<longleftrightarrow> ev_kind ev = EventTokenExchanged
     \<and> (case res of
          Inl ee \<Rightarrow> ev_outcome ev = OutcomeDeny \<and> ev_error ev = xe_code ee
            \<and> ev_reason ev = xe_description ee \<and> ev_subject ev = []
        | Inr g \<Rightarrow> ev_outcome ev = OutcomeAllow \<and> ev_error ev = []
            \<and> ev_audience ev = eg_requested_audience g \<and> ev_scope ev = eg_requested_scope g)"

definition one_event :: "('s, 'e) world \<Rightarrow> (exchange_error + exchange_grant) \<Rightarrow> ('s, 'e) world \<Rightarrow> bool" where
  "one_event w res w' \<longleftrightarrow>
     w_mem w' = w_mem w \<and> (\<exists>ev. w_audit w' = w_audit w @ [ev] \<and> exchange_event res ev)"

lemma deny_one_event:
  "w_audit w1 = w_audit w \<Longrightarrow> w_mem w1 = w_mem w \<Longrightarrow>
     exchange_deny ee w1 = (res, w') \<Longrightarrow> one_event w res w'"
  by (auto simp: exchange_deny_def one_event_def exchange_event_def empty_event_def)

lemma validate_one_event:
  assumes v: "new_exchange_validator J opts = Inr v" and r: "validate_exchange J v r w = (res, w')"
  shows "one_event w res w'"
proof (cases "check_exchange_form (parse_form r)")
  case (Inl ee)
  with r show ?thesis by (auto simp: validate_exchange_def intro: deny_one_event)
next
  case (Inr p)
  obtain st at where p: "p = (st, at)" by (cases p)
  obtain x w1 where x: "verify_party J v ''subject_token'' st w = (x, w1)" by fastforce
  have q1: "w_audit w1 = w_audit w" "w_mem w1 = w_mem w"
    using verify_party_quiet [OF v x] by (simp_all add: quiet_def)
  show ?thesis
  proof (cases x)
    case (Inl ee)
    with r Inr p x q1 show ?thesis by (auto simp: validate_exchange_def intro: deny_one_event)
  next
    case S: (Inr subject)
    obtain y w2 where y: "with_actor J v at (impersonation_grant (snd (parse_form r)) subject) w1 = (y, w2)"
      by fastforce
    have q2: "w_audit w2 = w_audit w" "w_mem w2 = w_mem w"
      using with_actor_quiet [OF v y] q1 by (simp_all add: quiet_def)
    show ?thesis
    proof (cases y)
      case (Inl ee)
      with r Inr p x S y q2 show ?thesis by (auto simp: validate_exchange_def intro: deny_one_event)
    next
      case G: (Inr g)
      obtain z w3 where z: "apply_policy v g w2 = (z, w3)" by fastforce
      have q3: "w_audit w3 = w_audit w" "w_mem w3 = w_mem w"
        using apply_policy_audit [OF z] q2 by simp_all
      show ?thesis
      proof (cases z)
        case (Inl ee)
        with r Inr p x S y G z q3 show ?thesis
          by (auto simp: validate_exchange_def intro: deny_one_event)
      next
        case (Inr g1)
        with r \<open>check_exchange_form _ = Inr p\<close> p x S y G z q3 show ?thesis
          by (auto simp: validate_exchange_def one_event_def exchange_event_def empty_event_def)
      qed
    qed
  qed
qed

end
