(* ===== verification/ExchangeFlow.thy ===== *)
theory ExchangeFlow
  imports Exchanger Delegation
begin

text \<open>
  What the two sides of an exchange make of each other: the proof a client mints, the form it sends
  and the response it reads, against the code that checks, parses and writes them.
\<close>

section \<open>Number literals\<close>

lemma nat_digits_digits: "\<forall>c \<in> set (nat_digits n). is_digit c"
proof (induction n rule: nat_digits.induct)
  case (1 n)
  then show ?case
    by (cases "n < 10") (simp_all add: nat_digits.simps [of n] digit_char_def is_digit_def)
qed

lemma nat_digits_zero: "hd (nat_digits n) = CHR ''0'' \<Longrightarrow> nat_digits n = ''0''"
proof (induction n rule: nat_digits.induct)
  case (1 n)
  show ?case
  proof (cases "n < 10")
    case True
    with "1.prems" have "byte (digit_char n) = byte (CHR ''0'')" by (simp add: nat_digits.simps [of n])
    with True have "n = 0" by (simp add: digit_char_def)
    moreover have "digit_char 0 = CHR ''0''" by code_simp
    ultimately show ?thesis by (simp add: nat_digits.simps [of 0])
  next
    case False
    with "1.prems" have "hd (nat_digits (n div 10)) = CHR ''0''"
      by (simp add: nat_digits.simps [of n])
    with 1 False have "nat_digits (n div 10) = ''0''" by simp
    then have "parse_nat ''0'' = Some (n div 10)" by (metis parse_nat_nat_digits)
    moreover have "parse_nat ''0'' = Some 0" by code_simp
    ultimately have "n div 10 = 0" by simp
    with False show ?thesis by simp
  qed
qed

lemma json_int_nat_digits: "json_int (nat_digits n) = Some (nat_digits n, [])"
proof (cases "nat_digits n")
  case Nil
  then show ?thesis using nat_digits_nonempty [of n] by simp
next
  case (Cons c cs)
  show ?thesis
  proof (cases "c = CHR ''0''")
    case True
    with Cons nat_digits_zero [of n] show ?thesis by (simp add: json_int_def)
  next
    case False
    have "takeWhile is_digit (nat_digits n) = nat_digits n"
      using nat_digits_digits by (simp add: takeWhile_eq_all_conv)
    with Cons False show ?thesis by (simp add: json_int_def digits1_def Let_def)
  qed
qed

lemma json_number_format_int: "json_number (format_int i) = Some (format_int i, [])"
proof -
  have rest: "json_frac [] = Some ([], [])" "json_exp [] = Some ([], [])"
    by (simp_all add: json_frac_def json_exp_def)
  show ?thesis
  proof (cases "i < 0")
    case True
    then show ?thesis
      unfolding format_int_def json_number_def
      by (simp only: if_True Let_def list.case prod.case json_int_nat_digits option.case rest prepend_def
          option.map append_Nil append_Cons append_Nil2 simp_thms)
  next
    case False
    obtain c cs where c: "nat_digits (nat i) = c # cs" by (cases "nat_digits (nat i)") simp_all
    with nat_digits_hd [of "nat i"] have "48 \<le> byte c" by simp
    then have "c \<noteq> CHR ''-''" by auto
    with False c json_int_nat_digits [of "nat i"] rest show ?thesis
      by (simp add: format_int_def json_number_def prepend_def)
  qed
qed

section \<open>The client's proof\<close>

text \<open>
  What the client relies on in \<open>jws.Sign\<close>, as its documentation states it: the result parses as one
  signature with the protected headers it was given and the algorithm of the key, and it verifies
  under the public key; and what \<open>jwk.PublicKeyOf\<close> returns is not a private key.
\<close>

definition jws_sound :: "('k, 's) jose \<Rightarrow> ('k, 'r) signing_lib \<Rightarrow> bool" where
  "jws_sound J L \<longleftrightarrow>
     (\<forall>priv pub. sl_public_of L priv = Inr pub \<longrightarrow>
        jwk_private J pub = Inr False
        \<and> (\<forall>body alg typ raw. sl_jws_sign L body alg priv typ pub = Inr raw \<longrightarrow>
             (\<exists>kid. jws_parse J raw
                = Inr [\<lparr>hdr_kid = kid, hdr_alg = Some alg, hdr_typ = Some typ, hdr_jwk = Some pub\<rparr>])
             \<and> jws_verify J raw alg pub = Inr body))"

lemma dpop_alg_for_key_Inr: "dpop_alg_for_key J L k = Inr alg \<Longrightarrow> alg \<in> {''ES256'', ''RS256'', ''EdDSA''}"
  by (cases "sl_key_type L k") (auto simp: dpop_alg_for_key_def split: option.splits if_splits)

lemma new_dpop_key_Inr:
  assumes "new_dpop_key J L key = Inr k"
  shows "sl_public_of L (dk_private k) = Inr (dk_public k)
    \<and> dk_alg k \<in> {''ES256'', ''RS256'', ''EdDSA''}
    \<and> (\<exists>tp. jwk_thumbprint J (dk_public k) = Inr tp \<and> dk_jkt k = b64_encode tp)"
proof -
  from assms obtain priv pub alg tp where "sl_public_of L priv = Inr pub"
    "dpop_alg_for_key J L priv = Inr alg" "jwk_thumbprint J pub = Inr tp"
    "k = \<lparr>dk_private = priv, dk_public = pub, dk_alg = alg, dk_jkt = b64_encode tp\<rparr>"
    unfolding new_dpop_key_def bind_res_Inr wrap_err_Inr by auto
  moreover from this(2) have "alg \<in> {''ES256'', ''RS256'', ''EdDSA''}" by (rule dpop_alg_for_key_Inr)
  ultimately show ?thesis by simp
qed

lemma proof_keys:
  "key_is ''htm'' ''htm''" "\<not> key_is ''jti'' ''htm''" "\<not> key_is ''jti'' ''htu''" "\<not> key_is ''htm'' ''htu''"
  "key_is ''htu'' ''htu''" "\<not> key_is ''jti'' ''iat''" "\<not> key_is ''htm'' ''iat''" "\<not> key_is ''htu'' ''iat''"
  "key_is ''iat'' ''iat''" "key_is ''jti'' ''jti''" "\<not> key_is ''jti'' ''nonce''" "\<not> key_is ''htm'' ''nonce''"
  "\<not> key_is ''htu'' ''nonce''" "\<not> key_is ''iat'' ''nonce''" "\<not> key_is ''ath'' ''nonce''"
  "key_is ''nonce'' ''nonce''"
  by code_simp+

lemma proof_members_ok:
  assumes "utf8 jti" "utf8 htm" "utf8 htu" "utf8 nonce"
  shows "json_ok (JObj (proof_members jti htm htu iat nonce))"
    and "json_depth (JObj (proof_members jti htm htu iat nonce)) \<le> max_nesting"
proof -
  have "utf8 ''jti''" "utf8 ''htm''" "utf8 ''htu''" "utf8 ''iat''" "utf8 ''nonce''" by code_simp+
  with assms show "json_ok (JObj (proof_members jti htm htu iat nonce))"
    by (simp add: proof_members_def json_number_format_int)
  show "json_depth (JObj (proof_members jti htm htu iat nonce)) \<le> max_nesting"
    by (simp add: proof_members_def max_nesting_def)
qed

lemma decode_proof_members:
  assumes "- (2 ^ 63) \<le> iat" and "iat < 2 ^ 63"
  shows "dec_fields dec_proof_claim (proof_members jti htm htu iat nonce) zero_proof_claims
    = Some \<lparr>pc_jti = jti, pc_htm = htm, pc_htu = htu, pc_iat = iat, pc_ath = [], pc_nonce = nonce\<rparr>"
  using parse_int64_format_int [OF assms]
  by (simp add: proof_members_def dec_proof_claim_def zero_proof_claims_def proof_keys)

lemma proof_for_Inr:
  assumes "proof_for L k htm htu nonce w = (Inr raw, w')"
  shows "sl_jws_sign L (json_print (JObj (proof_members (b64_encode (cw_rand w (cw_rands w))) htm htu
       (unix_seconds (cw_clock w (cw_tick w))) nonce))) (dk_alg k) (dk_private k) ''dpop+jwt'' (dk_public k)
     = Inr raw"
    and "w' = w\<lparr>cw_rands := Suc (cw_rands w), cw_tick := Suc (cw_tick w)\<rparr>"
  using assms by (simp_all add: proof_for_def random_id_def client_now_def)

lemma proof_parses:
  assumes key: "new_dpop_key J L pem = Inr k" and J: "jws_sound J L" and alg: "dk_alg k \<in> set algs"
    and u: "utf8 htm" "utf8 htu" "utf8 nonce"
    and p: "proof_for L k htm htu nonce w = (Inr raw, w')"
  shows "parse_and_verify_proof J raw algs = Inr
    \<lparr>dp_jkt = dk_jkt k, dp_htm = htm, dp_htu = htu,
     dp_iat = time_unix (unix_seconds (cw_clock w (cw_tick w))),
     dp_jti = b64_encode (cw_rand w (cw_rands w)), dp_ath = [], dp_nonce = nonce\<rparr>"
proof -
  let ?jti = "b64_encode (cw_rand w (cw_rands w))" and ?iat = "unix_seconds (cw_clock w (cw_tick w))"
  let ?body = "json_print (JObj (proof_members ?jti htm htu ?iat nonce))"
  obtain tp where k: "sl_public_of L (dk_private k) = Inr (dk_public k)"
    "jwk_thumbprint J (dk_public k) = Inr tp" "dk_jkt k = b64_encode tp"
    using new_dpop_key_Inr [OF key] by blast
  obtain kid where s: "jwk_private J (dk_public k) = Inr False"
    "jws_parse J raw = Inr [\<lparr>hdr_kid = kid, hdr_alg = Some (dk_alg k), hdr_typ = Some ''dpop+jwt'',
       hdr_jwk = Some (dk_public k)\<rparr>]"
    "jws_verify J raw (dk_alg k) (dk_public k) = Inr ?body"
    using J k(1) proof_for_Inr(1) [OF p] unfolding jws_sound_def by blast
  have "json_parse ?body = Some (JObj (proof_members ?jti htm htu ?iat nonce))"
    using proof_members_ok [OF ascii_utf8 [OF b64_ascii] u] by (rule json_parse_print)
  then have "unmarshal dec_proof_claim zero_proof_claims ?body
    = Some \<lparr>pc_jti = ?jti, pc_htm = htm, pc_htu = htu, pc_iat = ?iat, pc_ath = [], pc_nonce = nonce\<rparr>"
    using wrap64_range by (simp add: unmarshal_def decode_proof_members unix_seconds_def)
  with s k alg show ?thesis
    by (simp add: parse_and_verify_proof_def proof_of_claims_def)
qed

section \<open>The client's form, as the server reads it\<close>

text \<open>
  The server's view of a request the client sent: the same method, headers and body, the target of
  its URL. \<open>mime.ParseMediaType\<close> returns the media type \<open>do\<close> sets, without error.
\<close>

definition received :: "http_request \<Rightarrow> form_request" where
  "received req =
     \<lparr>req_method = hr_method req, req_path = url_path (hr_url req), req_host = url_host (hr_url req),
      req_tls = (url_scheme (hr_url req) = ''https''), req_header = hr_header req, req_remote_addr = [],
      fr_raw_query = url_raw_query (hr_url req),
      fr_media = (header_get (hr_header req) ''Content-Type'', True), fr_body = Inr (hr_body req)\<rparr>"

lemma fold_form_add:
  "values_of (fold (form_add k) xs f) k' = (if k' = k then values_of f k @ xs else values_of f k')"
  by (induction xs arbitrary: f) auto

lemma distinct_fold_form_add [simp]:
  "distinct (map fst f) \<Longrightarrow> distinct (map fst (fold (form_add k) xs f))"
  by (induction xs arbitrary: f) auto

lemma build_exchange_form_distinct: "distinct (map fst (build_exchange_form req))"
  by (simp add: build_exchange_form_def Let_def)

lemma build_exchange_form_values:
  "values_of (build_exchange_form req) k =
     (if k = ''grant_type'' then [grant_type_token_exchange]
      else if k = ''subject_token'' then [xr_subject_token req]
      else if k = ''subject_token_type'' then [or_default (xr_subject_token_type req)]
      else if k = ''actor_token'' then (if xr_actor_token req = [] then [] else [xr_actor_token req])
      else if k = ''actor_token_type'' then (if xr_actor_token req = [] then [] else [xr_actor_token_type req])
      else if k = ''resource'' then xr_resource req
      else if k = ''audience'' then xr_audience req
      else if k = ''scope'' then (if xr_scope req = [] then [] else [join '' '' (xr_scope req)])
      else if k = ''requested_token_type''
      then (if xr_requested_token_type req = [] then [] else [xr_requested_token_type req])
      else [])"
  unfolding build_exchange_form_def Let_def
  by (cases "k = ''grant_type''", simp add: fold_form_add,
      cases "k = ''subject_token''", simp add: fold_form_add,
      cases "k = ''subject_token_type''", simp add: fold_form_add,
      cases "k = ''actor_token''", simp add: fold_form_add,
      cases "k = ''actor_token_type''", simp add: fold_form_add,
      cases "k = ''resource''", simp add: fold_form_add,
      cases "k = ''audience''", simp add: fold_form_add,
      cases "k = ''scope''", simp add: fold_form_add,
      cases "k = ''requested_token_type''", simp add: fold_form_add,
      simp add: fold_form_add)

text \<open>Client authentication only adds its own parameters, and sends no other media type.\<close>

definition client_param :: "string \<Rightarrow> bool" where
  "client_param k \<longleftrightarrow> k \<in> {''client_id'', ''client_secret'', ''client_assertion_type'', ''client_assertion''}"

lemma header_get_set: "header_get (header_set k v h) k' = (if canonical_key k' = canonical_key k then v else header_get h k')"
  by (simp add: header_get_def header_set_def header_values_def)

lemma canonical_request_headers:
  "canonical_key ''Content-Type'' = ''Content-Type''" "canonical_key ''Authorization'' = ''Authorization''"
  "canonical_key ''Accept'' = ''Accept''" "canonical_key ''DPoP'' = ''Dpop''"
  by code_simp+

lemma apply_auth_Inr:
  assumes "apply_auth L a req f w = (Inr (req', f'), w')"
  shows "req' = req \<and> (\<exists>ps. f' = fold (\<lambda>(k, v). form_set k v) ps f \<and> (\<forall>p \<in> set ps. client_param (fst p)))
    \<or> f' = f \<and> (\<exists>v. req' = req\<lparr>hr_header := header_set ''Authorization'' v (hr_header req)\<rparr>)"
proof (cases a)
  case (SecretAuth cid sec post)
  show ?thesis
  proof (cases post)
    case True
    have "f' = fold (\<lambda>(k, v). form_set k v) [(''client_id'', cid), (''client_secret'', sec)] f"
      using assms SecretAuth True by (simp add: apply_auth_unfold)
    moreover have "req' = req" using assms SecretAuth True by (simp add: apply_auth_unfold)
    ultimately show ?thesis by (auto simp: client_param_def simp del: fold.simps)
  next
    case False
    with assms SecretAuth show ?thesis by (auto simp: apply_auth_unfold)
  qed
next
  case (PrivateKeyJWT cid key alg)
  with assms obtain signed where r: "req' = req"
    and f: "f' = fold (\<lambda>(k, v). form_set k v) [(''client_id'', cid),
      (''client_assertion_type'', ''urn:ietf:params:oauth:client-assertion-type:jwt-bearer''),
      (''client_assertion'', signed)] f"
    by (auto simp: apply_auth_unfold client_now_def random_id_def Let_def)
  have "\<forall>p \<in> set [(''client_id'', cid),
      (''client_assertion_type'', ''urn:ietf:params:oauth:client-assertion-type:jwt-bearer''),
      (''client_assertion'', signed)]. client_param (fst p)"
    by (simp add: client_param_def)
  with r f show ?thesis by blast
qed

lemma fold_form_set:
  "distinct (map fst f) \<Longrightarrow> distinct (map fst (fold (\<lambda>(k, v). form_set k v) ps f))"
  "\<forall>p \<in> set ps. fst p \<noteq> k \<Longrightarrow> values_of (fold (\<lambda>(k, v). form_set k v) ps f) k = values_of f k"
  by (induction ps arbitrary: f) auto

lemma apply_auth_props:
  assumes "apply_auth L a req f w = (Inr (req', f'), w')"
  shows "hr_method req' = hr_method req" and "hr_url req' = hr_url req"
    and "header_get (hr_header req') ''Content-Type'' = header_get (hr_header req) ''Content-Type''"
    and "distinct (map fst f) \<Longrightarrow> distinct (map fst f')"
    and "\<not> client_param k \<Longrightarrow> values_of f' k = values_of f k"
proof -
  have n: "\<not> client_param k \<Longrightarrow> \<forall>p \<in> set ps. client_param (fst p) \<Longrightarrow> \<forall>p \<in> set ps. fst p \<noteq> k" for ps :: "(string \<times> string) list"
    by blast
  show "hr_method req' = hr_method req" "hr_url req' = hr_url req"
    "header_get (hr_header req') ''Content-Type'' = header_get (hr_header req) ''Content-Type''"
    using apply_auth_Inr [OF assms] by (auto simp: header_get_set canonical_request_headers)
  show "distinct (map fst f) \<Longrightarrow> distinct (map fst f')"
    using apply_auth_Inr [OF assms] by (auto simp: fold_form_set(1))
  show "\<not> client_param k \<Longrightarrow> values_of f' k = values_of f k"
    using apply_auth_Inr [OF assms] n fold_form_set(2) by metis
qed

lemma token_request_Inr:
  assumes "token_request J L x endpoint f nonce w = (Inr req, w')" and "distinct (map fst f)"
  shows "\<exists>u f'. url_parse endpoint = Some u \<and> hr_method req = ''POST''
    \<and> hr_url req = u\<lparr>url_host := remove_empty_port (url_host u)\<rparr>
    \<and> header_get (hr_header req) ''Content-Type'' = form_media_type
    \<and> hr_body req = form_encode f' \<and> distinct (map fst f')
    \<and> (\<forall>k. \<not> client_param k \<longrightarrow> values_of f' k = values_of f k)"
proof -
  obtain u where u: "url_parse endpoint = Some u"
    using assms(1) by (auto simp: token_request_def new_request_def split: option.splits)
  define req0 where "req0 = \<lparr>hr_method = ''POST'', hr_url = u\<lparr>url_host := remove_empty_port (url_host u)\<rparr>,
    hr_header = header_set ''Accept'' ''application/json'' (header_set ''Content-Type'' form_media_type no_header),
    hr_body = []\<rparr>"
  obtain y w1 where y: "apply_auth L (tx_auth x) req0 f w = (y, w1)" by fastforce
  have t: "token_request J L x endpoint f nonce w = (case (y, w1) of
      (Inl e, w1) \<Rightarrow> (Inl e, w1)
    | (Inr (req1, f1), w1) \<Rightarrow>
        (case tx_dpop x of
           None \<Rightarrow> (Inr (req1\<lparr>hr_body := form_encode f1\<rparr>), w1)
         | Some k \<Rightarrow>
             (case proof_for L k ''POST'' (htu_of endpoint) nonce w1 of
                (Inl e, w2) \<Rightarrow> (Inl e, w2)
              | (Inr proof, w2) \<Rightarrow>
                  (Inr (req1\<lparr>hr_header := header_set ''DPoP'' proof (hr_header req1),
                             hr_body := form_encode f1\<rparr>), w2))))"
    unfolding y [symmetric] by (simp add: token_request_def new_request_def u req0_def Let_def)
  obtain req1 f1 where a: "apply_auth L (tx_auth x) req0 f w = (Inr (req1, f1), w1)"
    using assms(1) y unfolding t by (cases y) auto
  note auth = apply_auth_props [OF a]
  have ct: "header_get (hr_header req0) ''Content-Type'' = form_media_type"
    by (simp add: req0_def header_get_set canonical_request_headers)
  have "hr_method req = hr_method req1 \<and> hr_url req = hr_url req1 \<and> hr_body req = form_encode f1
    \<and> header_get (hr_header req) ''Content-Type'' = header_get (hr_header req1) ''Content-Type''"
  proof (cases "tx_dpop x")
    case None
    with assms(1) a y show ?thesis unfolding t by auto
  next
    case (Some k)
    with assms(1) a y show ?thesis unfolding t
      by (auto simp: header_get_set canonical_request_headers split: prod.splits sum.splits)
  qed
  with u auth assms(2) ct show ?thesis by (auto simp: req0_def)
qed

lemma parse_form_received:
  assumes "hr_method req = ''POST''" and "header_get (hr_header req) ''Content-Type'' = form_media_type"
    and "hr_body req = form_encode f" and "distinct (map fst f)"
    and "length (form_encode f) \<le> max_form_size" and "fst (parse_query (url_raw_query (hr_url req)))"
  shows "\<exists>g. parse_form (received req) = (True, g) \<and> (\<forall>k. values_of g k = values_of f k)"
proof -
  obtain g where g: "parse_query (form_encode f) = (True, g)" "\<forall>k. values_of g k = values_of f k"
    using form_roundtrip [OF assms(4)] by blast
  then have "parse_form (received req) = (True, g)"
    using assms by (simp add: parse_form_def parse_post_form_def received_def)
  with g show ?thesis by blast
qed

end
