(* ===== verification/ExchangeReply.thy ===== *)
theory ExchangeReply
  imports ExchangeFlow
begin

text \<open>
  The response of a token endpoint as the validator's side writes it (WriteExchangeResponse) and as
  the client reads it (parseExchangeResult), and the scopes both of them split.
\<close>

section \<open>Scopes\<close>

text \<open>A scope token of RFC 6749 par.3.3: printable ASCII without a space.\<close>

definition scope_word :: "string \<Rightarrow> bool" where
  "scope_word s \<longleftrightarrow> s \<noteq> [] \<and> (\<forall>c \<in> set s. 33 \<le> byte c \<and> byte c < 127)"

lemma fields_from_word:
  assumes "\<forall>c \<in> set s. 33 \<le> byte c \<and> byte c < 127"
  shows "fields_from (map (\<lambda>c. (byte c, [c])) s @ rs) cur = fields_from rs (cur @ s)"
  using assms
proof (induction s arbitrary: cur)
  case (Cons c s)
  then have "\<not> is_space (byte c)" by (auto simp: is_space_def)
  with Cons show ?case by simp
qed simp

lemma ascii_join: "\<forall>s \<in> set ss. scope_word s \<Longrightarrow> ascii (join '' '' ss)"
  by (induction "'' ''" ss rule: join.induct) (auto simp: scope_word_def ascii_def)

lemma str_fields_join:
  assumes "\<forall>s \<in> set ss. scope_word s"
  shows "str_fields (join '' '' ss) = ss"
proof -
  have "fields_from (map (\<lambda>c. (byte c, [c])) (join '' '' ss)) [] = ss"
    using assms
  proof (induction "'' ''" ss rule: join.induct)
    case (2 x)
    then show ?case using fields_from_word [of x "[]" "[]"] by (simp add: scope_word_def)
  next
    case (3 x y zs)
    have "is_space (byte (CHR '' ''))" by (simp add: is_space_def)
    then have sp: "fields_from ((byte (CHR '' ''), '' '') # rs) x = x # fields_from rs []" for rs
      using 3 by (simp add: scope_word_def)
    have "fields_from (map (\<lambda>c. (byte c, [c])) (join '' '' (x # y # zs))) []
      = fields_from ((byte (CHR '' ''), '' '') # map (\<lambda>c. (byte c, [c])) (join '' '' (y # zs))) x"
      using fields_from_word [of x _ "[]"] 3(2) by (simp add: scope_word_def)
    with sp 3 show ?case by simp
  qed simp
  with runes_ascii [OF ascii_join [OF assms]] show ?thesis by (simp add: str_fields_def)
qed

section \<open>The response\<close>

lemma issued_order:
  "bytes_less ''access_token'' ''issued_token_type''" "bytes_less ''access_token'' ''token_type''"
  "bytes_less ''access_token'' ''expires_in''" "bytes_less ''access_token'' ''scope''"
  "bytes_less ''access_token'' ''refresh_token''" "bytes_less ''expires_in'' ''issued_token_type''"
  "bytes_less ''expires_in'' ''refresh_token''" "bytes_less ''expires_in'' ''scope''"
  "bytes_less ''expires_in'' ''token_type''" "bytes_less ''issued_token_type'' ''refresh_token''"
  "bytes_less ''issued_token_type'' ''scope''" "bytes_less ''issued_token_type'' ''token_type''"
  "bytes_less ''refresh_token'' ''scope''" "bytes_less ''refresh_token'' ''token_type''"
  "bytes_less ''scope'' ''token_type''"
  "\<not> bytes_less ''issued_token_type'' ''access_token''" "\<not> bytes_less ''token_type'' ''access_token''"
  "\<not> bytes_less ''expires_in'' ''access_token''" "\<not> bytes_less ''scope'' ''access_token''"
  "\<not> bytes_less ''refresh_token'' ''access_token''" "\<not> bytes_less ''issued_token_type'' ''expires_in''"
  "\<not> bytes_less ''refresh_token'' ''expires_in''" "\<not> bytes_less ''scope'' ''expires_in''"
  "\<not> bytes_less ''token_type'' ''expires_in''" "\<not> bytes_less ''refresh_token'' ''issued_token_type''"
  "\<not> bytes_less ''scope'' ''issued_token_type''" "\<not> bytes_less ''token_type'' ''issued_token_type''"
  "\<not> bytes_less ''scope'' ''refresh_token''" "\<not> bytes_less ''token_type'' ''refresh_token''"
  "\<not> bytes_less ''token_type'' ''scope''"
  by code_simp+

lemma issued_keys:
  "key_is ''access_token'' ''access_token''" "key_is ''issued_token_type'' ''issued_token_type''"
  "key_is ''token_type'' ''token_type''" "key_is ''expires_in'' ''expires_in''" "key_is ''scope'' ''scope''"
  "key_is ''refresh_token'' ''refresh_token''" "\<not> key_is ''access_token'' ''issued_token_type''"
  "\<not> key_is ''access_token'' ''token_type''" "\<not> key_is ''issued_token_type'' ''token_type''"
  "\<not> key_is ''access_token'' ''expires_in''" "\<not> key_is ''issued_token_type'' ''expires_in''"
  "\<not> key_is ''token_type'' ''expires_in''" "\<not> key_is ''access_token'' ''scope''"
  "\<not> key_is ''issued_token_type'' ''scope''" "\<not> key_is ''token_type'' ''scope''" "\<not> key_is ''expires_in'' ''scope''"
  "\<not> key_is ''access_token'' ''refresh_token''" "\<not> key_is ''issued_token_type'' ''refresh_token''"
  "\<not> key_is ''token_type'' ''refresh_token''" "\<not> key_is ''expires_in'' ''refresh_token''"
  "\<not> key_is ''scope'' ''refresh_token''"
  by code_simp+

text \<open>The members in the order they are written.\<close>

definition sorted_members :: "issued_token \<Rightarrow> (string \<times> json) list" where
  "sorted_members t =
     [(''access_token'', JStr (it_access_token t))]
     @ (if 0 < it_expires_in t then [(''expires_in'', JNum (format_int (float_seconds (it_expires_in t))))] else [])
     @ [(''issued_token_type'', JStr (or_default (it_issued_token_type t)))]
     @ (if it_refresh_token t \<noteq> [] then [(''refresh_token'', JStr (it_refresh_token t))] else [])
     @ (if it_scope t \<noteq> [] then [(''scope'', JStr (join '' '' (it_scope t)))] else [])
     @ [(''token_type'', JStr (if it_token_type t = [] then ''Bearer'' else it_token_type t))]"

lemma sort_issued_members: "sort_keys (issued_members t) = sorted_members t"
  by (simp add: issued_members_def sorted_members_def sort_keys_def issued_order)

lemma float_seconds_range: "0 \<le> d \<Longrightarrow> d < 2 ^ 63 \<Longrightarrow> 0 \<le> float_seconds d \<and> float_seconds d < 2 ^ 63"
proof -
  assume d: "0 \<le> d" "d < 2 ^ 63"
  then have "0 \<le> d div nanos" "d div nanos < 2 ^ 63 - 1"
    by (simp_all add: nanos_def)
  then show ?thesis by (auto simp: float_seconds_def Let_def)
qed

lemma float_seconds_whole: "nanos dvd d \<Longrightarrow> float_seconds d * nanos = d"
  by (auto simp: float_seconds_def Let_def)

definition utf8_issued :: "issued_token \<Rightarrow> bool" where
  "utf8_issued t \<longleftrightarrow> utf8 (it_access_token t) \<and> utf8 (it_issued_token_type t) \<and> utf8 (it_token_type t)
     \<and> utf8 (it_refresh_token t) \<and> (\<forall>s \<in> set (it_scope t). scope_word s)"

lemma sorted_members_ok:
  assumes "utf8_issued t"
  shows "json_ok (JObj (sorted_members t))" and "json_depth (JObj (sorted_members t)) \<le> max_nesting"
proof -
  have k: "utf8 ''access_token''" "utf8 ''expires_in''" "utf8 ''issued_token_type''" "utf8 ''refresh_token''"
    "utf8 ''scope''" "utf8 ''token_type''" "utf8 ''Bearer''" "utf8 TokenTypeAccessToken"
    by code_simp+
  have "utf8 (or_default (it_issued_token_type t))"
    using assms k by (simp add: or_default_def utf8_issued_def)
  moreover have "utf8 (join '' '' (it_scope t))"
    using assms by (auto simp: utf8_issued_def intro: ascii_utf8 ascii_join)
  ultimately show "json_ok (JObj (sorted_members t))"
    using assms k by (simp add: sorted_members_def utf8_issued_def json_number_format_int)
  show "json_depth (JObj (sorted_members t)) \<le> max_nesting"
    by (simp add: sorted_members_def max_nesting_def)
qed

lemma decode_sorted_members:
  assumes "it_expires_in t < 2 ^ 63"
  shows "dec_fields dec_result_body (sorted_members t) zero_result_body = Some
    \<lparr>rb_access_token = it_access_token t, rb_issued_token_type = or_default (it_issued_token_type t),
     rb_token_type = (if it_token_type t = [] then ''Bearer'' else it_token_type t),
     rb_expires_in = (if 0 < it_expires_in t then float_seconds (it_expires_in t) else 0),
     rb_scope = (if it_scope t = [] then [] else join '' '' (it_scope t)),
     rb_refresh_token = it_refresh_token t\<rparr>"
proof -
  have "0 < it_expires_in t \<Longrightarrow>
      parse_int64 (format_int (float_seconds (it_expires_in t))) = Some (float_seconds (it_expires_in t))"
    using float_seconds_range [of "it_expires_in t"] assms by (intro parse_int64_format_int) auto
  then show ?thesis
    by (simp add: sorted_members_def dec_result_body_def issued_keys zero_result_body_def)
qed

text \<open>What the client reads of a response the other side wrote.\<close>

definition issued_result :: "issued_token \<Rightarrow> bytes \<Rightarrow> exchange_result" where
  "issued_result t body =
     \<lparr>er_access_token = it_access_token t, er_issued_token_type = or_default (it_issued_token_type t),
      er_token_type = (if it_token_type t = [] then ''Bearer'' else it_token_type t),
      er_expires_in = (if 0 < it_expires_in t then wrap64 (float_seconds (it_expires_in t) * nanos) else 0),
      er_scope = it_scope t, er_refresh_token = it_refresh_token t, er_raw = body\<rparr>"

lemma join_words: "\<forall>s \<in> set ss. scope_word s \<Longrightarrow> join '' '' ss = [] \<Longrightarrow> ss = []"
  using str_fields_join [of ss] by (simp add: str_fields_def)

lemma parse_issued:
  assumes "utf8_issued t" and "it_access_token t \<noteq> []" and "it_expires_in t < 2 ^ 63"
  shows "parse_exchange_result (json_line (JObj (sort_keys (issued_members t))))
    = Inr (issued_result t (json_line (JObj (sort_keys (issued_members t)))))"
proof -
  have w: "\<forall>s \<in> set (it_scope t). scope_word s" using assms(1) by (simp add: utf8_issued_def)
  have "wrap64 0 = 0" by (simp add: wrap64_def)
  then show ?thesis
    using json_parse_line [OF sorted_members_ok [OF assms(1)]] decode_sorted_members [OF assms(3)]
      assms(2) join_words [OF w] str_fields_join [OF w]
    by (auto simp: parse_exchange_result_def unmarshal_def sort_issued_members issued_result_def)
qed

end
