(* ===== verification/ExchangeRun.thy ===== *)
theory ExchangeRun
  imports ExchangeReply
begin

text \<open>
  Runs of the exchange client: against a scripted other side that records what it is sent, and
  against the validator behind an HTTP handler.
\<close>

section \<open>What a request leaves alone\<close>

lemma apply_auth_peer: "apply_auth L a req f w = (r, w') \<Longrightarrow> cw_peer w' = cw_peer w \<and> cw_audit w' = cw_audit w \<and> cw_cache w' = cw_cache w"
  by (cases a) (auto simp: apply_auth_unfold client_now_def random_id_def Let_def split: if_splits)

lemma proof_for_peer:
  "proof_for L k m u n w = (r, w') \<Longrightarrow> cw_peer w' = cw_peer w \<and> cw_audit w' = cw_audit w \<and> cw_cache w' = cw_cache w"
  by (auto simp: proof_for_def client_now_def random_id_def)

lemma token_request_peer:
  assumes "token_request J L x ep f n w = (r, w')"
  shows "cw_peer w' = cw_peer w \<and> cw_audit w' = cw_audit w \<and> cw_cache w' = cw_cache w"
proof (cases "new_request J ''POST'' ep")
  case (Inl e)
  with assms show ?thesis by (simp add: token_request_def)
next
  case (Inr req0)
  define req where "req = req0\<lparr>hr_header := header_set ''Accept'' ''application/json''
    (header_set ''Content-Type'' form_media_type (hr_header req0))\<rparr>"
  obtain y w1 where a: "apply_auth L (tx_auth x) req f w = (y, w1)" by fastforce
  note pa = apply_auth_peer [OF a]
  show ?thesis
  proof (cases y)
    case (Inl e)
    with assms Inr a pa show ?thesis by (auto simp: token_request_def req_def Let_def)
  next
    case (Inr p)
    obtain req1 f1 where p: "p = (req1, f1)" by (cases p)
    show ?thesis
    proof (cases "tx_dpop x")
      case None
      with assms Inr \<open>new_request J ''POST'' ep = Inr req0\<close> a pa p show ?thesis
        by (auto simp: token_request_def req_def Let_def)
    next
      case (Some k)
      obtain z w2 where z: "proof_for L k ''POST'' (htu_of ep) n w1 = (z, w2)" by fastforce
      from proof_for_peer [OF z] pa assms Inr \<open>new_request J ''POST'' ep = Inr req0\<close> a p z Some
      show ?thesis by (cases z) (auto simp: token_request_def req_def Let_def)
    qed
  qed
qed

text \<open>The proof a request carries.\<close>

lemma token_request_proof:
  assumes "token_request J L x ep f n w = (Inr req, w')" and "tx_dpop x = Some k"
  shows "\<exists>raw w1. proof_for L k ''POST'' (htu_of ep) n w1 = (Inr raw, w')
    \<and> header_values (hr_header req) ''DPoP'' = [raw]"
proof -
  obtain req0 where n: "new_request J ''POST'' ep = Inr req0"
    using assms(1) by (auto simp: token_request_def split: sum.splits)
  define rq where "rq = req0\<lparr>hr_header := header_set ''Accept'' ''application/json''
    (header_set ''Content-Type'' form_media_type (hr_header req0))\<rparr>"
  obtain req1 f1 w1 where a: "apply_auth L (tx_auth x) rq f w = (Inr (req1, f1), w1)"
    using assms(1) n by (auto simp: token_request_def rq_def Let_def split: prod.splits sum.splits)
  obtain raw where p: "proof_for L k ''POST'' (htu_of ep) n w1 = (Inr raw, w')"
    and r: "req = req1\<lparr>hr_header := header_set ''DPoP'' raw (hr_header req1), hr_body := form_encode f1\<rparr>"
    using assms n a by (auto simp: token_request_def rq_def Let_def split: prod.splits sum.splits)
  have "header_values (hr_header req) ''DPoP'' = [raw]"
    by (simp add: r header_values_def header_set_def)
  with p show ?thesis by blast
qed

lemma client_emit_peer [simp]:
  "cw_peer (client_emit ev w) = cw_peer w" "cw_cache (client_emit ev w) = cw_cache w"
  by (simp_all add: client_emit_def client_now_def)

section \<open>A scripted other side\<close>

text \<open>It answers the \<open>n\<close>-th request with \<open>s n\<close> and keeps the requests.\<close>

definition scripted :: "(nat \<Rightarrow> http_response result) \<Rightarrow> http_request list http_client" where
  "scripted s req log = (s (length log), log @ [req])"

text \<open>A response that asks for a nonce the client can use.\<close>

definition nonce_challenge :: "http_response \<Rightarrow> string \<Rightarrow> bool" where
  "nonce_challenge resp n \<longleftrightarrow>
     n \<noteq> [] \<and> header_get (hs_header resp) ''DPoP-Nonce'' = n
     \<and> hs_status resp div 100 \<noteq> 2 \<and> \<not> (300 \<le> hs_status resp \<and> hs_status resp < 400)
     \<and> (\<exists>body. read_limited (hs_body resp) = Inr body
          \<and> xe_code (parse_exchange_error (int (hs_status resp)) body) = ''use_dpop_nonce'')"

lemma read_token_response_nonce:
  "read_token_response resp = (r, n) \<Longrightarrow> n \<noteq> [] \<Longrightarrow> nonce_challenge resp n \<and> (\<exists>e. r = Inl e)"
  by (auto simp: read_token_response_def nonce_challenge_def Let_def split: sum.splits if_splits)

lemma nonce_challenge_read:
  "nonce_challenge resp n \<Longrightarrow> \<exists>e. read_token_response resp = (Inl e, n)"
  by (auto simp: read_token_response_def nonce_challenge_def Let_def)

lemma exchange_do_scripted:
  assumes "tx_client x = scripted s" and "exchange_do J L x ep f n w = ((r, n'), w')"
  shows "(\<exists>e. token_request J L x ep f n w = (Inl e, w') \<and> cw_peer w' = cw_peer w \<and> n' = [])
    \<or> (\<exists>req w1. token_request J L x ep f n w = (Inr req, w1) \<and> cw_peer w' = cw_peer w @ [req]
         \<and> (case s (length (cw_peer w)) of
              Inl e \<Rightarrow> r = Inl (PlainFailure e) \<and> n' = []
            | Inr resp \<Rightarrow> read_token_response resp = (r, n')))"
proof -
  obtain y w1 where y: "token_request J L x ep f n w = (y, w1)" by fastforce
  note peer = token_request_peer [OF y]
  show ?thesis
  proof (cases y)
    case (Inl e)
    with assms y peer show ?thesis by (auto simp: exchange_do_def)
  next
    case (Inr req)
    with assms y peer show ?thesis
      by (cases "s (length (cw_peer w))")
        (auto simp: exchange_do_def client_send_def scripted_def)
  qed
qed

lemma nonce_retry:
  assumes c: "tx_client x = scripted s" and r: "exchange_with_nonce_retry J L x ep f w = (res, w')"
  shows "\<exists>reqs. cw_peer w' = cw_peer w @ reqs \<and> length reqs \<le> 2
    \<and> (\<forall>a b. reqs = [a, b] \<longrightarrow>
         (\<exists>k resp n raw w1 w2. tx_dpop x = Some k \<and> s (length (cw_peer w)) = Inr resp
            \<and> nonce_challenge resp n
            \<and> proof_for L k ''POST'' (htu_of ep) n (w1 :: http_request list client_world) = (Inr raw, w2)
            \<and> header_values (hr_header b) ''DPoP'' = [raw]))"
proof -
  obtain r1 n1 w1 where d1: "exchange_do J L x ep f [] w = ((r1, n1), w1)"
    using prod.exhaust by metis
  have one: "\<exists>reqs. cw_peer w1 = cw_peer w @ reqs \<and> length reqs \<le> 1"
    using exchange_do_scripted [OF c d1] by fastforce
  show ?thesis
  proof (cases "(\<exists>e. r1 = Inl e) \<and> tx_dpop x \<noteq> None \<and> n1 \<noteq> []")
    case False
    then have "w' = w1"
      using r d1 by (auto simp: exchange_with_nonce_retry_def split: sum.splits if_splits)
    with one show ?thesis by fastforce
  next
    case True
    then obtain e k where e: "r1 = Inl e" "tx_dpop x = Some k" "n1 \<noteq> []" by auto
    from exchange_do_scripted [OF c d1] e(3) obtain req1 where q1: "cw_peer w1 = cw_peer w @ [req1]"
      and a1: "case s (length (cw_peer w)) of Inl e \<Rightarrow> r1 = Inl (PlainFailure e) \<and> n1 = []
            | Inr resp \<Rightarrow> read_token_response resp = (r1, n1)"
      by auto
    from a1 e(3) obtain resp where resp: "s (length (cw_peer w)) = Inr resp"
      "read_token_response resp = (r1, n1)"
      by (auto split: sum.splits)
    have ch: "nonce_challenge resp n1" using read_token_response_nonce [OF resp(2) e(3)] by blast
    obtain r2 n2 w2 where d2: "exchange_do J L x ep f n1 w1 = ((r2, n2), w2)"
      using prod.exhaust by metis
    have w2: "w' = w2" using r d1 d2 e by (auto simp: exchange_with_nonce_retry_def)
    from exchange_do_scripted [OF c d2] show ?thesis
    proof (elim disjE exE conjE)
      fix e assume "cw_peer w2 = cw_peer w1"
      then show ?thesis using q1 w2 by fastforce
    next
      fix req2 w3 assume t: "token_request J L x ep f n1 w1 = (Inr req2, w3)"
        and q2: "cw_peer w2 = cw_peer w1 @ [req2]"
      obtain raw w4 where p: "proof_for L k ''POST'' (htu_of ep) n1 w4 = (Inr raw, w3)"
        "header_values (hr_header req2) ''DPoP'' = [raw]"
        using token_request_proof [OF t e(2)] by blast
      have q: "cw_peer w' = cw_peer w @ [req1, req2]" using q1 q2 w2 by simp
      have "\<exists>k resp n raw w1 w2. tx_dpop x = Some k \<and> s (length (cw_peer w)) = Inr resp
            \<and> nonce_challenge resp n
            \<and> proof_for L k ''POST'' (htu_of ep) n (w1 :: http_request list client_world) = (Inr raw, w2)
            \<and> header_values (hr_header req2) ''DPoP'' = [raw]"
        using resp(1) ch p e(2) by blast
      then have "\<forall>a b. [req1, req2] = [a, b] \<longrightarrow> (\<exists>k resp n raw w1 w2. tx_dpop x = Some k
            \<and> s (length (cw_peer w)) = Inr resp
            \<and> nonce_challenge resp n
            \<and> proof_for L k ''POST'' (htu_of ep) n (w1 :: http_request list client_world) = (Inr raw, w2)
            \<and> header_values (hr_header b) ''DPoP'' = [raw])"
        by (intro allI impI) (simp only: list.inject simp_thms)
      moreover have "length [req1, req2] \<le> 2" by simp
      ultimately show ?thesis using q by blast
    qed
  qed
qed

section \<open>Discovery\<close>

text \<open>What the answer of discovery rests on.\<close>

definition confirmed :: "string \<Rightarrow> string \<Rightarrow> http_response \<Rightarrow> bool" where
  "confirmed issuer ep resp \<longleftrightarrow> hs_status resp = 200 \<and> ep \<noteq> []
     \<and> (\<exists>body m. read_limited (hs_body resp) = Inr body
          \<and> unmarshal dec_as_metadata zero_as_metadata body = Some m
          \<and> am_issuer m = issuer \<and> am_token_endpoint m = ep)"

lemma read_as_metadata_Inr: "read_as_metadata J issuer resp = Inr ep \<longleftrightarrow> confirmed issuer ep resp"
  by (auto simp: read_as_metadata_def confirmed_def split: option.splits if_splits)

lemma discover_Inr:
  assumes "discover J client issuer w = (Inr ep, w')"
  shows "map_of (cw_cache w') issuer = Some ep
    \<and> (map_of (cw_cache w) issuer = Some ep \<and> w' = w
       \<or> map_of (cw_cache w) issuer = None
         \<and> (\<exists>req resp. hr_method req = ''GET'' \<and> url_parse (as_metadata_url issuer) \<noteq> None
              \<and> fst (client req (cw_peer w)) = Inr resp \<and> confirmed issuer ep resp
              \<and> cw_peer w' = snd (client req (cw_peer w))
              \<and> map_of (cw_cache w') = (map_of (cw_cache w))(issuer \<mapsto> ep)))"
proof (cases "map_of (cw_cache w) issuer")
  case (Some e)
  with assms show ?thesis by (simp add: discover_def)
next
  case None
  then obtain req where req: "new_request J ''GET'' (as_metadata_url issuer) = Inr req"
    using assms by (cases "new_request J ''GET'' (as_metadata_url issuer)") (auto simp: discover_def)
  obtain y p where y: "client req (cw_peer w) = (y, p)" by fastforce
  from None assms req y obtain resp where resp: "y = Inr resp"
    by (cases y) (auto simp: discover_def client_send_def)
  with None assms req y have "read_as_metadata J issuer resp = Inr ep"
    "w' = w\<lparr>cw_peer := p, cw_cache := AList.update issuer ep (cw_cache w)\<rparr>"
    by (auto simp: discover_def client_send_def split: sum.splits)
  moreover have "hr_method req = ''GET''" "url_parse (as_metadata_url issuer) \<noteq> None"
    using req by (auto simp: new_request_def split: option.splits)
  ultimately show ?thesis
    using None y resp by (auto simp: read_as_metadata_Inr update_conv' intro!: exI [of _ req])
qed

lemma discover_Inl: "discover J client issuer w = (Inl e, w') \<Longrightarrow> cw_cache w' = cw_cache w"
  by (auto simp: discover_def client_send_def split: option.splits sum.splits prod.splits)

text \<open>The request of the client, as the validator reads it.\<close>

lemma request_reaches:
  assumes "token_request J L x ep (build_exchange_form xr) n w = (Inr req, w')"
    and "xr_subject_token xr \<noteq> []" and "xr_actor_token xr = [] \<or> xr_actor_token_type xr \<noteq> []"
    and "\<forall>s \<in> set (xr_scope xr). scope_word s"
    and "length (hr_body req) \<le> max_form_size" and "fst (parse_query (url_raw_query (hr_url req)))"
  shows "check_exchange_form (parse_form (received req)) = Inr (xr_subject_token xr, xr_actor_token xr)
    \<and> impersonation_grant (snd (parse_form (received req))) c =
       \<lparr>eg_subject = c, eg_actor = None, eg_is_delegation = False,
        eg_requested_audience = xr_audience xr, eg_requested_scope = xr_scope xr,
        eg_requested_resource = xr_resource xr, eg_requested_token_type = xr_requested_token_type xr,
        eg_act = None, eg_confirmation = bound_key_thumbprint c\<rparr>"
proof -
  obtain f where r: "hr_method req = ''POST''" "header_get (hr_header req) ''Content-Type'' = form_media_type"
    "hr_body req = form_encode f" "distinct (map fst f)"
    "\<forall>k. \<not> client_param k \<longrightarrow> values_of f k = values_of (build_exchange_form xr) k"
    using token_request_Inr [OF assms(1) build_exchange_form_distinct] by blast
  obtain g where g: "parse_form (received req) = (True, g)" "\<forall>k. values_of g k = values_of f k"
    using parse_form_received [OF r(1-4)] assms(5,6) r(3) by auto
  have v: "\<not> client_param k \<Longrightarrow> values_of g k = values_of (build_exchange_form xr) k" for k
    using g(2) r(5) by simp
  have t: "or_default s \<noteq> []" for s by (simp add: or_default_def TokenTypeAccessToken_def)
  have "str_fields [] = []" by (simp add: str_fields_def)
  moreover have "\<forall>k \<in> {''grant_type'', ''subject_token'', ''subject_token_type'', ''actor_token'',
      ''actor_token_type'', ''resource'', ''audience'', ''scope'', ''requested_token_type''}. \<not> client_param k"
    by (simp add: client_param_def)
  moreover have "xr_actor_token xr \<noteq> [] \<longrightarrow> xr_actor_token_type xr \<noteq> []" using assms(3) by blast
  ultimately show ?thesis
    using v t assms(2,4) str_fields_join [OF assms(4)]
    by (simp add: g(1) check_exchange_form_def impersonation_grant_def form_get_def build_exchange_form_values)
qed

section \<open>The validator behind a handler\<close>

text \<open>
  A token endpoint as a service builds it from the library: it validates the request, signs a token
  for the grant with \<open>mint\<close>, and writes the response or the error. A panic closes the connection.
\<close>

definition transmitted :: "response \<Rightarrow> http_response" where
  "transmitted rsp =
     \<lparr>hs_status = (case resp_status rsp of None \<Rightarrow> 200 | Some s \<Rightarrow> s), hs_header = resp_header rsp,
      hs_body = Inr (resp_body rsp)\<rparr>"

definition token_endpoint ::
  "('k, 's) jose \<Rightarrow> ('s, 'e) exchange_validator \<Rightarrow> (exchange_grant \<Rightarrow> issued_token)
     \<Rightarrow> ('s, 'e) world http_client" where
  "token_endpoint J v mint req w =
     (case validate_exchange J v (received req) w of
        (Inl ee, w1) \<Rightarrow>
          (case write_exchange_error (ExchangeFailure ee) new_response of
             None \<Rightarrow> (Inl ''EOF'', w1)
           | Some rsp \<Rightarrow> (Inr (transmitted rsp), w1))
      | (Inr g, w1) \<Rightarrow> (Inr (transmitted (snd (write_exchange_response (mint g) new_response))), w1))"

lemma sent_ok:
  assumes "utf8_issued t" and "it_access_token t \<noteq> []" and "it_expires_in t < 2 ^ 63"
    and "length (json_line (JObj (sort_keys (issued_members t)))) \<le> body_limit"
  shows "read_token_response (transmitted (snd (write_exchange_response t new_response)))
    = (Inr (issued_result t (json_line (JObj (sort_keys (issued_members t))))), [])"
  using parse_issued [OF assms(1-3)] assms(2,4)
  by (simp add: write_exchange_response_def transmitted_def no_store_json_def new_response_def
      read_token_response_def read_limited_def)

lemma sent_error:
  assumes "utf8_error ee" and "xe_code ee \<noteq> []" and "xe_code ee \<noteq> ''use_dpop_nonce''"
    and "xe_http_status ee = 0"
    and "length (json_line (JObj (sort_keys (exchange_error_members ee)))) \<le> body_limit"
  shows "\<exists>rsp. write_exchange_error (ExchangeFailure ee) new_response = Some rsp
    \<and> read_token_response (transmitted rsp)
      = (Inl (ExchangeFailure (ee\<lparr>xe_http_status := exchange_error_status (xe_code ee)\<rparr>)), [])"
proof -
  define st where "st = exchange_error_status (xe_code ee)"
  have st: "st = 400 \<or> st = 401" by (simp add: st_def exchange_error_status_def)
  define rsp where "rsp = write_body (json_line (JObj (sort_keys (exchange_error_members ee))))
      (write_header (nat st) (no_store_json new_response))"
  have w: "write_exchange_error (ExchangeFailure ee) new_response = Some rsp"
    using st assms(4) by (auto simp: write_exchange_error_def write_status_def rsp_def st_def [symmetric])
  have "transmitted rsp = \<lparr>hs_status = nat st, hs_header = resp_header rsp,
      hs_body = Inr (json_line (JObj (sort_keys (exchange_error_members ee))))\<rparr>"
    using st by (auto simp: transmitted_def rsp_def no_store_json_def new_response_def)
  then have "read_token_response (transmitted rsp) = (Inl (ExchangeFailure (ee\<lparr>xe_http_status := st\<rparr>)), [])"
    using st assms(3,5) parse_error_body [OF assms(1,2)]
    by (elim disjE) (simp_all add: read_token_response_def read_limited_def)
  with w show ?thesis by (auto simp: st_def)
qed

text \<open>The failures of the validator itself, when no policy chooses its own.\<close>

lemma exchange_deny_error: "exchange_deny ee w = (Inl e, w') \<Longrightarrow> e = ee"
  by (simp add: exchange_deny_def)

definition validator_error :: "exchange_error \<Rightarrow> bool" where
  "validator_error e \<longleftrightarrow> e \<in> {
     exchange_error_of ''invalid_request'' ''unparseable form'',
     exchange_error_of ''unsupported_grant_type'' [],
     exchange_error_of ''invalid_request'' ''subject_token and subject_token_type are required'',
     exchange_error_of ''invalid_request'' ''actor_token_type is required with actor_token'',
     exchange_error_of ''invalid_grant'' ''subject_token invalid'',
     exchange_error_of ''invalid_grant'' ''subject_token audience not accepted'',
     exchange_error_of ''invalid_grant'' ''actor_token invalid'',
     exchange_error_of ''invalid_grant'' ''actor_token audience not accepted'',
     exchange_error_of ''invalid_grant'' ''actor not permitted (may_act)'',
     exchange_error_of ''invalid_grant'' ''subject requires a permitted actor''}"

lemma validate_exchange_Inl:
  assumes "ev_policy v = None" and "validate_exchange J v r w = (Inl ee, w')"
  shows "validator_error ee"
proof (cases "check_exchange_form (parse_form r)")
  case (Inl e)
  with assms(2) have "ee = e" by (auto simp: validate_exchange_def exchange_deny_def)
  moreover have "validator_error e"
    using Inl by (auto simp: check_exchange_form_def validator_error_def split: prod.splits if_splits)
  ultimately show ?thesis by simp
next
  case (Inr p)
  obtain st at where p: "p = (st, at)" by (cases p)
  obtain x1 w1 where x: "verify_party J v ''subject_token'' st w = (x1, w1)" by fastforce
  show ?thesis
  proof (cases x1)
    case (Inl e)
    with assms(2) Inr p x have "ee = e" by (auto simp: validate_exchange_def exchange_deny_def)
    with Inl x show ?thesis
      by (auto simp: verify_party_def validator_error_def split: prod.splits sum.splits if_splits)
  next
    case S: (Inr subject)
    obtain y w2 where y: "with_actor J v at (impersonation_grant (snd (parse_form r)) subject) w1 = (y, w2)"
      by fastforce
    show ?thesis
    proof (cases y)
      case (Inl e)
      with assms(2) Inr p x S y have "ee = e" by (auto simp: validate_exchange_def exchange_deny_def)
      with Inl y show ?thesis
        by (auto simp: with_actor_def verify_party_def validator_error_def Let_def
            split: prod.splits sum.splits if_splits)
    next
      case (Inr g)
      with assms \<open>check_exchange_form _ = Inr p\<close> p x S y show ?thesis
        by (simp add: validate_exchange_def apply_policy_def)
    qed
  qed
qed

lemma validator_error_ok:
  assumes "validator_error e"
  shows "utf8_error e \<and> xe_code e \<noteq> [] \<and> xe_code e \<noteq> ''use_dpop_nonce'' \<and> xe_http_status e = 0
    \<and> length (json_line (JObj (sort_keys (exchange_error_members e)))) \<le> 300"
proof -
  let ?texts = "[(''invalid_request'', ''unparseable form''), (''unsupported_grant_type'', []),
     (''invalid_request'', ''subject_token and subject_token_type are required''),
     (''invalid_request'', ''actor_token_type is required with actor_token''),
     (''invalid_grant'', ''subject_token invalid''), (''invalid_grant'', ''subject_token audience not accepted''),
     (''invalid_grant'', ''actor_token invalid''), (''invalid_grant'', ''actor_token audience not accepted''),
     (''invalid_grant'', ''actor not permitted (may_act)''),
     (''invalid_grant'', ''subject requires a permitted actor'')]"
  have "e \<in> (\<lambda>(c, d). exchange_error_of c d) ` set ?texts"
    using assms unfolding validator_error_def list.set image_insert image_empty prod.case .
  then obtain c d where e: "e = exchange_error_of c d" and cd: "(c, d) \<in> set ?texts"
    by (elim imageE) (simp only: split_paired_all prod.case)
  have "\<forall>(c, d) \<in> set ?texts. utf8 c \<and> utf8 d \<and> c \<noteq> [] \<and> c \<noteq> ''use_dpop_nonce''"
    by code_simp
  from bspec [OF this cd] have "utf8 c \<and> utf8 d \<and> c \<noteq> [] \<and> c \<noteq> ''use_dpop_nonce''"
    unfolding prod.case .
  moreover have "\<forall>(c, d) \<in> set ?texts.
      length (json_line (JObj (sort_keys (exchange_error_members (exchange_error_of c d))))) \<le> 300"
    by code_simp
  from bspec [OF this cd] have "length (json_line (JObj (sort_keys (exchange_error_members (exchange_error_of c d))))) \<le> 300"
    unfolding prod.case .
  moreover have "utf8 []" by (simp add: utf8_def)
  ultimately show ?thesis
    unfolding e utf8_error_def by (simp add: exchange_error_of_def)
qed

text \<open>One request to such an endpoint.\<close>

lemma exchange_do_endpoint:
  assumes c: "tx_client x = token_endpoint J v mint" and pol: "ev_policy v = None"
    and t: "token_request J L x ep f n w = (Inr req, w1)"
    and mint: "\<forall>g. utf8_issued (mint g) \<and> it_access_token (mint g) \<noteq> [] \<and> it_expires_in (mint g) < 2 ^ 63
      \<and> length (json_line (JObj (sort_keys (issued_members (mint g))))) \<le> body_limit"
  shows "exchange_do J L x ep f n w =
    (case validate_exchange J v (received req) (cw_peer w) of
       (Inl ee, s) \<Rightarrow>
         ((Inl (ExchangeFailure (ee\<lparr>xe_http_status := exchange_error_status (xe_code ee)\<rparr>)), []), w1\<lparr>cw_peer := s\<rparr>)
     | (Inr g, s) \<Rightarrow>
         ((Inr (issued_result (mint g) (json_line (JObj (sort_keys (issued_members (mint g)))))), []),
          w1\<lparr>cw_peer := s\<rparr>))"
proof -
  have p: "cw_peer w1 = cw_peer w" using token_request_peer [OF t] by simp
  obtain r s where r: "validate_exchange J v (received req) (cw_peer w) = (r, s)" by fastforce
  show ?thesis
  proof (cases r)
    case (Inr g)
    have "read_token_response (transmitted (snd (write_exchange_response (mint g) new_response)))
      = (Inr (issued_result (mint g) (json_line (JObj (sort_keys (issued_members (mint g)))))), [])"
      using mint by (intro sent_ok) auto
    with r Inr t p show ?thesis
      by (simp add: exchange_do_def c client_send_def token_endpoint_def)
  next
    case (Inl ee)
    have "validator_error ee" using validate_exchange_Inl [OF pol] r Inl by simp
    note ok = validator_error_ok [OF this]
    have "(300 :: nat) \<le> body_limit" by (simp add: body_limit_def)
    with ok obtain rsp where "write_exchange_error (ExchangeFailure ee) new_response = Some rsp"
      "read_token_response (transmitted rsp)
        = (Inl (ExchangeFailure (ee\<lparr>xe_http_status := exchange_error_status (xe_code ee)\<rparr>)), [])"
      using sent_error [of ee] by fastforce
    with r Inl t p show ?thesis
      by (simp add: exchange_do_def c client_send_def token_endpoint_def)
  qed
qed

end
