(* ===== verification/Sessions.thy ===== *)
theory Sessions
  imports Outcomes
begin

text \<open>
  Several requests, one after the other, through one middleware: what the replay cache has
  recorded for one request binds the later ones.
\<close>

section \<open>One request\<close>

definition serve ::
  "('k, 's) jose \<Rightarrow> ('s, 'e) bearer_mw \<Rightarrow> ('s, 'e) next_handler \<Rightarrow> request \<Rightarrow> ('s, 'e) world
     \<Rightarrow> ('s, 'e) world" where
  "serve J mw nxt r w = snd (handler J mw nxt r new_response w)"

definition serve_all ::
  "('k, 's) jose \<Rightarrow> ('s, 'e) bearer_mw \<Rightarrow> ('s, 'e) next_handler \<Rightarrow> request list \<Rightarrow> ('s, 'e) world
     \<Rightarrow> ('s, 'e) world" where
  "serve_all J mw nxt rs w = fold (serve J mw nxt) rs w"

text \<open>A next handler that leaves the replay cache to the middleware.\<close>

definition unmeddling :: "('s, 'e) next_handler \<Rightarrow> bool" where
  "unmeddling nxt \<longleftrightarrow> (\<forall>c r rsp w. remembers w (snd (nxt c r rsp w)))"

lemma heard_tick_later: "heard w w' \<Longrightarrow> heard w (w'\<lparr>w_ext := e, w_tick := Suc (w_tick w')\<rparr>)"
  by (auto simp: heard_def remembers_def later_def)

context pipeline
begin

lemma denial_remembers:
  assumes "denial mw r rsp w rsp' w'"
  shows "remembers w w'"
proof -
  obtain ae ev c w1 where h: "heard w w1" and d: "(rsp', w') = deny mw r ae ev c rsp w1"
    using assms unfolding denial_def by blast
  have "remembers w1 w'" using d by (simp add: deny_def Let_def emit_remembers)
  with heard_remembers [OF h] show ?thesis by (rule remembers_trans)
qed

lemma allow_events_remembers: "remembers w (allow_events mw r c s w)"
  by (auto simp: allow_events_def Let_def intro: emit_remembers remembers_trans [OF emit_remembers])

lemma guard_remembers:
  assumes "guard J mw r rsp w = (a, rsp', w')"
  shows "remembers w w'"
proof (cases a)
  case None
  with assms show ?thesis using guard_None denial_remembers by blast
next
  case (Some c)
  with assms have "guard J mw r rsp w = (Some c, rsp', w')" by simp
  then obtain s raw w2 where "admits J mw r s raw c w w2" "w' = allow_events mw r c s w2"
    unfolding guard_Some by blast
  then show ?thesis
    using admits_heard heard_remembers allow_events_remembers remembers_trans by metis
qed

lemma handler_remembers:
  assumes "unmeddling nxt"
  shows "remembers w (snd (handler J mw nxt r rsp w))"
proof -
  obtain a rsp1 w1 where g: "guard J mw r rsp w = (a, rsp1, w1)" by (metis prod_cases3)
  have "remembers w1 (snd (nxt c r rsp1 w1))" for c using assms by (simp add: unmeddling_def)
  with guard_remembers [OF g] g show ?thesis
    by (cases a) (auto simp: handler_def intro: remembers_trans)
qed

lemma serve_all_remembers: "unmeddling nxt \<Longrightarrow> remembers w (serve_all J mw nxt rs w)"
  by (induction rs arbitrary: w)
    (auto simp: serve_all_def serve_def intro: remembers_trans handler_remembers)

end

section \<open>What an admission records\<close>

text \<open>The proof of a request: the only DPoP header it carries, parsed and verified.\<close>

definition proof_of :: "('k, 's) jose \<Rightarrow> ('s, 'e) bearer_mw \<Rightarrow> request \<Rightarrow> dpop_proof \<Rightarrow> bool" where
  "proof_of J mw r p \<longleftrightarrow>
     (\<exists>raw. header_values (req_header r) ''DPoP'' = [raw] \<and> proves J (mw_dpop_algs mw) raw p)"

definition expiry_of :: "('s, 'e) bearer_mw \<Rightarrow> dpop_proof \<Rightarrow> instant" where
  "expiry_of mw p = time_add (dp_iat p) (mw_proof_max_age mw)"

lemma proves_unique: "proves J algs raw p \<Longrightarrow> proves J algs raw q \<Longrightarrow> p = q"
  unfolding parse_and_verify_proof_Inr [symmetric] by simp

lemma proof_of_unique: "proof_of J mw r p \<Longrightarrow> proof_of J mw r q \<Longrightarrow> p = q"
  by (auto simp: proof_of_def dest: proves_unique)

context pipeline
begin

text \<open>
  Between the start and the end of an admitted DPoP request there is an instant at which its jti
  was unseen, and from which on it is recorded.
\<close>

lemma admitted_jti:
  assumes g: "guard J mw r rsp w = (Some c, rsp', w')"
    and s: "extract_token r = Some (''DPoP'', raw)" and p: "proof_of J mw r p"
    and m: "mw_replay mw = mem_seen"
  shows "\<exists>w1 w2. remembers w w1 \<and> w_clock w2 = w_clock w1 \<and> w_tick w2 = Suc (w_tick w1)
    \<and> \<not> (\<exists>x. mr_seen (w_mem w1) (dp_jti p) = Some x \<and> w_clock w1 (w_tick w1) < x)
    \<and> mr_seen (w_mem w2) (dp_jti p) = Some (expiry_of mw p)
    \<and> remembers w2 w'"
proof -
  obtain w3 where ad: "admits J mw r ''DPoP'' raw c w w3" and w': "w' = allow_events mw r c ''DPoP'' w3"
    using g s unfolding guard_Some admits_def by auto
  obtain w0 e where v: "verify J (verifier_of mw) raw w = (Inr c, w0)"
    and snd: "sender_ok J mw r raw c ''DPoP'' (w0\<lparr>w_ext := e\<rparr>) w3"
    using ad unfolding admits_def by blast
  obtain q rp where "proof_ok J mw r raw c rp q (w0\<lparr>w_ext := e\<rparr>) w3"
    using snd unfolding sender_ok_def by auto
  then obtain w1 where pr: "proof_of J mw r q"
    and nc: "nonce_ok mw r q (w0\<lparr>w_ext := e, w_tick := Suc (w_tick w0)\<rparr>) w1"
    and jt: "jti_ok mw q w1 w3"
    unfolding proof_ok_def proof_of_def by auto
  have q: "q = p" using pr p by (rule proof_of_unique)
  have "heard w (w0\<lparr>w_ext := e, w_tick := Suc (w_tick w0)\<rparr>)"
    using verify_heard [OF v] by (simp add: heard_tick_later)
  moreover have "heard (w0\<lparr>w_ext := e, w_tick := Suc (w_tick w0)\<rparr>) w1"
    using nc nonce_heard by (auto simp: nonce_ok_def split: option.splits)
  ultimately have r1: "remembers w w1" using heard_trans heard_remembers by blast
  obtain mm where sn: "seen_at (w_clock w1 (w_tick w1)) (dp_jti p) (expiry_of mw p) (w_mem w1) = (False, mm)"
    and w3: "w3 = w1\<lparr>w_tick := Suc (w_tick w1), w_mem := mm\<rparr>"
    using jt unfolding jti_ok_def m q expiry_of_def mem_seen_eq by blast
  have "\<not> (\<exists>x. mr_seen (w_mem w1) (dp_jti p) = Some x \<and> w_clock w1 (w_tick w1) < x)"
    using sn fst_seen_at by (metis fst_conv)
  moreover have "mr_seen (w_mem w3) (dp_jti p) = Some (expiry_of mw p)"
    using mem.records [OF sn] w3 by simp
  moreover have "remembers w3 w'" unfolding w' by (rule allow_events_remembers)
  ultimately show ?thesis using r1 w3 by (intro exI [of _ w1] exI [of _ w3]) simp
qed

text \<open>Two admitted requests with one jti: the first record has expired by the end of the second.\<close>

lemma no_second_admission:
  assumes m: "mw_replay mw = mem_seen" and n: "unmeddling nxt" and st: "steady (w_clock w)"
    and g1: "guard J mw r1 rsp1 w = (Some c1, rsp1', w1)"
    and s1: "extract_token r1 = Some (''DPoP'', raw1)" and p1: "proof_of J mw r1 p1"
    and mid: "w2 = serve_all J mw nxt rs (snd (nxt c1 r1 rsp1' w1))"
    and g2: "guard J mw r2 rsp2 w2 = (Some c2, rsp2', w3)"
    and s2: "extract_token r2 = Some (''DPoP'', raw2)" and p2: "proof_of J mw r2 p2"
    and j: "dp_jti p2 = dp_jti p1"
  shows "expiry_of mw p1 \<le> w_clock w (w_tick w3)"
proof (rule ccontr)
  assume "\<not> ?thesis"
  then have late: "w_clock w (w_tick w3) < expiry_of mw p1" by simp
  obtain a b where a: "remembers w a" "w_clock b = w_clock a"
    "mr_seen (w_mem b) (dp_jti p1) = Some (expiry_of mw p1)" "remembers b w1"
    using admitted_jti [OF g1 s1 p1 m] by blast
  obtain d f where d: "remembers w2 d" "w_tick f = Suc (w_tick d)"
    "\<not> (\<exists>x. mr_seen (w_mem d) (dp_jti p1) = Some x \<and> w_clock d (w_tick d) < x)" "remembers f w3"
    using admitted_jti [OF g2 s2 p2 m] j by metis
  have "remembers w1 w2"
    unfolding mid using n serve_all_remembers remembers_trans unmeddling_def by metis
  then have bd: "remembers b d" using a(4) d(1) remembers_trans by blast
  have clk: "w_clock b = w_clock w" "w_clock d = w_clock w" "w_tick b \<le> w_tick d"
    using bd a(1,2) by (auto simp: remembers_def later_def)
  have "w_tick d < w_tick w3"
    using d(2,4) by (simp add: remembers_def later_def)
  then have before: "w_clock w i < expiry_of mw p1" if "i \<le> w_tick d" for i
    using that late steadyD [OF st, of i "w_tick w3"] by simp
  have "mr_seen (w_mem d) (dp_jti p1) = Some (expiry_of mw p1)"
    using bd a(3) before clk unfolding remembers_def by simp
  moreover have "w_clock d (w_tick d) < expiry_of mw p1" using before clk by simp
  ultimately show False using d(3) by blast
qed

end

end
