(* ===== verification/Demo.thy ===== *)
theory Demo
  imports Sessions GoJsonPrint
begin

text \<open>
  A concrete deployment, to evaluate the definitions on: a JOSE library that knows two tokens and
  one proof, a resource server, and requests to it. It only serves the witnesses.
\<close>

section \<open>Tokens\<close>

definition demo_token :: string where
  "demo_token = b64_encode ''{}'' @ ''.'' @ b64_encode ''{}'' @ ''.'' @ ''c2ln''"

text \<open>A token bound to the key with thumbprint \<open>abc\<close>.\<close>

definition bound_payload :: string where
  "bound_payload = json_print (JObj [(''cnf'', JObj [(''jkt'', JStr ''YWJj'')])])"

definition demo_bound :: string where
  "demo_bound = b64_encode ''{}'' @ ''.'' @ b64_encode bound_payload @ ''.'' @ ''c2ln''"

definition demo_now :: instant where
  "demo_now = (1700000000 + unix_to_internal) * nanos"

definition proof_payload :: string where
  "proof_payload = json_print (JObj [(''jti'', JStr ''j1''), (''htm'', JStr ''GET''),
     (''htu'', JStr ''https://rs.example/a''), (''iat'', JNum ''1700000000''),
     (''ath'', JStr (ath_for demo_bound))])"

definition demo_jose :: "(string, unit) jose" where
  "demo_jose = \<lparr>
     jws_parse = (\<lambda>raw.
       if raw = demo_token \<or> raw = demo_bound
       then Inr [\<lparr>hdr_kid = Some ''k1'', hdr_alg = Some ''RS256'', hdr_typ = None, hdr_jwk = None\<rparr>]
       else if raw = ''proof''
       then Inr [\<lparr>hdr_kid = None, hdr_alg = Some ''ES256'', hdr_typ = Some ''dpop+jwt'',
                  hdr_jwk = Some ''abc''\<rparr>]
       else Inl ''invalid''),
     jws_verify = (\<lambda>raw alg key. if raw = ''proof'' \<and> key = ''abc'' then Inr proof_payload
                                 else Inl ''invalid''),
     jwa_lookup = (\<lambda>n. if n \<in> {''RS256'', ''ES256'', ''EdDSA''} then Some False else None),
     jwk_parse = (\<lambda>_. Inr ()),
     jwk_lookup = (\<lambda>_ kid. kid = ''k1''),
     jwk_private = (\<lambda>_. Inr False),
     jwk_thumbprint = (\<lambda>k. Inr k),
     jwt_parse = (\<lambda>raw ks iss skew t.
       if t - skew < demo_now + minutes 60
       then Inr \<lparr>tok_subject = Some ''alice'', tok_issuer = Some iss,
                 tok_audience = Some [''https://rs.example/a''],
                 tok_expiration = Some (demo_now + minutes 60), tok_issued_at = None,
                 tok_not_before = None,
                 tok_claim = (\<lambda>k. if k = ''scope'' then Some (JStr ''read'') else None)\<rparr>
       else Inl ''expired''),
     uprint = (\<lambda>_. False)\<rparr>"

section \<open>The resource server\<close>

definition demo_opts :: "dpop_mode \<Rightarrow> (unit, unit) bearer_opts" where
  "demo_opts mode = \<lparr>
     bo_jwks_uri = [], bo_keys_jwks = Some ''{}'', bo_issuer = ''https://as.example'',
     bo_audience = [], bo_resource = ''https://rs.example/a'', bo_realm = [],
     bo_required_scopes = [''read''], bo_clock_skew = 0, bo_jwks_cache_ttl = 0,
     bo_allowed_algorithms = [], bo_dpop = mode, bo_claim_validator = None,
     bo_error_handler = None, bo_token_lookup = 0, bo_dpop_signing_algs = [],
     bo_dpop_proof_max_age = 0, bo_dpop_replay = None, bo_dpop_nonce = None,
     bo_trust_forwarded_headers = False\<rparr>"

definition demo_meta :: string where
  "demo_meta = ''https://rs.example/.well-known/oauth-protected-resource/a''"

definition demo_mw :: "dpop_mode \<Rightarrow> (unit, unit) bearer_mw" where
  "demo_mw mode = \<lparr>
     mw_keys = static_lookup (), mw_issuer = ''https://as.example'',
     mw_audiences = [''https://rs.example/a''], mw_resource = ''https://rs.example/a'',
     mw_required_scope = [''read''], mw_skew = 60 * second,
     mw_algs = [''EdDSA'', ''ES256'', ''RS256''], mw_claim_val = None,
     mw_on_error = (\<lambda>_. default_error_handler (\<lambda>_. False) ''https://rs.example/a'' demo_meta),
     mw_dpop_mode = mode,
     mw_dpop_algs = (if mode = DPoPOff then [] else [''EdDSA'', ''RS256'', ''ES256'']),
     mw_dpop_algs_list = (if mode = DPoPOff then [] else [''ES256'', ''RS256'', ''EdDSA'']),
     mw_proof_max_age = (if mode = DPoPOff then 0 else 60 * second),
     mw_replay = (if mode = DPoPOff then (\<lambda>_ _ w. (Inl ''nil'', w)) else mem_seen),
     mw_nonce = None, mw_trust_fwd = False\<rparr>"

text \<open>A world whose clock stands at \<open>t\<close>, after \<open>k\<close> readings, with a replay cache.\<close>

definition demo_at :: "instant \<Rightarrow> nat \<Rightarrow> event list \<Rightarrow> mem_replay \<Rightarrow> (unit, unit) world" where
  "demo_at t k evs m = \<lparr>w_clock = (\<lambda>_. t), w_tick = k, w_net = (\<lambda>_. TransportError ''down''),
     w_gets = [], w_audit = evs, w_keys = empty_key_cache, w_mem = m, w_ext = ()\<rparr>"

abbreviation demo_world :: "(unit, unit) world" where
  "demo_world \<equiv> demo_at demo_now 0 [] new_mem_replay"

lemma demo_at_sel [simp]:
  "w_clock (demo_at t k evs m) = (\<lambda>_. t)" "w_tick (demo_at t k evs m) = k"
  "w_audit (demo_at t k evs m) = evs" "w_mem (demo_at t k evs m) = m" "w_ext (demo_at t k evs m) = ()"
  "(demo_at t k evs m)\<lparr>w_tick := l\<rparr> = demo_at t l evs m"
  "(demo_at t k evs m)\<lparr>w_audit := evs'\<rparr> = demo_at t k evs' m"
  "(demo_at t k evs m)\<lparr>w_mem := m'\<rparr> = demo_at t k evs m'"
  "(demo_at t k evs m)\<lparr>w_ext := ()\<rparr> = demo_at t k evs m"
  by (simp_all add: demo_at_def)

lemma demo_at_now [simp]: "now (demo_at t k evs m) = (t, demo_at t (Suc k) evs m)"
  by (simp add: now_def)

definition demo_request :: "(string \<times> string) list \<Rightarrow> request" where
  "demo_request hs = \<lparr>req_method = ''GET'', req_path = ''/a'', req_host = ''rs.example'',
     req_tls = True, req_header = header_of hs, req_remote_addr = ''192.0.2.1:4711''\<rparr>"

definition bearer_request :: "string \<Rightarrow> request" where
  "bearer_request tok = demo_request [(''Authorization'', ''Bearer '' @ tok)]"

definition dpop_request :: "string \<Rightarrow> request" where
  "dpop_request tok = demo_request [(''Authorization'', ''DPoP '' @ tok), (''DPoP'', ''proof'')]"

definition demo_claims :: "string \<Rightarrow> claims" where
  "demo_claims jkt = \<lparr>cl_subject = ''alice'', cl_issuer = ''https://as.example'',
     cl_audience = [''https://rs.example/a''], cl_expiry = demo_now + minutes 60,
     cl_issued_at = zero_time, cl_not_before = zero_time, cl_scope = [''read''],
     cl_raw = (if jkt = [] then ''{}'' else bound_payload), cl_cnf_jkt = jkt\<rparr>"

definition demo_proof :: dpop_proof where
  "demo_proof = \<lparr>dp_jkt = ''YWJj'', dp_htm = ''GET'', dp_htu = ''https://rs.example/a'',
     dp_iat = demo_now, dp_jti = ''j1'', dp_ath = ath_for demo_bound, dp_nonce = []\<rparr>"

section \<open>What the definitions give on it\<close>

lemma demo_meta_eq: "derive_challenge_params (demo_opts mode) = (''https://rs.example/a'', demo_meta)"
proof -
  have "metadata_path_for ''https://rs.example/a'' = Inr ''/.well-known/oauth-protected-resource/a''"
    by code_simp
  moreover have "resource_metadata_url ''https://rs.example/a'' ''/.well-known/oauth-protected-resource/a'' = demo_meta"
    by code_simp
  ultimately show ?thesis by (simp add: derive_challenge_params_def demo_opts_def)
qed

lemma demo_configure: "configure demo_jose (demo_opts mode) = Inr (demo_mw mode)"
proof -
  have algs: "parse_algs demo_jose [] = Inr [''EdDSA'', ''ES256'', ''RS256'']"
    "parse_algs demo_jose [''ES256'', ''RS256'', ''EdDSA''] = Inr [''EdDSA'', ''RS256'', ''ES256'']"
    by (simp_all add: parse_algs_def demo_jose_def)
  have keys: "jwk_parse demo_jose x = Inr ()" "uprint demo_jose = (\<lambda>_. False)" for x
    by (simp_all add: demo_jose_def)
  show ?thesis
    unfolding configure_def demo_meta_eq
    by (simp add: validate_bearer_opts_def resolve_key_source_def build_dpop_runtime_def
        accepted_audiences_def demo_mw_def keys algs demo_opts_def Let_def)
qed

lemma demo_payloads:
  "token_payload demo_token = ''{}''" "token_payload demo_bound = bound_payload"
  unfolding demo_token_def demo_bound_def by (rule token_payload_compact)+

lemma demo_cnf: "extract_cnf ''{}'' = []" "extract_cnf bound_payload = ''YWJj''"
  by code_simp+

lemma demo_distinct:
  "demo_token \<noteq> demo_bound" "demo_token \<noteq> ''proof''" "demo_bound \<noteq> ''proof''"
  by code_simp+

lemma demo_headers:
  "header_values (req_header (bearer_request tok)) ''Authorization'' = [''Bearer '' @ tok]"
  "header_values (req_header (bearer_request tok)) ''DPoP'' = []"
  "header_values (req_header (dpop_request tok)) ''Authorization'' = [''DPoP '' @ tok]"
  "header_values (req_header (dpop_request tok)) ''DPoP'' = [''proof'']"
proof -
  have k: "canonical_key ''Authorization'' = ''Authorization''" "canonical_key ''DPoP'' = ''Dpop''"
    by code_simp+
  show "header_values (req_header (bearer_request tok)) ''Authorization'' = [''Bearer '' @ tok]"
    "header_values (req_header (bearer_request tok)) ''DPoP'' = []"
    "header_values (req_header (dpop_request tok)) ''Authorization'' = [''DPoP '' @ tok]"
    "header_values (req_header (dpop_request tok)) ''DPoP'' = [''proof'']"
    by (simp_all add: bearer_request_def dpop_request_def demo_request_def header_of_def
        header_values_def header_add_def k no_header_def)
qed

lemma trim_space_id:
  assumes "ascii s" "s \<noteq> []" "33 \<le> byte (hd s)" "33 \<le> byte (last s)"
  shows "trim_space s = s"
proof -
  have sp: "\<not> is_space (byte c)" if "33 \<le> byte c" "byte c < 128" for c :: char
    using that by (auto simp: is_space_def)
  obtain c cs where c: "s = c # cs" using assms(2) by (cases s) auto
  obtain d ds where d: "s = ds @ [d]" using assms(2) by (cases s rule: rev_cases) auto
  have hd_eq: "hd s = c" and last_eq: "last s = d" using c by simp (simp add: d)
  have "c \<in> set s" "d \<in> set s" using c by simp (simp add: d)
  then have "byte c < 128" "byte d < 128" using assms(1) by (simp_all add: ascii_def list_all_iff)
  then have "\<not> is_space (byte c)" "\<not> is_space (byte d)" using sp assms(3,4) hd_eq last_eq by simp_all
  then have "dropWhile (is_space \<circ> fst) (runes s) = runes s"
    "dropWhile (is_space \<circ> fst) (rev (runes s)) = rev (runes s)"
    unfolding runes_ascii [OF assms(1)] by (simp add: c, simp add: d)
  then show ?thesis by (simp add: trim_space_def)
qed

lemma demo_trim: "trim_space demo_token = demo_token" "trim_space demo_bound = demo_bound"
  by (rule trim_space_id; code_simp)+

lemma demo_nonempty: "demo_token \<noteq> []" "demo_bound \<noteq> []"
  by (simp_all add: demo_token_def demo_bound_def)

lemma demo_extract:
  "extract_token (bearer_request demo_token) = Some (''Bearer'', demo_token)"
  "extract_token (bearer_request demo_bound) = Some (''Bearer'', demo_bound)"
  "extract_token (dpop_request demo_bound) = Some (''DPoP'', demo_bound)"
proof -
  have f: "equal_fold ''Bearer'' ''Bearer''" "\<not> equal_fold ''DPoP'' ''Bearer''" "equal_fold ''DPoP'' ''DPoP''"
    by code_simp+
  show "extract_token (bearer_request demo_token) = Some (''Bearer'', demo_token)"
    "extract_token (bearer_request demo_bound) = Some (''Bearer'', demo_bound)"
    "extract_token (dpop_request demo_bound) = Some (''DPoP'', demo_bound)"
    by (simp_all add: extract_token_def demo_headers demo_trim demo_nonempty f numeral_2_eq_2)
qed

lemma demo_verify:
  assumes "t < demo_now + minutes 60"
  shows "verify demo_jose (verifier_of (demo_mw mode)) demo_token (demo_at t k evs m)
      = (Inr (demo_claims []), demo_at t (Suc k) evs m)"
    and "verify demo_jose (verifier_of (demo_mw mode)) demo_bound (demo_at t k evs m)
      = (Inr (demo_claims ''YWJj''), demo_at t (Suc k) evs m)"
proof -
  have sc: "token_scope \<lparr>tok_subject = a, tok_issuer = b, tok_audience = c, tok_expiration = d,
      tok_issued_at = e, tok_not_before = f,
      tok_claim = (\<lambda>k. if k = ''scope'' then Some (JStr ''read'') else None)\<rparr> = [''read'']" for a b c d e f
  proof -
    have "str_fields ''read'' = [''read'']" by (simp add: str_fields_def is_space_def)
    then show ?thesis by (simp add: token_scope_def)
  qed
  have lt: "t - mw_skew (demo_mw mode) < demo_now + minutes 60"
    using assms by (simp add: demo_mw_def nanos_def)
  show "verify demo_jose (verifier_of (demo_mw mode)) demo_token (demo_at t k evs m)
      = (Inr (demo_claims []), demo_at t (Suc k) evs m)"
    "verify demo_jose (verifier_of (demo_mw mode)) demo_bound (demo_at t k evs m)
      = (Inr (demo_claims ''YWJj''), demo_at t (Suc k) evs m)"
    using lt
    by (simp_all add: verify_def header_kid_alg_def demo_jose_def demo_distinct demo_mw_def static_lookup_def
        new_claims_def demo_claims_def demo_payloads demo_cnf or_zero_def sc)
qed

lemma demo_proof_decodes:
  "unmarshal dec_proof_claim zero_proof_claims proof_payload = Some
     \<lparr>pc_jti = ''j1'', pc_htm = ''GET'', pc_htu = ''https://rs.example/a'', pc_iat = 1700000000,
      pc_ath = ath_for demo_bound, pc_nonce = []\<rparr>"
proof -
  let ?v = "JObj [(''jti'', JStr ''j1''), (''htm'', JStr ''GET''), (''htu'', JStr ''https://rs.example/a''),
    (''iat'', JNum ''1700000000''), (''ath'', JStr (ath_for demo_bound))]"
  have u: "utf8 ''jti''" "utf8 ''j1''" "utf8 ''htm''" "utf8 ''GET''" "utf8 ''htu''" "utf8 ''iat''" "utf8 ''ath''"
    "utf8 ''https://rs.example/a''" "json_number ''1700000000'' = Some (''1700000000'', [])"
    by code_simp+
  have "utf8 (ath_for demo_bound)" unfolding ath_for_def by (rule ascii_utf8 [OF b64_ascii])
  then have "json_parse proof_payload = Some ?v"
    unfolding proof_payload_def by (intro json_parse_print) (simp_all add: u max_nesting_def)
  moreover have k: "key_is ''jti'' ''jti''" "\<not> key_is ''jti'' ''htm''" "key_is ''htm'' ''htm''"
    "\<not> key_is ''jti'' ''htu''" "\<not> key_is ''htm'' ''htu''" "key_is ''htu'' ''htu''"
    "\<not> key_is ''jti'' ''iat''" "\<not> key_is ''htm'' ''iat''" "\<not> key_is ''htu'' ''iat''" "key_is ''iat'' ''iat''"
    "\<not> key_is ''jti'' ''ath''" "\<not> key_is ''htm'' ''ath''" "\<not> key_is ''htu'' ''ath''"
    "\<not> key_is ''iat'' ''ath''" "key_is ''ath'' ''ath''"
    by code_simp+
  moreover have "parse_int64 ''1700000000'' = Some 1700000000"
    by (simp add: parse_int64_def parse_nat_def digit_val_def)
  ultimately show ?thesis
    by (simp add: unmarshal_def dec_proof_claim_def zero_proof_claims_def)
qed

lemma demo_proves: "mode \<noteq> DPoPOff \<Longrightarrow> proves demo_jose (mw_dpop_algs (demo_mw mode)) ''proof'' demo_proof"
proof -
  assume m: "mode \<noteq> DPoPOff"
  have b: "b64_encode ''abc'' = ''YWJj''" by code_simp
  have t: "time_unix 1700000000 = demo_now"
    unfolding demo_now_def by (rule time_unix_exact) simp_all
  show ?thesis
    using m demo_distinct b t demo_proof_decodes
    by (auto simp: proves_def demo_jose_def demo_mw_def proof_of_claims_def demo_proof_def)
qed

text \<open>The instants at which the proof is in its window.\<close>

definition demo_window :: "instant \<Rightarrow> bool" where
  "demo_window t \<longleftrightarrow> demo_now - 60 * second \<le> t \<and> t \<le> demo_now + 60 * second"

lemma demo_window_now [simp]: "demo_window demo_now" "demo_window (demo_now + 60 * second)"
  by (simp_all add: demo_window_def nanos_def)

lemma demo_window_valid: "demo_window t \<Longrightarrow> t < demo_now + minutes 60"
  by (simp add: demo_window_def minutes_def nanos_def)

lemma demo_time_add:
  "demo_window t \<Longrightarrow> time_add t (60 * second) = t + 60 * second"
  "demo_window t \<Longrightarrow> time_add t (- (60 * second)) = t - 60 * second"
  by (subst time_add_exact;
      simp add: demo_window_def demo_now_def nanos_def unix_to_internal_def)+

lemma demo_fits:
  assumes "mode \<noteq> DPoPOff" and "demo_window t"
  shows "proof_fits (demo_mw mode) (dpop_request demo_bound) demo_bound (demo_claims ''YWJj'') demo_proof t"
proof -
  have "htu_equal ''https://rs.example/a'' ''https://rs.example/a''" by code_simp
  then show ?thesis using assms demo_time_add [OF assms(2)]
    by (simp add: proof_fits_def demo_proof_def demo_mw_def request_htu_def Let_def dpop_request_def
        demo_request_def demo_claims_def bound_key_thumbprint_def demo_window_def)
qed

lemma demo_no_validator [simp]: "mw_claim_val (demo_mw mode) = None"
  by (simp add: demo_mw_def)

lemma demo_claims_ok: "claims_ok (demo_mw mode) (demo_claims jkt)"
  by (simp add: claims_ok_def demo_mw_def demo_claims_def)

text \<open>The admission of the plain token, and of the bound one with its proof.\<close>

lemma demo_admits_bearer:
  assumes "mode \<noteq> DPoPRequired" and t: "t < demo_now + minutes 60"
  shows "admits demo_jose (demo_mw mode) (bearer_request demo_token) ''Bearer'' demo_token
    (demo_claims []) (demo_at t k evs m) (demo_at t (Suc k) evs m)"
  unfolding admits_def
  using assms(1)
  by (intro conjI exI [of _ "demo_at t (Suc k) evs m"] exI [of _ "()"])
    (simp_all add: demo_extract demo_claims_ok demo_verify [OF t] validator_ok_def sender_ok_def
      demo_headers bound_key_thumbprint_def, simp_all add: demo_mw_def demo_claims_def)

abbreviation demo_expiry :: instant where
  "demo_expiry \<equiv> demo_now + 60 * second"

lemma demo_admits_dpop:
  assumes mode: "mode \<noteq> DPoPOff" and t: "demo_window t"
    and new: "\<not> fst (seen_at t ''j1'' demo_expiry m)"
  shows "admits demo_jose (demo_mw mode) (dpop_request demo_bound) ''DPoP'' demo_bound
    (demo_claims ''YWJj'') (demo_at t k evs m)
    (demo_at t (k + 3) evs (snd (seen_at t ''j1'' demo_expiry m)))"
proof -
  let ?w1 = "demo_at t (Suc k) evs m" and ?w2 = "demo_at t (k + 2) evs m"
    and ?w3 = "demo_at t (k + 3) evs (snd (seen_at t ''j1'' demo_expiry m))"
  have "time_add demo_now (60 * second) = demo_expiry" by (rule demo_time_add(1)) simp
  then have "jti_ok (demo_mw mode) demo_proof ?w2 ?w3"
    unfolding jti_ok_def using mode new
    by (simp add: demo_mw_def demo_proof_def mem_seen_def split_beta numeral_3_eq_3)
  moreover have "nonce_ok (demo_mw mode) (dpop_request demo_bound) demo_proof ?w2 ?w2"
    by (simp add: nonce_ok_def demo_mw_def)
  ultimately have "proof_ok demo_jose (demo_mw mode) (dpop_request demo_bound) demo_bound
      (demo_claims ''YWJj'') ''proof'' demo_proof ?w1 ?w3"
    unfolding proof_ok_def using demo_proves [OF mode] demo_fits [OF mode t]
    by (intro conjI exI [of _ ?w2]) (simp_all add: demo_headers)
  then have "sender_ok demo_jose (demo_mw mode) (dpop_request demo_bound) demo_bound
      (demo_claims ''YWJj'') ''DPoP'' ?w1 ?w3"
    unfolding sender_ok_def using mode
    by (auto simp: bound_key_thumbprint_def) (simp_all add: demo_mw_def demo_claims_def)
  then show ?thesis
    unfolding admits_def
    by (intro conjI exI [of _ ?w1] exI [of _ "()"])
      (simp_all add: demo_extract demo_claims_ok demo_verify [OF demo_window_valid [OF t]] validator_ok_def)
qed

lemma demo_guard_dpop:
  assumes "mode \<noteq> DPoPOff" and "demo_window t" and "\<not> fst (seen_at t ''j1'' demo_expiry m)"
  shows "guard demo_jose (demo_mw mode) (dpop_request demo_bound) rsp (demo_at t k evs m)
    = (Some (demo_claims ''YWJj''), rsp,
       allow_events (demo_mw mode) (dpop_request demo_bound) (demo_claims ''YWJj'') ''DPoP''
         (demo_at t (k + 3) evs (snd (seen_at t ''j1'' demo_expiry m))))"
  using demo_admits_dpop [OF assms] unfolding guard_Some by blast

lemma demo_guard_bearer:
  assumes "mode \<noteq> DPoPRequired"
  shows "guard demo_jose (demo_mw mode) (bearer_request demo_token) rsp demo_world
    = (Some (demo_claims []), rsp,
       allow_events (demo_mw mode) (bearer_request demo_token) (demo_claims []) ''Bearer''
         (demo_at demo_now 1 [] new_mem_replay))"
  using demo_admits_bearer [OF assms, of demo_now 0 "[]" new_mem_replay]
  unfolding guard_Some by (auto simp: minutes_def nanos_def)

lemma demo_unseen: "\<not> fst (seen_at t ''j1'' e new_mem_replay)"
  by (simp add: fst_seen_at new_mem_replay_def)

text \<open>Events only move the counter of clock readings and the log.\<close>

lemma demo_emit: "\<exists>evs'. emit mw r ev c (demo_at t k evs m) = demo_at t (Suc k) evs' m"
  by (auto simp: emit_def emit_event_def Let_def)

lemma demo_allow_events:
  "\<exists>evs'. allow_events mw r c ''DPoP'' (demo_at t k evs m) = demo_at t (k + 2) evs' m"
proof -
  obtain e1 where "emit mw r (allowed EventDPoPVerified) (Some c) (demo_at t k evs m) = demo_at t (Suc k) e1 m"
    using demo_emit by blast
  moreover obtain e2 where "emit mw r (allowed EventTokenValidated) (Some c) (demo_at t (Suc k) e1 m)
      = demo_at t (Suc (Suc k)) e2 m"
    using demo_emit by blast
  ultimately show ?thesis by (intro exI [of _ e2]) (simp add: allow_events_def)
qed

lemma demo_bound_cnf: "extract_cnf (token_payload demo_bound) \<noteq> []"
  by (simp add: demo_payloads demo_cnf)

lemma demo_jwt_validates: "jwt_validates demo_jose"
  by (auto simp: jwt_validates_def demo_jose_def split: if_splits)

text \<open>At the instant of expiry the same request passes twice.\<close>

lemma demo_twice:
  "\<exists>evs m k w2. guard demo_jose (demo_mw DPoPRequired) (dpop_request demo_bound) new_response
      (demo_at demo_expiry 0 [] new_mem_replay)
      = (Some (demo_claims ''YWJj''), new_response, demo_at demo_expiry k evs m)
    \<and> guard demo_jose (demo_mw DPoPRequired) (dpop_request demo_bound) new_response (demo_at demo_expiry k evs m)
      = (Some (demo_claims ''YWJj''), new_response, w2)
    \<and> w_clock w2 = (\<lambda>_. demo_expiry)"
proof -
  let ?mw = "demo_mw DPoPRequired" and ?r = "dpop_request demo_bound" and ?c = "demo_claims ''YWJj''"
  let ?m = "snd (seen_at demo_expiry ''j1'' demo_expiry new_mem_replay)"
  have m: "mr_seen ?m ''j1'' = Some demo_expiry"
    by (rule mem.records) (use demo_unseen [of demo_expiry demo_expiry] in \<open>simp add: prod_eq_iff\<close>)
  have on: "DPoPRequired \<noteq> DPoPOff" by simp
  obtain e1 where e1: "allow_events ?mw ?r ?c ''DPoP'' (demo_at demo_expiry (0 + 3) [] ?m)
      = demo_at demo_expiry (0 + 3 + 2) e1 ?m"
    using demo_allow_events by blast
  have new: "\<not> fst (seen_at demo_expiry ''j1'' demo_expiry ?m)" using m by (simp add: fst_seen_at)
  let ?m2 = "snd (seen_at demo_expiry ''j1'' demo_expiry ?m)"
  obtain e2 where e2: "allow_events ?mw ?r ?c ''DPoP'' (demo_at demo_expiry (0 + 3 + 2 + 3) e1 ?m2)
      = demo_at demo_expiry (0 + 3 + 2 + 3 + 2) e2 ?m2"
    using demo_allow_events by blast
  note g1 = demo_guard_dpop [OF on demo_window_now(2) demo_unseen, of new_response 0 "[]", unfolded e1]
  note g2 = demo_guard_dpop [OF on demo_window_now(2) new, of new_response "0 + 3 + 2" e1, unfolded e2]
  show ?thesis using g1 g2 by (intro exI conjI) (assumption, assumption, simp)
qed

text \<open>A next handler that does nothing.\<close>

definition quiet_next :: "(unit, unit) next_handler" where
  "quiet_next c r rsp w = (rsp, w)"

end
