(* ===== verification/ExchangeDemo.thy ===== *)
theory ExchangeDemo
  imports ExchangeRun Demo
begin

text \<open>
  A concrete token exchange: a validator that trusts one issuer, a subject who lets the service
  \<open>svc\<close> act, and a client of it with a DPoP key. It only serves the witnesses.
\<close>

section \<open>Tokens and keys\<close>

definition xd_payload :: string where
  "xd_payload = json_print (JObj [(''may_act'', JObj [(''sub'', JStr ''svc'')]), (''act'', JObj [(''sub'', JStr ''gw'')])])"

definition xd_subject :: string where
  "xd_subject = b64_encode ''{}'' @ ''.'' @ b64_encode xd_payload @ ''.'' @ ''s''"

definition xd_actor :: string where
  "xd_actor = b64_encode ''{}'' @ ''.'' @ b64_encode ''{}'' @ ''.'' @ ''a''"

text \<open>A signature of this library is the signed text itself.\<close>

definition xd_jose :: "(string, unit) jose" where
  "xd_jose = demo_jose\<lparr>
     jws_parse := (\<lambda>raw.
       if prefix ''{'' raw
       then Inr [\<lparr>hdr_kid = None, hdr_alg = Some ''ES256'', hdr_typ = Some ''dpop+jwt'', hdr_jwk = Some ''pub''\<rparr>]
       else Inr [\<lparr>hdr_kid = Some ''k1'', hdr_alg = Some ''RS256'', hdr_typ = None, hdr_jwk = None\<rparr>]),
     jws_verify := (\<lambda>raw alg key. Inr raw),
     jwt_parse := (\<lambda>raw ks iss skew t.
       if t - skew < demo_now + minutes 60
       then Inr \<lparr>tok_subject = Some (if raw = xd_actor then ''svc'' else ''alice''), tok_issuer = Some iss,
                 tok_audience = Some [''sts''], tok_expiration = Some (demo_now + minutes 60),
                 tok_issued_at = None, tok_not_before = None, tok_claim = (\<lambda>_. None)\<rparr>
       else Inl ''expired'')\<rparr>"

definition xd_lib :: "(string, string) signing_lib" where
  "xd_lib = \<lparr>sl_pem_decode = (\<lambda>_. None), sl_pkcs8 = (\<lambda>_. None), sl_pkcs1 = (\<lambda>_. None), sl_ec = (\<lambda>_. None),
     sl_import = Inr, sl_parse_key = Inr, sl_public_of = (\<lambda>_. Inr ''pub''),
     sl_key_type = (\<lambda>_. KeyEC (Some ''P-256'')),
     sl_jws_sign = (\<lambda>body alg priv typ pub.
       if alg = ''ES256'' \<and> typ = ''dpop+jwt'' \<and> prefix ''{'' body then Inr body else Inl ''unsupported''),
     sl_jwt_build = (\<lambda>_. Inr ()), sl_jwt_sign = (\<lambda>_ _ _. Inr ''assertion'')\<rparr>"

definition xd_key :: "string dpop_key" where
  "xd_key = \<lparr>dk_private = ''priv'', dk_public = ''pub'', dk_alg = ''ES256'', dk_jkt = b64_encode ''pub''\<rparr>"

section \<open>The validator and the client\<close>

definition xd_opts :: "unit exchange_validator_options" where
  "xd_opts = \<lparr>vo_keys_jwks = Some ''{}'', vo_jwks_uri = [], vo_issuer = ''as'', vo_jwks_cache_ttl = 0,
     vo_allowed_algorithms = [], vo_clock_skew = 0, vo_policy = None, vo_audience = [''sts'']\<rparr>"

definition xd_validator :: "(unit, unit) exchange_validator" where
  "xd_validator = \<lparr>ev_verifier = \<lparr>tv_keys = static_lookup (), tv_issuer = ''as'', tv_skew = 60 * second,
     tv_algs = [''EdDSA'', ''ES256'', ''RS256'']\<rparr>, ev_policy = None, ev_audiences = [''sts'']\<rparr>"

definition xd_claims :: "string \<Rightarrow> string \<Rightarrow> claims" where
  "xd_claims sub payload = \<lparr>cl_subject = sub, cl_issuer = ''as'', cl_audience = [''sts''],
     cl_expiry = demo_now + minutes 60, cl_issued_at = zero_time, cl_not_before = zero_time,
     cl_scope = [], cl_raw = payload, cl_cnf_jkt = []\<rparr>"

definition xd_request :: exchange_request where
  "xd_request = \<lparr>xr_subject_token = xd_subject, xr_subject_token_type = [], xr_actor_token = xd_actor,
     xr_actor_token_type = ''jwt'', xr_resource = [], xr_audience = [''b1'', ''b2''], xr_scope = [''r'', ''w''],
     xr_requested_token_type = []\<rparr>"

definition xd_mint :: "exchange_grant \<Rightarrow> issued_token" where
  "xd_mint g = \<lparr>it_access_token = ''at'', it_issued_token_type = [], it_token_type = [],
     it_expires_in = 60 * second, it_scope = [''r''], it_refresh_token = []\<rparr>"

definition xd_exchanger :: "'p http_client \<Rightarrow> (string, 'p) token_exchanger" where
  "xd_exchanger c = \<lparr>tx_endpoint = ''https://h/t'', tx_issuer = [], tx_auth = SecretAuth ''c'' ''p'' True,
     tx_client = c, tx_dpop = Some xd_key\<rparr>"

definition xd_client :: "'p \<Rightarrow> 'p client_world" where
  "xd_client p = \<lparr>cw_clock = (\<lambda>_. demo_now), cw_tick = 0, cw_rand = (\<lambda>_. ''rnd''), cw_rands = 0,
     cw_audit = [], cw_cache = [], cw_peer = p\<rparr>"

definition xd_grant :: exchange_grant where
  "xd_grant = \<lparr>eg_subject = xd_claims ''alice'' xd_payload, eg_actor = Some (xd_claims ''svc'' ''{}''),
     eg_is_delegation = True, eg_requested_audience = [''b1'', ''b2''], eg_requested_scope = [''r'', ''w''],
     eg_requested_resource = [], eg_requested_token_type = [],
     eg_act = Some (act_chain [''svc'', ''gw'']), eg_confirmation = []\<rparr>"

section \<open>What the definitions give on it\<close>

lemma xd_validator_built: "new_exchange_validator xd_jose xd_opts = Inr xd_validator"
proof -
  have "parse_algs xd_jose [] = Inr [''EdDSA'', ''ES256'', ''RS256'']"
    by (simp add: parse_algs_def xd_jose_def demo_jose_def)
  moreover have "jwk_parse xd_jose x = Inr ()" for x by (simp add: xd_jose_def demo_jose_def)
  ultimately show ?thesis
    by (simp add: new_exchange_validator_def xd_opts_def resolve_key_source_def xd_validator_def)
qed

lemma xd_key_built: "new_dpop_key xd_jose xd_lib ''priv'' = Inr xd_key"
  by (simp add: new_dpop_key_def parse_private_key_def dpop_alg_for_key_def xd_lib_def xd_jose_def
      demo_jose_def xd_key_def)

lemma xd_jws_sound: "jws_sound xd_jose xd_lib"
  by (auto simp: jws_sound_def xd_jose_def xd_lib_def demo_jose_def)

lemma xd_jwt_validates: "jwt_validates xd_jose"
  by (auto simp: jwt_validates_def xd_jose_def)

lemma xd_payloads: "token_payload xd_subject = xd_payload" "token_payload xd_actor = ''{}''"
  unfolding xd_subject_def xd_actor_def by (rule token_payload_compact)+

lemma xd_facts:
  "extract_cnf xd_payload = []" "extract_cnf ''{}'' = []" "xd_subject \<noteq> xd_actor" "xd_subject \<noteq> []"
  "xd_actor \<noteq> []" "\<not> prefix ''{'' xd_subject" "\<not> prefix ''{'' xd_actor"
  by code_simp+

lemma xd_verify:
  "verify_party xd_jose xd_validator which xd_subject (demo_at demo_now k evs m)
     = (Inr (xd_claims ''alice'' xd_payload), demo_at demo_now (Suc k) evs m)"
  "verify_party xd_jose xd_validator which xd_actor (demo_at demo_now k evs m)
     = (Inr (xd_claims ''svc'' ''{}''), demo_at demo_now (Suc k) evs m)"
proof -
  have sc: "token_scope \<lparr>tok_subject = a, tok_issuer = b, tok_audience = c, tok_expiration = d,
      tok_issued_at = e, tok_not_before = f, tok_claim = (\<lambda>_. None)\<rparr> = []" for a b c d e f
    by (simp add: token_scope_def)
  have "demo_now - 60 * second < demo_now + minutes 60" by (simp add: minutes_def nanos_def)
  then show "verify_party xd_jose xd_validator which xd_subject (demo_at demo_now k evs m)
     = (Inr (xd_claims ''alice'' xd_payload), demo_at demo_now (Suc k) evs m)"
    "verify_party xd_jose xd_validator which xd_actor (demo_at demo_now k evs m)
     = (Inr (xd_claims ''svc'' ''{}''), demo_at demo_now (Suc k) evs m)"
    by (simp_all add: verify_party_Inr verify_def header_kid_alg_def xd_jose_def xd_facts xd_validator_def
        static_lookup_def new_claims_def xd_claims_def xd_payloads or_zero_def sc audience_matches_def)
qed

lemma xd_may_act: "may_act_allows (xd_claims ''alice'' xd_payload) ''svc''"
  "\<not> may_act_allows (xd_claims ''alice'' xd_payload) []"
  by code_simp+

lemma xd_act: "build_act_chain ''svc'' (xd_claims ''alice'' xd_payload) = act_chain [''svc'', ''gw'']"
  by code_simp

text \<open>The request of the client, and the grant the validator gives it.\<close>

lemma xd_form_small: "length (form_encode (form_set ''client_secret'' ''p'' (form_set ''client_id'' ''c''
    (build_exchange_form xd_request)))) \<le> 500"
  by code_simp

lemma xd_token_request:
  "\<exists>req. token_request xd_jose xd_lib (xd_exchanger c) ''https://h/t'' (build_exchange_form xd_request) n (xd_client p)
      = (Inr req, (xd_client p)\<lparr>cw_rands := 1, cw_tick := 1\<rparr>)
    \<and> hr_body req = form_encode (form_set ''client_secret'' ''p'' (form_set ''client_id'' ''c''
        (build_exchange_form xd_request)))
    \<and> url_raw_query (hr_url req) = []"
proof -
  have u: "url_parse ''https://h/t'' = Some (empty_url\<lparr>url_scheme := ''https'', url_host := ''h'', url_path := ''/t''\<rparr>)"
    by code_simp
  have j: "prefix ''{'' (json_print (JObj ms))" for ms by simp
  show ?thesis
    by (simp add: token_request_def new_request_def u xd_exchanger_def apply_auth_unfold proof_for_def
        random_id_def client_now_def xd_client_def xd_lib_def xd_key_def j empty_url_def Let_def
        del: json_print.simps)
qed

lemma xd_validates:
  "\<exists>req s. token_request xd_jose xd_lib (xd_exchanger c) ''https://h/t'' (build_exchange_form xd_request) []
      (xd_client p) = (Inr req, (xd_client p)\<lparr>cw_rands := 1, cw_tick := 1\<rparr>)
    \<and> length (hr_body req) \<le> max_form_size \<and> url_raw_query (hr_url req) = []
    \<and> check_exchange_form (parse_form (received req)) = Inr (xd_subject, xd_actor)
    \<and> parse_form (received req) = (True, snd (parse_form (received req)))
    \<and> validate_exchange xd_jose xd_validator (received req) demo_world = (Inr xd_grant, s)"
proof -
  obtain req where t: "token_request xd_jose xd_lib (xd_exchanger c) ''https://h/t''
      (build_exchange_form xd_request) [] (xd_client p) = (Inr req, (xd_client p)\<lparr>cw_rands := 1, cw_tick := 1\<rparr>)"
    and b: "hr_body req = form_encode (form_set ''client_secret'' ''p'' (form_set ''client_id'' ''c''
        (build_exchange_form xd_request)))" and q: "url_raw_query (hr_url req) = []"
    using xd_token_request [of c "[]" p] by (elim exE conjE) (rule that)
  have len: "length (hr_body req) \<le> max_form_size"
    using xd_form_small unfolding b max_form_size_def by linarith
  have xr: "xr_subject_token xd_request = xd_subject" "xr_actor_token xd_request = xd_actor"
    "xr_actor_token_type xd_request = ''jwt''" "xr_scope xd_request = [''r'', ''w'']"
    by (simp_all add: xd_request_def)
  have "fst (parse_query (url_raw_query (hr_url req)))"
    by (simp add: q parse_query_def pieces.simps)
  then have r: "check_exchange_form (parse_form (received req)) = Inr (xd_subject, xd_actor)
    \<and> impersonation_grant (snd (parse_form (received req))) c =
       \<lparr>eg_subject = c, eg_actor = None, eg_is_delegation = False,
        eg_requested_audience = xr_audience xd_request, eg_requested_scope = xr_scope xd_request,
        eg_requested_resource = xr_resource xd_request,
        eg_requested_token_type = xr_requested_token_type xd_request,
        eg_act = None, eg_confirmation = bound_key_thumbprint c\<rparr>" for c
    using request_reaches [OF t _ _ _ len, of c] by (simp add: xr xd_facts scope_word_def)
  obtain okf f where pf: "parse_form (received req) = (okf, f)" by fastforce
  have "check_exchange_form (okf, f) = Inr (xd_subject, xd_actor)" using r pf by simp
  then have ok: "parse_form (received req) = (True, snd (parse_form (received req)))"
    unfolding check_exchange_form_Inr using pf by simp
  have "\<exists>s. validate_exchange xd_jose xd_validator (received req) demo_world = (Inr xd_grant, s)"
    using r xd_may_act xd_act
    by (simp add: validate_exchange_def xd_verify with_actor_def xd_facts xd_grant_def xd_request_def
        apply_policy_def Let_def) (simp add: xd_validator_def xd_claims_def bound_key_thumbprint_def)
  with t len q r ok show ?thesis by blast
qed

end
