(* ===== verification/ExchangeClaims.thy ===== *)
theory ExchangeClaims
  imports ExchangeDemo
begin

text \<open>The properties of token exchange, on both sides and across them.\<close>

section \<open>The validator\<close>

text \<open>
  C18. A grant of a validator without a policy rests on a well-formed exchange request whose subject
  token (and actor token, when there is one) was accepted: asymmetric algorithm, configured issuer,
  one of the configured audiences, not expired. The grant binds to the subject token's own key, asks
  for what the form asks for, and is a delegation exactly when an actor token was sent, with that
  actor permitted by the subject's may_act and at the head of the act chain.
\<close>

theorem exchange_trusted:
  assumes "new_exchange_validator J opts = Inr v" and "jwt_validates J" and "vo_policy opts = None"
    and "validate_exchange J v r w = (Inr g, w')"
  shows "\<exists>f. parse_form r = (True, f) \<and> form_get f ''grant_type'' = grant_type_token_exchange
    \<and> trusted_party J opts (tv_skew (ev_verifier v)) w (form_get f ''subject_token'') (eg_subject g)
    \<and> eg_confirmation g = extract_cnf (token_payload (form_get f ''subject_token''))
    \<and> eg_requested_audience g = values_of f ''audience''
    \<and> (case eg_actor g of
         None \<Rightarrow> form_get f ''actor_token'' = [] \<and> may_act_allows (eg_subject g) []
           \<and> \<not> eg_is_delegation g \<and> eg_act g = None
       | Some a \<Rightarrow> form_get f ''actor_token'' \<noteq> [] \<and> eg_is_delegation g
           \<and> trusted_party J opts (tv_skew (ev_verifier v)) w (form_get f ''actor_token'') a
           \<and> may_act_allows (eg_subject g) (cl_subject a)
           \<and> eg_act g = Some (build_act_chain (cl_subject a) (eg_subject g)))"
proof -
  have pol: "ev_policy v = None" using new_exchange_validator_Inr [OF assms(1)] assms(3) by auto
  obtain f subject w1 w2 where f: "parse_form r = (True, f)"
    "form_get f ''grant_type'' = grant_type_token_exchange"
    and s: "verify_party J v ''subject_token'' (form_get f ''subject_token'') w = (Inr subject, w1)"
    and a: "with_actor J v (form_get f ''actor_token'') (impersonation_grant f subject) w1 = (Inr g, w2)"
    using validate_exchange_Inr [of J v r w g] assms(4) pol
    unfolding exchange_granted_def policy_passes_def by auto
  note ts = verify_party_trusted [OF assms(1,2) s]
  have cnf: "cl_cnf_jkt subject = extract_cnf (token_payload (form_get f ''subject_token''))"
    using s verify_Inr_D verified_at_cnf unfolding verify_party_Inr by metis
  show ?thesis
  proof (cases "form_get f ''actor_token'' = []")
    case True
    with a have "g = impersonation_grant f subject" "may_act_allows subject []"
      by (simp_all add: with_actor_Inr impersonation_grant_def)
    with f ts cnf True show ?thesis
      by (simp add: impersonation_grant_def bound_key_thumbprint_def)
  next
    case False
    with a obtain actor where v: "verify_party J v ''actor_token'' (form_get f ''actor_token'') w1 = (Inr actor, w2)"
      and m: "may_act_allows subject (cl_subject actor)"
      and g: "g = (impersonation_grant f subject)\<lparr>eg_actor := Some actor, eg_is_delegation := True,
        eg_act := Some (build_act_chain (cl_subject actor) subject)\<rparr>"
      by (auto simp: with_actor_Inr impersonation_grant_def)
    have "trusted_party J opts (tv_skew (ev_verifier v)) w (form_get f ''actor_token'') actor"
      using verify_party_trusted(1) [OF assms(1,2) v] ts(2) by (rule trusted_party_later)
    with f ts cnf m False show ?thesis
      by (simp add: g impersonation_grant_def bound_key_thumbprint_def)
  qed
qed

theorem exchange_trusted_witness:
  "trusted_party xd_jose xd_opts (tv_skew (ev_verifier xd_validator)) demo_world xd_actor (xd_claims ''svc'' ''{}'')
    \<and> may_act_allows (xd_claims ''alice'' xd_payload) ''svc''"
proof -
  obtain req s where v: "check_exchange_form (parse_form (received req)) = Inr (xd_subject, xd_actor)"
    "validate_exchange xd_jose xd_validator (received req) demo_world = (Inr xd_grant, s)"
    using xd_validates by metis
  obtain okf f where pf: "parse_form (received req) = (okf, f)" by fastforce
  have a: "form_get f ''actor_token'' = xd_actor"
    using v(1) unfolding pf check_exchange_form_Inr by simp
  have g: "eg_actor xd_grant = Some (xd_claims ''svc'' ''{}'')" "eg_subject xd_grant = xd_claims ''alice'' xd_payload"
    "cl_subject (xd_claims ''svc'' ''{}'') = ''svc''"
    by (simp_all add: xd_grant_def xd_claims_def)
  have "vo_policy xd_opts = None" by (simp add: xd_opts_def)
  from exchange_trusted [OF xd_validator_built xd_jwt_validates this v(2)] pf a show ?thesis
    by (auto simp: g)
qed

text \<open>
  C19. A subject token whose payload has a may_act member is never exchanged without an actor, under
  any policy, and with one only when the last such member names that actor in a non-empty sub; a
  may_act that is null or not an object, or has no sub, lets nobody act.
\<close>

theorem may_act_restricts:
  assumes "json_parse (token_payload (form_get (snd (parse_form r)) ''subject_token'')) = Some (JObj ms)"
    and "filter (key_is ''may_act'' \<circ> fst) ms = ps @ [(k, v)]"
    and "validate_exchange J vd r w = (Inr g, w')"
  shows "\<exists>actor w1 w2. verify_party J vd ''actor_token'' (form_get (snd (parse_form r)) ''actor_token'') w1
      = (Inr actor, w2)
    \<and> cl_subject actor \<noteq> [] \<and> dec_struct dec_sub v [] = Some (cl_subject actor)"
proof -
  obtain f subject g0 w1 w2 where f: "parse_form r = (True, f)"
    and s: "verify_party J vd ''subject_token'' (form_get f ''subject_token'') w = (Inr subject, w1)"
    and a: "with_actor J vd (form_get f ''actor_token'') (impersonation_grant f subject) w1 = (Inr g0, w2)"
    using validate_exchange_Inr [of J vd r w g] assms(3) unfolding exchange_granted_def by auto
  have "cl_raw subject = token_payload (form_get f ''subject_token'')"
    using s verify_Inr_D unfolding verify_party_Inr verified_at_def by force
  moreover have last: "(case filter (key_is ''may_act'' \<circ> fst) ms of [] \<Rightarrow> None | qs \<Rightarrow> Some (snd (last qs))) = Some v"
    unfolding assms(2) by (cases ps) simp_all
  ultimately have "may_act_of (cl_raw subject) = Some v"
    using assms(1) f by (simp add: may_act_of_def)
  then have allow: "may_act_allows subject x \<longleftrightarrow> dec_struct dec_sub v [] = Some x \<and> x \<noteq> []" for x
    by (auto simp: may_act_allows_iff)
  with a obtain actor where "verify_party J vd ''actor_token'' (form_get f ''actor_token'') w1 = (Inr actor, w2)"
    "may_act_allows subject (cl_subject actor)"
    by (auto simp: with_actor_Inr impersonation_grant_def split: if_splits)
  with allow f show ?thesis by auto
qed

theorem may_act_restricts_witness:
  "dec_struct dec_sub (JObj [(''sub'', JStr ''svc'')]) [] = Some ''svc''
    \<and> (\<exists>req s. validate_exchange xd_jose xd_validator (received req) demo_world = (Inr xd_grant, s))"
proof -
  obtain req s where v: "check_exchange_form (parse_form (received req)) = Inr (xd_subject, xd_actor)"
    "validate_exchange xd_jose xd_validator (received req) demo_world = (Inr xd_grant, s)"
    using xd_validates by metis
  obtain okf f where pf: "parse_form (received req) = (okf, f)" by fastforce
  have g: "form_get f ''subject_token'' = xd_subject" "form_get f ''actor_token'' = xd_actor"
    using v(1) unfolding pf check_exchange_form_Inr by simp_all
  have j: "json_parse xd_payload = Some (JObj [(''may_act'', JObj [(''sub'', JStr ''svc'')]), (''act'', JObj [(''sub'', JStr ''gw'')])])"
    by code_simp
  have k: "filter (key_is ''may_act'' \<circ> fst) [(''may_act'', JObj [(''sub'', JStr ''svc'')]), (''act'', JObj [(''sub'', JStr ''gw'')])]
    = [] @ [(''may_act'', JObj [(''sub'', JStr ''svc'')])]"
    by code_simp
  have "json_parse (token_payload (form_get (snd (parse_form (received req))) ''subject_token''))
    = Some (JObj [(''may_act'', JObj [(''sub'', JStr ''svc'')]), (''act'', JObj [(''sub'', JStr ''gw'')])])"
    using j by (simp add: pf g xd_payloads)
  from may_act_restricts [OF this k v(2)] have "\<exists>x. dec_struct dec_sub (JObj [(''sub'', JStr ''svc'')]) [] = Some x \<and> x \<noteq> []"
    by blast
  moreover have "dec_struct dec_sub (JObj [(''sub'', JStr ''svc'')]) [] = Some ''svc''" by code_simp
  ultimately show ?thesis using v(2) by blast
qed

text \<open>
  C20. The actor chain records every hop, the latest first: exchanging a token that was delegated
  through some actors, for a further one, gives the chain with that one in front.
\<close>

theorem act_chain_grows:
  assumes "delegated c as"
  shows "build_act_chain b c = act_chain (b # as)"
  using assms by (rule delegated_build)

theorem act_chain_grows_witness:
  "delegated (xd_claims ''alice'' xd_payload) [''gw'']
    \<and> build_act_chain ''svc'' (xd_claims ''alice'' xd_payload) = act_chain [''svc'', ''gw'']"
proof -
  let ?ms = "[(''may_act'', JObj [(''sub'', JStr ''svc'')]), (''act'', JObj [(''sub'', JStr ''gw'')])]"
  have "json_parse xd_payload = Some (JObj ?ms)" by code_simp
  moreover have "filter (key_is ''act'' \<circ> fst) ?ms = [(''act'', JObj (act_chain [''gw'']))]" by code_simp
  ultimately have d: "delegated (xd_claims ''alice'' xd_payload) [''gw'']"
    by (auto simp: delegated_def xd_claims_def)
  with act_chain_grows [OF d] show ?thesis by simp
qed

text \<open>
  C21. Every call of the validator, whatever its outcome, emits exactly one event, of kind
  token_exchanged: a denial with the code and the description of the error it returns and no
  subject, a success with the audience and the scope of the grant; it leaves the replay cache alone.
\<close>

theorem exchange_audited:
  assumes "new_exchange_validator J opts = Inr v" and "validate_exchange J v r w = (res, w')"
  shows "w_mem w' = w_mem w \<and> (\<exists>ev. w_audit w' = w_audit w @ [ev] \<and> ev_kind ev = EventTokenExchanged
    \<and> (case res of
         Inl ee \<Rightarrow> ev_outcome ev = OutcomeDeny \<and> ev_error ev = xe_code ee
           \<and> ev_reason ev = xe_description ee \<and> ev_subject ev = []
       | Inr g \<Rightarrow> ev_outcome ev = OutcomeAllow \<and> ev_error ev = []
           \<and> ev_audience ev = eg_requested_audience g \<and> ev_scope ev = eg_requested_scope g))"
  using validate_one_event [OF assms] unfolding one_event_def exchange_event_def .

theorem exchange_audited_witness:
  "\<exists>req s ev. validate_exchange xd_jose xd_validator (received req) demo_world = (Inr xd_grant, s)
     \<and> w_audit s = [ev] \<and> ev_outcome ev = OutcomeAllow"
proof -
  obtain req s where v: "validate_exchange xd_jose xd_validator (received req) demo_world = (Inr xd_grant, s)"
    using xd_validates by metis
  from exchange_audited [OF xd_validator_built v] v show ?thesis by auto
qed

section \<open>The client\<close>

text \<open>
  C22. A proof the client mints is accepted by the parser of the resource server, with the method,
  target and nonce it was minted for, the client's key thumbprint, a jti of the random source, no
  access-token hash, and the time of the client's clock to the second.
\<close>

theorem client_proof_accepted:
  assumes "new_dpop_key J L pem = Inr k" and "jws_sound J L" and "dk_alg k \<in> set algs"
    and "utf8 htm" and "utf8 htu" and "utf8 nonce"
    and "proof_for L k htm htu nonce w = (Inr raw, w')" and "sane_time (cw_clock w (cw_tick w))"
  shows "\<exists>p. parse_and_verify_proof J raw algs = Inr p
    \<and> dp_htm p = htm \<and> dp_htu p = htu \<and> dp_nonce p = nonce \<and> dp_ath p = []
    \<and> dp_jti p = b64_encode (cw_rand w (cw_rands w))
    \<and> (\<exists>tp. jwk_thumbprint J (dk_public k) = Inr tp \<and> dp_jkt p = b64_encode tp)
    \<and> dp_iat p \<le> cw_clock w (cw_tick w) \<and> cw_clock w (cw_tick w) < dp_iat p + second"
proof -
  let ?t = "cw_clock w (cw_tick w)"
  have "time_unix (unix_seconds ?t) = ?t div nanos * nanos"
  proof -
    have "?t div nanos * nanos \<le> ?t" "?t < ?t div nanos * nanos + nanos" by (simp_all add: nanos_def)
    then have "0 \<le> ?t div nanos" "?t div nanos < 2 ^ 62"
      using assms(8) unfolding sane_time_def nanos_def by linarith+
    then show ?thesis
      unfolding unix_seconds_def time_unix_def
      by (subst wrap64_id; simp add: unix_to_internal_def wrap64_id)
  qed
  moreover have "?t div nanos * nanos \<le> ?t" "?t < ?t div nanos * nanos + nanos"
    by (simp_all add: nanos_def)
  ultimately show ?thesis
    using proof_parses [OF assms(1-7)] new_dpop_key_Inr [OF assms(1)] by auto
qed

theorem client_proof_accepted_witness:
  "\<exists>raw p. fst (proof_for xd_lib xd_key ''POST'' ''https://h/t'' ''n'' (xd_client ())) = Inr raw
     \<and> parse_and_verify_proof xd_jose raw [''ES256''] = Inr p \<and> dp_nonce p = ''n'' \<and> dp_jti p = ''cm5k''"
proof -
  have "\<exists>raw w'. proof_for xd_lib xd_key ''POST'' ''https://h/t'' ''n'' (xd_client ()) = (Inr raw, w')"
    by (simp add: proof_for_def random_id_def client_now_def xd_lib_def xd_key_def)
  then obtain raw w' where p: "proof_for xd_lib xd_key ''POST'' ''https://h/t'' ''n'' (xd_client ()) = (Inr raw, w')"
    by blast
  have u: "utf8 ''POST''" "utf8 ''https://h/t''" "utf8 ''n''" "b64_encode ''rnd'' = ''cm5k''" by code_simp+
  have t: "sane_time (cw_clock (xd_client ()) (cw_tick (xd_client ())))"
    by (simp add: xd_client_def sane_time_def demo_now_def nanos_def unix_to_internal_def)
  have a: "dk_alg xd_key \<in> set [''ES256'']" by (simp add: xd_key_def)
  from client_proof_accepted [OF xd_key_built xd_jws_sound a u(1-3) p t] p u(4) show ?thesis
    by (auto simp: xd_client_def)
qed

text \<open>
  C23. One exchange sends at most two token requests. The second is sent only when a DPoP key is
  configured and the first was answered, outside 2xx and 3xx, with the error use_dpop_nonce and a
  DPoP-Nonce header; it carries one fresh proof, minted for that nonce.
\<close>

theorem nonce_retry_once:
  assumes "tx_client x = scripted s" and "exchange_with_nonce_retry J L x ep f w = (res, w')"
  shows "\<exists>reqs. cw_peer w' = cw_peer w @ reqs \<and> length reqs \<le> 2
    \<and> (\<forall>a b. reqs = [a, b] \<longrightarrow>
         (\<exists>k resp n raw w1 w2. tx_dpop x = Some k \<and> s (length (cw_peer w)) = Inr resp
            \<and> nonce_challenge resp n
            \<and> proof_for L k ''POST'' (htu_of ep) n (w1 :: http_request list client_world) = (Inr raw, w2)
            \<and> header_values (hr_header b) ''DPoP'' = [raw]))"
  using assms by (rule nonce_retry)

theorem nonce_retry_once_witness:
  "\<exists>w'. snd (exchange_with_nonce_retry xd_jose xd_lib (xd_exchanger (scripted (\<lambda>_. Inl ''down''))) ''https://h/t''
      (build_exchange_form xd_request) (xd_client [])) = w' \<and> length (cw_peer w') \<le> 2"
proof -
  obtain res w' where r: "exchange_with_nonce_retry xd_jose xd_lib (xd_exchanger (scripted (\<lambda>_. Inl ''down'')))
      ''https://h/t'' (build_exchange_form xd_request) (xd_client []) = (res, w')"
    by fastforce
  have "tx_client (xd_exchanger (scripted (\<lambda>_. Inl ''down''))) = scripted (\<lambda>_. Inl ''down'')"
    by (simp add: xd_exchanger_def)
  from nonce_retry_once [OF this r] obtain reqs where "cw_peer w' = cw_peer (xd_client []) @ reqs" "length reqs \<le> 2"
    by blast
  with r show ?thesis by (auto simp: xd_client_def)
qed

text \<open>
  Discovery returns an endpoint only from a metadata document that the server sent with status
  200 and that names the requested issuer; it is then cached under that issuer alone, and the next
  call returns it without a request. A failure leaves the cache alone.
\<close>

theorem discovery_confirmed:
  assumes "discover J client issuer w = (res, w')"
  shows "(case res of
      Inl e \<Rightarrow> cw_cache w' = cw_cache w
    | Inr ep \<Rightarrow>
        (map_of (cw_cache w) issuer = Some ep
         \<or> (\<exists>req resp. fst (client req (cw_peer w)) = Inr resp \<and> confirmed issuer ep resp
              \<and> map_of (cw_cache w') = (map_of (cw_cache w))(issuer \<mapsto> ep)))
        \<and> discover J client issuer w' = (Inr ep, w'))"
proof (cases res)
  case (Inl e)
  with assms show ?thesis by (simp add: discover_Inl)
next
  case (Inr ep)
  note d = discover_Inr [OF assms [unfolded Inr]]
  then have "discover J client issuer w' = (Inr ep, w')" by (simp add: discover_def)
  with d Inr show ?thesis by auto
qed

theorem discovery_confirmed_witness:
  "discover xd_jose (scripted (\<lambda>_. Inl ''down'')) ''i'' ((xd_client [])\<lparr>cw_cache := [(''i'', ''e'')]\<rparr>)
    = (Inr ''e'', (xd_client [])\<lparr>cw_cache := [(''i'', ''e'')]\<rparr>)"
proof -
  have "discover xd_jose (scripted (\<lambda>_. Inl ''down'')) ''i'' ((xd_client [])\<lparr>cw_cache := [(''i'', ''e'')]\<rparr>)
    = (Inr ''e'', (xd_client [])\<lparr>cw_cache := [(''i'', ''e'')]\<rparr>)"
    by (simp add: discover_def)
  from discovery_confirmed [OF this] show ?thesis by simp
qed

section \<open>Client and validator\<close>

text \<open>
  C25. The request the client builds passes the validator's form checks, whatever the client
  authentication, and the grant the validator forms from it asks for exactly the audiences,
  resources, scopes and token type of the exchange request.
\<close>

theorem request_delivered:
  assumes "token_request J L x ep (build_exchange_form xr) n w = (Inr req, w')"
    and "xr_subject_token xr \<noteq> []" and "xr_actor_token xr = [] \<or> xr_actor_token_type xr \<noteq> []"
    and "\<forall>s \<in> set (xr_scope xr). scope_word s"
    and "length (hr_body req) \<le> max_form_size" and "fst (parse_query (url_raw_query (hr_url req)))"
  shows "check_exchange_form (parse_form (received req)) = Inr (xr_subject_token xr, xr_actor_token xr)
    \<and> impersonation_grant (snd (parse_form (received req))) c =
       \<lparr>eg_subject = c, eg_actor = None, eg_is_delegation = False,
        eg_requested_audience = xr_audience xr, eg_requested_scope = xr_scope xr,
        eg_requested_resource = xr_resource xr, eg_requested_token_type = xr_requested_token_type xr,
        eg_act = None, eg_confirmation = bound_key_thumbprint c\<rparr>"
  using assms by (rule request_reaches)

theorem request_delivered_witness:
  "\<exists>req w'. token_request xd_jose xd_lib (xd_exchanger (scripted (\<lambda>_. Inl ''down''))) ''https://h/t'' (build_exchange_form xd_request) []
      (xd_client []) = (Inr req, w')
    \<and> eg_requested_scope (impersonation_grant (snd (parse_form (received req))) (xd_claims ''alice'' xd_payload)) = [''r'', ''w'']"
proof -
  obtain req where t: "token_request xd_jose xd_lib (xd_exchanger (scripted (\<lambda>_. Inl ''down''))) ''https://h/t'' (build_exchange_form xd_request) []
      (xd_client []) = (Inr req, (xd_client [])\<lparr>cw_rands := 1, cw_tick := 1\<rparr>)"
    and l: "length (hr_body req) \<le> max_form_size" and q: "url_raw_query (hr_url req) = []"
    using xd_validates [of "scripted (\<lambda>_. Inl ''down'')" "[]"] by (elim exE conjE) (rule that)
  have h: "xr_subject_token xd_request \<noteq> []" "xr_actor_token xd_request = [] \<or> xr_actor_token_type xd_request \<noteq> []"
    "\<forall>s \<in> set (xr_scope xd_request). scope_word s" "fst (parse_query (url_raw_query (hr_url req)))"
    by (simp_all add: xd_request_def xd_facts scope_word_def q parse_query_def pieces.simps)
  from request_delivered [OF t h(1-3) l h(4)] t show ?thesis by (auto simp: xd_request_def)
qed

text \<open>
  C26. End to end: against a token endpoint that is the validator behind a handler, an exchange
  returns the token minted for the grant of its one request, with its type, lifetime and scope, when
  the validator grants it, and otherwise the validator's own error with the status of its code.
  Neither side sees more than that one request.
\<close>

theorem exchange_end_to_end:
  assumes "new_exchange_validator J opts = Inr v" and "vo_policy opts = None"
    and "tx_client x = token_endpoint J v mint" and "tx_endpoint x \<noteq> []"
    and "xr_subject_token xr \<noteq> []" and "xr_actor_token xr = [] \<or> xr_actor_token_type xr \<noteq> []"
    and "token_request J L x (tx_endpoint x) (build_exchange_form xr) [] w = (Inr req, w1)"
    and "\<forall>g. utf8_issued (mint g) \<and> it_access_token (mint g) \<noteq> []
      \<and> it_expires_in (mint g) < 2 ^ 63 \<and> nanos dvd it_expires_in (mint g) \<and> 0 \<le> it_expires_in (mint g)
      \<and> length (json_line (JObj (sort_keys (issued_members (mint g))))) \<le> body_limit"
    and "exchange J L x xr w = (res, w')"
  shows "\<exists>ans. validate_exchange J v (received req) (cw_peer w) = (ans, cw_peer w')
    \<and> (case ans of
         Inl ee \<Rightarrow> res = Inl (ExchangeFailure (ee\<lparr>xe_http_status := exchange_error_status (xe_code ee)\<rparr>))
       | Inr g \<Rightarrow> \<exists>out. res = Inr out \<and> er_access_token out = it_access_token (mint g)
           \<and> er_issued_token_type out = or_default (it_issued_token_type (mint g))
           \<and> er_scope out = it_scope (mint g) \<and> er_expires_in out = it_expires_in (mint g)
           \<and> er_refresh_token out = it_refresh_token (mint g))"
proof -
  have pol: "ev_policy v = None" using new_exchange_validator_Inr [OF assms(1)] assms(2) by auto
  obtain ans s where a: "validate_exchange J v (received req) (cw_peer w) = (ans, s)" by fastforce
  have d: "exchange_do J L x (tx_endpoint x) (build_exchange_form xr) [] w =
    (case ans of
       Inl ee \<Rightarrow>
         ((Inl (ExchangeFailure (ee\<lparr>xe_http_status := exchange_error_status (xe_code ee)\<rparr>)), []), w1\<lparr>cw_peer := s\<rparr>)
     | Inr g \<Rightarrow>
         ((Inr (issued_result (mint g) (json_line (JObj (sort_keys (issued_members (mint g)))))), []),
          w1\<lparr>cw_peer := s\<rparr>))"
    using exchange_do_endpoint [OF assms(3) pol assms(7)] assms(8) a by (simp split: sum.splits)
  have act: "\<not> (xr_actor_token xr \<noteq> [] \<and> xr_actor_token_type xr = [])" using assms(6) by blast
  show ?thesis
  proof (cases ans)
    case (Inl ee)
    with assms(4,5,9) act d a show ?thesis
      by (auto simp: exchange_def resolve_endpoint_def exchange_with_nonce_retry_def)
  next
    case (Inr g)
    let ?d = "it_expires_in (mint g)"
    have m: "nanos dvd ?d" "?d < 2 ^ 63" "0 \<le> ?d" using assms(8) by auto
    have "(if 0 < ?d then wrap64 (float_seconds ?d * nanos) else 0) = ?d"
      using m by (simp add: float_seconds_whole wrap64_id)
    with Inr assms(4,5,9) act d a show ?thesis
      by (auto simp: exchange_def resolve_endpoint_def exchange_with_nonce_retry_def issued_result_def)
  qed
qed

theorem exchange_end_to_end_witness:
  "\<exists>out w'. exchange xd_jose xd_lib (xd_exchanger (token_endpoint xd_jose xd_validator xd_mint)) xd_request
      (xd_client demo_world) = (Inr out, w') \<and> er_access_token out = ''at'' \<and> er_scope out = [''r'']"
proof -
  let ?x = "xd_exchanger (token_endpoint xd_jose xd_validator xd_mint)"
  have tx: "tx_client ?x = token_endpoint xd_jose xd_validator xd_mint" "tx_endpoint ?x = ''https://h/t''"
    by (simp_all add: xd_exchanger_def)
  obtain req s w1 where t: "token_request xd_jose xd_lib ?x ''https://h/t'' (build_exchange_form xd_request) []
      (xd_client demo_world) = (Inr req, w1)"
    and v: "validate_exchange xd_jose xd_validator (received req) demo_world = (Inr xd_grant, s)"
    using xd_validates [of "token_endpoint xd_jose xd_validator xd_mint" demo_world]
    by (elim exE conjE) (rule that)
  obtain res w' where r: "exchange xd_jose xd_lib ?x xd_request (xd_client demo_world) = (res, w')" by fastforce
  have "length (json_line (JObj (sort_keys (issued_members (xd_mint xd_grant))))) \<le> 300" by code_simp
  then have len: "length (json_line (JObj (sort_keys (issued_members (xd_mint g))))) \<le> body_limit" for g
    by (simp add: xd_mint_def body_limit_def)
  have "utf8 ''at''" "utf8 []" by code_simp+
  then have mint: "\<forall>g. utf8_issued (xd_mint g) \<and> it_access_token (xd_mint g) \<noteq> []
      \<and> it_expires_in (xd_mint g) < 2 ^ 63 \<and> nanos dvd it_expires_in (xd_mint g) \<and> 0 \<le> it_expires_in (xd_mint g)
      \<and> length (json_line (JObj (sort_keys (issued_members (xd_mint g))))) \<le> body_limit"
    using len by (auto simp: xd_mint_def utf8_issued_def scope_word_def nanos_def)
  have h: "vo_policy xd_opts = None" "tx_endpoint ?x \<noteq> []" "xr_subject_token xd_request \<noteq> []"
    "xr_actor_token xd_request = [] \<or> xr_actor_token_type xd_request \<noteq> []"
    by (simp_all add: xd_opts_def tx xd_request_def xd_facts)
  from exchange_end_to_end [OF xd_validator_built h(1) tx(1) h(2-4) t [folded tx(2)] mint r] v r
  show ?thesis by (auto simp: xd_client_def xd_mint_def)
qed

end
