(* ===== verification/KeysConc.thy ===== *)
theory KeysConc
  imports Keys
begin

text \<open>
  The interleavings of several callers of a remote key source (setForKID and refresh of jwks.go).
  A step is one region under the mutex, the wait on the channel of the fetch in flight, the fetch
  itself, or the closing of its channel. The outcome of a fetch and the readings of the clock are
  whatever the environment gives.
\<close>

section \<open>State and steps\<close>

text \<open>Where a caller stands. A channel is a number; \<open>Done\<close> holds what the caller returns.\<close>

datatype 's caller =
  Start string
| Refresh
| Waiting nat
| Woken
| Leading nat
| Landed nat "'s result"
| Closing nat "'s result"
| Done "'s option result"

text \<open>
  The fields of \<open>remoteKeySource\<close>, the channels that are closed, the next unused one, the callers,
  and the outcomes that were stored so far, the latest last, which no step reads.
\<close>

record 's key_state =
  kt_set :: "'s option"
  kt_fetched_at :: instant
  kt_fetching :: "nat option"
  kt_last_err :: "string option"
  kt_closed :: "nat list"
  kt_next :: nat
  kt_callers :: "'s caller list"
  kt_outcomes :: "'s result list"

definition set_caller :: "nat \<Rightarrow> 's caller \<Rightarrow> 's key_state \<Rightarrow> 's key_state" where
  "set_caller i c s = s\<lparr>kt_callers := (kt_callers s)[i := c]\<rparr>"

text \<open>The region of \<open>setForKID\<close>, at the instant \<open>t\<close>.\<close>

definition check_keys :: "('s \<Rightarrow> string \<Rightarrow> bool) \<Rightarrow> duration \<Rightarrow> instant \<Rightarrow> string \<Rightarrow> 's key_state \<Rightarrow> 's caller" where
  "check_keys has ttl t kid s =
     (case kt_set s of
        None \<Rightarrow> Refresh
      | Some cur \<Rightarrow>
          if has cur kid \<and> \<not> time_sub t (kt_fetched_at s) > ttl then Done (Inr (Some cur)) else Refresh)"

text \<open>The first region of \<open>refresh\<close>: join the fetch in flight, or start one.\<close>

definition enter_refresh :: "nat \<Rightarrow> 's key_state \<Rightarrow> 's key_state" where
  "enter_refresh i s =
     (case kt_fetching s of
        Some ch \<Rightarrow> set_caller i (Waiting ch) s
      | None \<Rightarrow>
          set_caller i (Leading (kt_next s)) (s\<lparr>kt_fetching := Some (kt_next s), kt_next := Suc (kt_next s)\<rparr>))"

text \<open>What a joiner returns, reading the fields after it was woken.\<close>

definition mirror :: "'s key_state \<Rightarrow> 's option result" where
  "mirror s =
     (case kt_last_err s of
        Some e \<Rightarrow> Inl (''aoa: jwks refresh failed: '' @ e)
      | None \<Rightarrow> Inr (kt_set s))"

text \<open>The last region of \<open>refresh\<close>, by the caller that fetched, at the instant \<open>t\<close>.\<close>

definition store_outcome :: "nat \<Rightarrow> nat \<Rightarrow> 's result \<Rightarrow> instant \<Rightarrow> 's key_state \<Rightarrow> 's key_state" where
  "store_outcome i ch r t s =
     set_caller i (Closing ch r)
       ((case r of
           Inr ks \<Rightarrow> s\<lparr>kt_set := Some ks, kt_fetched_at := t, kt_last_err := None\<rparr>
         | Inl e \<Rightarrow> s\<lparr>kt_last_err := Some e\<rparr>)\<lparr>kt_fetching := None, kt_outcomes := kt_outcomes s @ [r]\<rparr>)"

definition close_channel :: "nat \<Rightarrow> nat \<Rightarrow> 's result \<Rightarrow> 's key_state \<Rightarrow> 's key_state" where
  "close_channel i ch r s =
     set_caller i (Done (case r of Inl e \<Rightarrow> Inl e | Inr ks \<Rightarrow> Inr (Some ks)))
       (s\<lparr>kt_closed := ch # kt_closed s\<rparr>)"

inductive key_step ::
  "('s \<Rightarrow> string \<Rightarrow> bool) \<Rightarrow> duration \<Rightarrow> 's key_state \<Rightarrow> nat \<Rightarrow> 's key_state \<Rightarrow> bool"
  for has :: "'s \<Rightarrow> string \<Rightarrow> bool" and ttl :: duration where
  check: "i < length (kt_callers s) \<Longrightarrow> kt_callers s ! i = Start kid \<Longrightarrow>
    key_step has ttl s i (set_caller i (check_keys has ttl t kid s) s)"
| enter: "i < length (kt_callers s) \<Longrightarrow> kt_callers s ! i = Refresh \<Longrightarrow>
    key_step has ttl s i (enter_refresh i s)"
| wake: "i < length (kt_callers s) \<Longrightarrow> kt_callers s ! i = Waiting ch \<Longrightarrow> ch \<in> set (kt_closed s) \<Longrightarrow>
    key_step has ttl s i (set_caller i Woken s)"
| mirror: "i < length (kt_callers s) \<Longrightarrow> kt_callers s ! i = Woken \<Longrightarrow>
    key_step has ttl s i (set_caller i (Done (mirror s)) s)"
| fetched: "i < length (kt_callers s) \<Longrightarrow> kt_callers s ! i = Leading ch \<Longrightarrow>
    key_step has ttl s i (set_caller i (Landed ch r) s)"
| store: "i < length (kt_callers s) \<Longrightarrow> kt_callers s ! i = Landed ch r \<Longrightarrow>
    key_step has ttl s i (store_outcome i ch r t s)"
| close: "i < length (kt_callers s) \<Longrightarrow> kt_callers s ! i = Closing ch r \<Longrightarrow>
    key_step has ttl s i (close_channel i ch r s)"

text \<open>A key source as \<open>newRemoteKeySource\<close> makes it, and callers with these key ids.\<close>

definition init_keys :: "string list \<Rightarrow> 's key_state" where
  "init_keys kids = \<lparr>kt_set = None, kt_fetched_at = zero_time, kt_fetching = None, kt_last_err = None,
     kt_closed = [], kt_next = 0, kt_callers = map Start kids, kt_outcomes = []\<rparr>"

inductive key_run ::
  "('s \<Rightarrow> string \<Rightarrow> bool) \<Rightarrow> duration \<Rightarrow> 's key_state \<Rightarrow> nat \<Rightarrow> 's key_state \<Rightarrow> bool"
  for has :: "'s \<Rightarrow> string \<Rightarrow> bool" and ttl :: duration and s0 :: "'s key_state" where
  run_refl: "key_run has ttl s0 0 s0"
| run_step: "key_run has ttl s0 n s \<Longrightarrow> key_step has ttl s i s' \<Longrightarrow> key_run has ttl s0 (Suc n) s'"

inductive_cases key_stepE: "key_step has ttl s i s'"

lemma set_caller_sel [simp]:
  "kt_set (set_caller i c s) = kt_set s" "kt_fetched_at (set_caller i c s) = kt_fetched_at s"
  "kt_fetching (set_caller i c s) = kt_fetching s" "kt_last_err (set_caller i c s) = kt_last_err s"
  "kt_closed (set_caller i c s) = kt_closed s" "kt_next (set_caller i c s) = kt_next s"
  "kt_callers (set_caller i c s) = (kt_callers s)[i := c]" "kt_outcomes (set_caller i c s) = kt_outcomes s"
  by (simp_all add: set_caller_def)

section \<open>Invariants\<close>

text \<open>A caller whose fetch is the one in flight, or is about to be.\<close>

fun in_flight :: "nat \<Rightarrow> 's caller \<Rightarrow> bool" where
  "in_flight ch (Leading c) = (c = ch)"
| "in_flight ch (Landed c r) = (c = ch)"
| "in_flight ch _ = False"

fun is_closing :: "nat \<Rightarrow> 's caller \<Rightarrow> bool" where
  "is_closing ch (Closing c r) = (c = ch)"
| "is_closing ch _ = False"

text \<open>Each channel has at most one caller that fetches for it or is about to close it.\<close>

definition owns :: "nat \<Rightarrow> 's caller \<Rightarrow> bool" where
  "owns ch c \<longleftrightarrow> in_flight ch c \<or> is_closing ch c"

definition flight_inv :: "'s key_state \<Rightarrow> bool" where
  "flight_inv s \<longleftrightarrow>
     (\<forall>i j ch. i < length (kt_callers s) \<longrightarrow> j < length (kt_callers s)
        \<longrightarrow> owns ch (kt_callers s ! i) \<longrightarrow> owns ch (kt_callers s ! j) \<longrightarrow> i = j)
     \<and> (\<forall>i ch. i < length (kt_callers s) \<longrightarrow> owns ch (kt_callers s ! i) \<longrightarrow>
          ch < kt_next s \<and> ch \<notin> set (kt_closed s))
     \<and> (\<forall>i ch. i < length (kt_callers s) \<longrightarrow> in_flight ch (kt_callers s ! i) \<longrightarrow> kt_fetching s = Some ch)
     \<and> (\<forall>i ch. i < length (kt_callers s) \<longrightarrow> is_closing ch (kt_callers s ! i) \<longrightarrow> kt_fetching s \<noteq> Some ch)
     \<and> (\<forall>ch. kt_fetching s = Some ch \<longrightarrow> (\<exists>i < length (kt_callers s). in_flight ch (kt_callers s ! i)))
     \<and> (\<forall>ch \<in> set (kt_closed s). ch < kt_next s)"

lemma owns_simps [simp]:
  "\<not> owns ch (Start kid)" "\<not> owns ch Refresh" "\<not> owns ch (Waiting c)" "\<not> owns ch Woken" "\<not> owns ch (Done r)"
  "owns ch (Leading c) \<longleftrightarrow> c = ch" "owns ch (Landed c r') \<longleftrightarrow> c = ch" "owns ch (Closing c r') \<longleftrightarrow> c = ch"
  by (auto simp: owns_def)


lemma callers_length: "key_step has ttl s i s' \<Longrightarrow> length (kt_callers s') = length (kt_callers s)"
  by (erule key_stepE)
    (auto simp: enter_refresh_def store_outcome_def close_channel_def split: option.splits sum.splits)

lemma store_outcome_sel [simp]:
  "kt_callers (store_outcome i ch r t s) = (kt_callers s)[i := Closing ch r]"
  "kt_fetching (store_outcome i ch r t s) = None" "kt_closed (store_outcome i ch r t s) = kt_closed s"
  "kt_next (store_outcome i ch r t s) = kt_next s" "kt_outcomes (store_outcome i ch r t s) = kt_outcomes s @ [r]"
  by (simp_all add: store_outcome_def split: sum.split)

lemma close_channel_sel [simp]:
  "kt_callers (close_channel i ch r s) = (kt_callers s)[i := Done (case r of Inl e \<Rightarrow> Inl e | Inr ks \<Rightarrow> Inr (Some ks))]"
  "kt_fetching (close_channel i ch r s) = kt_fetching s" "kt_closed (close_channel i ch r s) = ch # kt_closed s"
  "kt_next (close_channel i ch r s) = kt_next s" "kt_outcomes (close_channel i ch r s) = kt_outcomes s"
  "kt_set (close_channel i ch r s) = kt_set s" "kt_last_err (close_channel i ch r s) = kt_last_err s"
  by (simp_all add: close_channel_def)

lemma flight_invI:
  assumes "\<And>i j ch. i < length (kt_callers s) \<Longrightarrow> j < length (kt_callers s) \<Longrightarrow>
      owns ch (kt_callers s ! i) \<Longrightarrow> owns ch (kt_callers s ! j) \<Longrightarrow> i = j"
    and "\<And>i ch. i < length (kt_callers s) \<Longrightarrow> owns ch (kt_callers s ! i) \<Longrightarrow>
          ch < kt_next s \<and> ch \<notin> set (kt_closed s)"
    and "\<And>i ch. i < length (kt_callers s) \<Longrightarrow> in_flight ch (kt_callers s ! i) \<Longrightarrow> kt_fetching s = Some ch"
    and "\<And>i ch. i < length (kt_callers s) \<Longrightarrow> is_closing ch (kt_callers s ! i) \<Longrightarrow> kt_fetching s \<noteq> Some ch"
    and "\<And>ch. kt_fetching s = Some ch \<Longrightarrow> \<exists>i < length (kt_callers s). in_flight ch (kt_callers s ! i)"
    and "\<And>ch. ch \<in> set (kt_closed s) \<Longrightarrow> ch < kt_next s"
  shows "flight_inv s"
  using assms unfolding flight_inv_def by blast

lemma flight_inv_step:
  assumes inv: "flight_inv s" and step: "key_step has ttl s i s'"
  shows "flight_inv s'"
proof -
  have own: "\<And>i j ch. i < length (kt_callers s) \<Longrightarrow> j < length (kt_callers s) \<Longrightarrow>
      owns ch (kt_callers s ! i) \<Longrightarrow> owns ch (kt_callers s ! j) \<Longrightarrow> i = j"
    and new: "\<And>i ch. i < length (kt_callers s) \<Longrightarrow> owns ch (kt_callers s ! i) \<Longrightarrow>
          ch < kt_next s \<and> ch \<notin> set (kt_closed s)"
    and fly: "\<And>i ch. i < length (kt_callers s) \<Longrightarrow> in_flight ch (kt_callers s ! i) \<Longrightarrow> kt_fetching s = Some ch"
    and cls: "\<And>i ch. i < length (kt_callers s) \<Longrightarrow> is_closing ch (kt_callers s ! i) \<Longrightarrow> kt_fetching s \<noteq> Some ch"
    and ex: "\<And>ch. kt_fetching s = Some ch \<Longrightarrow> \<exists>i < length (kt_callers s). in_flight ch (kt_callers s ! i)"
    and old: "\<And>ch. ch \<in> set (kt_closed s) \<Longrightarrow> ch < kt_next s"
    using inv unfolding flight_inv_def by blast+
  text \<open>A caller that owns nothing changes to another that owns nothing.\<close>
  have idle: "flight_inv (set_caller i c s)"
    if "i < length (kt_callers s)" "\<And>ch. \<not> owns ch (kt_callers s ! i)" "\<And>ch. \<not> owns ch c" for c
  proof (rule flight_invI, goal_cases)
    case (1 j k ch)
    with that own show ?case by (auto simp: nth_list_update split: if_splits)
  next
    case (2 j ch)
    with that new show ?case by (auto simp: nth_list_update split: if_splits)
  next
    case (3 j ch)
    with that fly show ?case by (auto simp: nth_list_update owns_def split: if_splits)
  next
    case (4 j ch)
    with that cls show ?case by (auto simp: nth_list_update owns_def split: if_splits)
  next
    case (5 ch)
    then obtain j where "j < length (kt_callers s)" "in_flight ch (kt_callers s ! j)" using ex by auto
    moreover from this have "j \<noteq> i" using that(2) by (auto simp: owns_def)
    ultimately show ?case by (intro exI [of _ j]) simp
  next
    case (6 ch)
    with old show ?case by simp
  qed
  from step show ?thesis
  proof cases
    case (check kid t)
    have "\<not> owns ch (check_keys has ttl t kid s)" for ch
      by (simp add: check_keys_def split: option.split)
    with check idle show ?thesis by simp
  next
    case enter
    show ?thesis
    proof (cases "kt_fetching s")
      case (Some ch)
      with enter idle show ?thesis by (simp add: enter_refresh_def)
    next
      case None
      let ?n = "kt_next s"
      have s': "kt_callers s' = (kt_callers s)[i := Leading ?n]" "kt_fetching s' = Some ?n"
        "kt_next s' = Suc ?n" "kt_closed s' = kt_closed s"
        using enter None by (simp_all add: enter_refresh_def)
      show ?thesis
      proof (rule flight_invI, goal_cases)
        case (1 j k ch)
        have no: "\<not> owns ?n (kt_callers s ! l)" if "l < length (kt_callers s)" for l
          using new [OF that, of ?n] by auto
        from 1 no [of j] no [of k] own [of j k ch] show ?case
          by (cases "j = i"; cases "k = i") (auto simp: s')
      next
        case (2 j ch)
        with new [of j ch] old [of ch] show ?case by (cases "j = i") (auto simp: s')
      next
        case (3 j ch)
        with fly [of j ch] None show ?case by (cases "j = i") (auto simp: s')
      next
        case (4 j ch)
        with new [of j ch] show ?case by (cases "j = i") (auto simp: s' owns_def)
      next
        case (5 ch)
        with s'(2) have "ch = ?n" by simp
        with s'(1) enter(2) show ?case by (intro exI [of _ i]) simp
      next
        case (6 ch)
        with old [of ch] show ?case by (simp add: s')
      qed
    qed
  next
    case (wake ch)
    with idle show ?thesis by simp
  next
    case mirror
    with idle show ?thesis by simp
  next
    case (fetched ch r)
    show ?thesis
    proof (rule flight_invI, goal_cases)
      case (1 j k ch)
      with own fetched show ?case by (auto simp: nth_list_update split: if_splits)
    next
      case (2 j ch)
      with new fetched show ?case by (auto simp: nth_list_update split: if_splits)
    next
      case (3 j c)
      with fly [of i ch] fly [of j c] fetched show ?case by (cases "j = i") auto
    next
      case (4 j ch)
      with cls fetched show ?case by (auto simp: nth_list_update split: if_splits)
    next
      case (5 ch')
      then obtain j where "j < length (kt_callers s)" "in_flight ch' (kt_callers s ! j)"
        using ex fetched(1) by auto
      with fetched show ?case by (intro exI [of _ j]) (auto simp: nth_list_update)
    next
      case (6 ch)
      with old fetched show ?case by simp
    qed
  next
    case (store ch r t)
    have only: "j = i" if "j < length (kt_callers s)" "in_flight c (kt_callers s ! j)" for j c
    proof -
      have "c = ch" using fly [OF that] fly [OF store(2), of ch] store(3) by simp
      then show ?thesis using own [OF that(1) store(2), of ch] that(2) store(3) by (simp add: owns_def)
    qed
    show ?thesis
    proof (rule flight_invI, goal_cases)
      case (1 j k ch)
      with own store show ?case by (auto simp: nth_list_update split: if_splits)
    next
      case (2 j ch)
      with new store show ?case by (auto simp: nth_list_update split: if_splits)
    next
      case (3 j ch)
      with only [of j ch] store show ?case by (auto simp: nth_list_update split: if_splits)
    next
      case (4 j ch)
      with store show ?case by simp
    next
      case (5 ch)
      with store show ?case by simp
    next
      case (6 ch)
      with old store show ?case by simp
    qed
  next
    case (close ch r)
    show ?thesis
    proof (rule flight_invI, goal_cases)
      case (1 j k c)
      with own close show ?case by (auto simp: nth_list_update split: if_splits)
    next
      case (2 j c)
      then have j: "j < length (kt_callers s)" "j \<noteq> i" "owns c (kt_callers s ! j)"
        using close by (auto simp: nth_list_update split: if_splits)
      then have "c \<noteq> ch" using own [OF j(1) close(2) j(3)] close(3) by auto
      with new [OF j(1,3)] close show ?case by simp
    next
      case (3 j c)
      with fly close show ?case by (auto simp: nth_list_update split: if_splits)
    next
      case (4 j c)
      with cls close show ?case by (auto simp: nth_list_update split: if_splits)
    next
      case (5 c)
      then obtain j where "j < length (kt_callers s)" "in_flight c (kt_callers s ! j)"
        using ex close(1) by auto
      with close show ?case by (intro exI [of _ j]) (auto simp: nth_list_update)
    next
      case (6 c)
      with old new [OF close(2), of ch] close show ?case by auto
    qed
  qed
qed

lemma flight_inv_init: "flight_inv (init_keys kids)"
  by (rule flight_invI) (simp_all add: init_keys_def)

text \<open>A joiner waits for a channel that is closed, or about to be: no wake-up is lost.\<close>

definition wake_inv :: "'s key_state \<Rightarrow> bool" where
  "wake_inv s \<longleftrightarrow> (\<forall>ch. Waiting ch \<in> set (kt_callers s) \<longrightarrow>
     ch \<in> set (kt_closed s) \<or> (\<exists>c \<in> set (kt_callers s). owns ch c))"

lemma owner_kept:
  assumes "c \<in> set xs" and "owns ch c" and "i < length xs" and "\<not> owns ch (xs ! i) \<or> owns ch d"
  shows "\<exists>c \<in> set (xs[i := d]). owns ch c"
proof -
  obtain j where j: "j < length xs" "xs ! j = c" using assms(1) by (auto simp: in_set_conv_nth)
  show ?thesis
  proof (cases "j = i")
    case True
    with assms(2,4) j have "owns ch d" by auto
    then show ?thesis using assms(3) set_update_memI [of i xs d] by blast
  next
    case False
    with j have "xs[i := d] ! j = c" by simp
    with j assms(2) show ?thesis by (metis length_list_update nth_mem)
  qed
qed

lemma wake_inv_step:
  assumes flight: "flight_inv s" and inv: "wake_inv s" and step: "key_step has ttl s i s'"
  shows "wake_inv s'"
proof -
  have upd: "x \<in> set ((kt_callers s)[i := c]) \<Longrightarrow> x = c \<or> x \<in> set (kt_callers s)" for x c
    using set_update_subset_insert [of "kt_callers s" i c] by auto
  have keep: "wake_inv (s0\<lparr>kt_callers := (kt_callers s)[i := c]\<rparr>)"
    if i: "i < length (kt_callers s)" and w: "\<forall>ch. c \<noteq> Waiting ch" and cl: "kt_closed s0 = kt_closed s"
      and own: "\<And>ch. owns ch (kt_callers s ! i) \<Longrightarrow> owns ch c" for c and s0 :: "'a key_state"
    unfolding wake_inv_def
  proof (intro allI impI)
    fix ch
    assume "Waiting ch \<in> set (kt_callers (s0\<lparr>kt_callers := (kt_callers s)[i := c]\<rparr>))"
    then have "Waiting ch \<in> set (kt_callers s)" using upd w by fastforce
    then consider "ch \<in> set (kt_closed s)" | d where "d \<in> set (kt_callers s)" "owns ch d"
      using inv unfolding wake_inv_def by blast
    then show "ch \<in> set (kt_closed (s0\<lparr>kt_callers := (kt_callers s)[i := c]\<rparr>))
      \<or> (\<exists>d \<in> set (kt_callers (s0\<lparr>kt_callers := (kt_callers s)[i := c]\<rparr>)). owns ch d)"
    proof cases
      case 1
      then show ?thesis using cl by simp
    next
      case 2
      then show ?thesis using owner_kept [OF 2 i, of c] own by auto
    qed
  qed
  have join: "wake_inv (set_caller i (Waiting ch) s)"
    if i: "i < length (kt_callers s)" and rf: "kt_callers s ! i = Refresh" and fl: "kt_fetching s = Some ch" for ch
    unfolding wake_inv_def
  proof (intro allI impI)
    fix c
    assume "Waiting c \<in> set (kt_callers (set_caller i (Waiting ch) s))"
    then have "c = ch \<or> Waiting c \<in> set (kt_callers s)" using upd by auto
    moreover obtain j where "j < length (kt_callers s)" "in_flight ch (kt_callers s ! j)"
      using flight fl unfolding flight_inv_def by blast
    then have "\<exists>d \<in> set (kt_callers s). owns ch d" using nth_mem by (auto simp: owns_def)
    ultimately have "c \<in> set (kt_closed s) \<or> (\<exists>d \<in> set (kt_callers s). owns c d)"
      using inv unfolding wake_inv_def by blast
    then show "c \<in> set (kt_closed (set_caller i (Waiting ch) s))
      \<or> (\<exists>d \<in> set (kt_callers (set_caller i (Waiting ch) s)). owns c d)"
      using owner_kept [of _ "kt_callers s" c i "Waiting ch"] i rf by auto
  qed
  from step show ?thesis
  proof cases
    case (check kid t)
    have "\<forall>ch. check_keys has ttl t kid s \<noteq> Waiting ch" by (simp add: check_keys_def split: option.split)
    with keep [of "check_keys has ttl t kid s" s] check show ?thesis by (simp add: set_caller_def)
  next
    case enter
    show ?thesis
    proof (cases "kt_fetching s")
      case (Some ch)
      with enter join show ?thesis by (simp add: enter_refresh_def)
    next
      case None
      with enter keep [of "Leading (kt_next s)"
          "s\<lparr>kt_fetching := Some (kt_next s), kt_next := Suc (kt_next s)\<rparr>"]
      show ?thesis by (simp add: enter_refresh_def set_caller_def)
    qed
  next
    case (wake ch)
    with keep [of Woken s] show ?thesis by (simp add: set_caller_def)
  next
    case mirror
    with keep [of "Done (KeysConc.mirror s)" s] show ?thesis by (simp add: set_caller_def)
  next
    case (fetched ch r)
    with keep [of "Landed ch r" s] show ?thesis by (simp add: set_caller_def)
  next
    case (store ch r t)
    have "kt_closed (case r of Inl e \<Rightarrow> s\<lparr>kt_last_err := Some e\<rparr>
        | Inr ks \<Rightarrow> s\<lparr>kt_set := Some ks, kt_fetched_at := t, kt_last_err := None\<rparr>) = kt_closed s"
      "kt_callers (case r of Inl e \<Rightarrow> s\<lparr>kt_last_err := Some e\<rparr>
        | Inr ks \<Rightarrow> s\<lparr>kt_set := Some ks, kt_fetched_at := t, kt_last_err := None\<rparr>) = kt_callers s"
      by (simp_all split: sum.split)
    with keep [of "Closing ch r" "(case r of Inl e \<Rightarrow> s\<lparr>kt_last_err := Some e\<rparr>
        | Inr ks \<Rightarrow> s\<lparr>kt_set := Some ks, kt_fetched_at := t, kt_last_err := None\<rparr>)
        \<lparr>kt_fetching := None, kt_outcomes := kt_outcomes s @ [r]\<rparr>"] store
    show ?thesis by (simp add: store_outcome_def set_caller_def)
  next
    case (close ch r)
    show ?thesis
      unfolding wake_inv_def
    proof (intro allI impI)
      fix c
      assume "Waiting c \<in> set (kt_callers s')"
      then have "Waiting c \<in> set (kt_callers s)" using upd close by fastforce
      then consider "c \<in> set (kt_closed s)" | d where "d \<in> set (kt_callers s)" "owns c d"
        using inv unfolding wake_inv_def by blast
      then show "c \<in> set (kt_closed s') \<or> (\<exists>d \<in> set (kt_callers s'). owns c d)"
      proof cases
        case 1
        with close show ?thesis by simp
      next
        case 2
        show ?thesis
        proof (cases "c = ch")
          case True
          with close show ?thesis by simp
        next
          case False
          with close owner_kept [OF 2 close(2), of "Done (case r of Inl e \<Rightarrow> Inl e | Inr ks \<Rightarrow> Inr (Some ks))"]
          show ?thesis by auto
        qed
      qed
    qed
  qed
qed

lemma wake_inv_init: "wake_inv (init_keys kids)"
  by (auto simp: wake_inv_def init_keys_def)


section \<open>Answers\<close>

text \<open>The fields as the outcomes stored so far determine them.\<close>

fun last_good :: "'s result list \<Rightarrow> 's option \<Rightarrow> 's option" where
  "last_good [] a = a"
| "last_good (r # rs) a = last_good rs (case r of Inl e \<Rightarrow> a | Inr ks \<Rightarrow> Some ks)"

fun last_bad :: "'s result list \<Rightarrow> string option \<Rightarrow> string option" where
  "last_bad [] a = a"
| "last_bad (r # rs) a = last_bad rs (case r of Inl e \<Rightarrow> Some e | Inr ks \<Rightarrow> None)"

lemma last_good_snoc [simp]: "last_good (rs @ [r]) a = (case r of Inl e \<Rightarrow> last_good rs a | Inr ks \<Rightarrow> Some ks)"
  by (induction rs arbitrary: a) (simp_all split: sum.split)

lemma last_bad_snoc [simp]: "last_bad (rs @ [r]) a = (case r of Inl e \<Rightarrow> Some e | Inr ks \<Rightarrow> None)"
  by (induction rs arbitrary: a) (simp_all split: sum.split)

lemma last_good_in: "last_good rs None = Some ks \<Longrightarrow> Inr ks \<in> set rs"
  by (induction rs rule: rev_induct) (auto split: sum.splits)

lemma last_bad_in: "last_bad rs None = Some e \<Longrightarrow> Inl e \<in> set rs"
  by (induction rs rule: rev_induct) (auto split: sum.splits)

lemma last_cases: "rs \<noteq> [] \<Longrightarrow> last_bad rs None = None \<Longrightarrow> \<exists>ks. last_good rs None = Some ks"
  by (induction rs rule: rev_induct) (auto split: sum.splits)

text \<open>An answer that the outcomes justify, and what the callers on their way to one may hold.\<close>

definition answer_from :: "'s result list \<Rightarrow> 's option result \<Rightarrow> bool" where
  "answer_from rs a \<longleftrightarrow>
     (\<exists>ks. a = Inr (Some ks) \<and> Inr ks \<in> set rs)
     \<or> (\<exists>e. Inl e \<in> set rs \<and> (a = Inl e \<or> a = Inl (''aoa: jwks refresh failed: '' @ e)))"

fun caller_ok :: "'s result list \<Rightarrow> 's caller \<Rightarrow> bool" where
  "caller_ok rs Woken \<longleftrightarrow> rs \<noteq> []"
| "caller_ok rs (Closing ch r) \<longleftrightarrow> r \<in> set rs"
| "caller_ok rs (Done a) \<longleftrightarrow> answer_from rs a"
| "caller_ok rs _ \<longleftrightarrow> True"

definition outcome_inv :: "'s key_state \<Rightarrow> bool" where
  "outcome_inv s \<longleftrightarrow>
     kt_set s = last_good (kt_outcomes s) None \<and> kt_last_err s = last_bad (kt_outcomes s) None
     \<and> (kt_closed s \<noteq> [] \<longrightarrow> kt_outcomes s \<noteq> [])
     \<and> (\<forall>c \<in> set (kt_callers s). caller_ok (kt_outcomes s) c)"

lemma answer_from_more: "answer_from rs a \<Longrightarrow> answer_from (rs @ [r]) a"
  by (auto simp: answer_from_def)

lemma caller_ok_more: "caller_ok rs c \<Longrightarrow> caller_ok (rs @ [r]) c"
  by (cases c) (auto simp: answer_from_more)

lemma callers_ok_update: "\<forall>c \<in> set cs. P c \<Longrightarrow> P d \<Longrightarrow> \<forall>c \<in> set (cs[i := d]). P c"
  using set_update_subset_insert [of cs i d] by blast

lemma store_outcome_fields:
  "kt_set (store_outcome i ch r t s) = (case r of Inl e \<Rightarrow> kt_set s | Inr ks \<Rightarrow> Some ks)"
  "kt_last_err (store_outcome i ch r t s) = (case r of Inl e \<Rightarrow> Some e | Inr ks \<Rightarrow> None)"
  by (simp_all add: store_outcome_def split: sum.split)

lemma mirror_from: "outcome_inv s \<Longrightarrow> kt_outcomes s \<noteq> [] \<Longrightarrow> answer_from (kt_outcomes s) (mirror s)"
  unfolding outcome_inv_def mirror_def answer_from_def
  by (auto dest: last_bad_in last_good_in dest!: last_cases split: option.splits)

lemma outcome_inv_caller:
  "outcome_inv s \<Longrightarrow> caller_ok (kt_outcomes s) c \<Longrightarrow> outcome_inv (set_caller i c s)"
  unfolding outcome_inv_def using callers_ok_update [of "kt_callers s" "caller_ok (kt_outcomes s)" c i] by simp

lemma outcome_inv_step:
  assumes inv: "outcome_inv s" and step: "key_step has ttl s i s'"
  shows "outcome_inv s'"
  using step
proof cases
  case (check kid t)
  have "caller_ok (kt_outcomes s) (check_keys has ttl t kid s)"
    using inv by (auto simp: check_keys_def outcome_inv_def answer_from_def dest!: last_good_in split: option.splits)
  with inv check show ?thesis by (simp add: outcome_inv_caller)
next
  case enter
  have "outcome_inv (s\<lparr>kt_fetching := f, kt_next := n\<rparr>)" for f n using inv by (simp add: outcome_inv_def)
  then show ?thesis
    using inv enter by (cases "kt_fetching s") (simp_all add: enter_refresh_def outcome_inv_caller)
next
  case (wake ch)
  with inv have "kt_outcomes s \<noteq> []" by (auto simp: outcome_inv_def)
  with inv wake show ?thesis by (simp add: outcome_inv_caller)
next
  case mirror
  with inv have "caller_ok (kt_outcomes s) Woken" unfolding outcome_inv_def by (metis nth_mem)
  with inv mirror show ?thesis by (simp add: outcome_inv_caller mirror_from)
next
  case (fetched ch r)
  with inv show ?thesis by (simp add: outcome_inv_caller)
next
  case (store ch r t)
  have "\<forall>c \<in> set (kt_callers s'). caller_ok (kt_outcomes s') c"
    using inv store callers_ok_update [of "kt_callers s" "caller_ok (kt_outcomes s @ [r])" "Closing ch r" i]
    unfolding outcome_inv_def by (simp add: caller_ok_more)
  with inv store show ?thesis unfolding outcome_inv_def by (simp add: store_outcome_fields split: sum.split)
next
  case (close ch r)
  with inv have "caller_ok (kt_outcomes s) (Closing ch r)" unfolding outcome_inv_def by (metis nth_mem)
  then have r: "r \<in> set (kt_outcomes s)" by simp
  then have "caller_ok (kt_outcomes s) (Done (case r of Inl e \<Rightarrow> Inl e | Inr ks \<Rightarrow> Inr (Some ks)))"
    by (auto simp: answer_from_def split: sum.split)
  moreover have "outcome_inv (s\<lparr>kt_closed := ch # kt_closed s\<rparr>)"
    using inv r by (auto simp: outcome_inv_def)
  ultimately show ?thesis
    using close outcome_inv_caller [of "s\<lparr>kt_closed := ch # kt_closed s\<rparr>"] by (simp add: close_channel_def)
qed

lemma outcome_inv_init: "outcome_inv (init_keys kids)"
  by (auto simp: outcome_inv_def init_keys_def)

section \<open>Runs end\<close>

text \<open>The steps a caller has left at most.\<close>

fun steps_left :: "'s caller \<Rightarrow> nat" where
  "steps_left (Start kid) = 5"
| "steps_left Refresh = 4"
| "steps_left (Leading ch) = 3"
| "steps_left (Landed ch r) = 2"
| "steps_left (Waiting ch) = 2"
| "steps_left (Closing ch r) = 1"
| "steps_left Woken = 1"
| "steps_left (Done a) = 0"

definition work_left :: "'s key_state \<Rightarrow> nat" where
  "work_left s = sum_list (map steps_left (kt_callers s))"

lemma sum_list_less_update:
  "i < length xs \<Longrightarrow> y < f (xs ! i) \<Longrightarrow> f d = y \<Longrightarrow> sum_list (map f (xs[i := d])) < (sum_list (map f xs) :: nat)"
proof (induction xs arbitrary: i)
  case (Cons x xs)
  then show ?case by (cases i) auto
qed simp

lemma work_left_update:
  "i < length (kt_callers s) \<Longrightarrow> kt_callers s' = (kt_callers s)[i := d] \<Longrightarrow> steps_left d < steps_left (kt_callers s ! i) \<Longrightarrow>
    work_left s' < work_left s"
  unfolding work_left_def using sum_list_less_update [of i "kt_callers s" "steps_left d" steps_left d] by simp

lemma work_left_step: "key_step has ttl s i s' \<Longrightarrow> work_left s' < work_left s"
proof (erule key_stepE, goal_cases)
  case (1 kid t)
  have "steps_left (check_keys has ttl t kid s) < 5" by (simp add: check_keys_def split: option.split)
  with 1 show ?case using work_left_update [of i s s'] by simp
next
  case 2
  then show ?case using work_left_update [of i s s'] by (auto simp: enter_refresh_def split: option.split)
qed (use work_left_update [of i s s'] in auto)

lemma key_run_work: "key_run has ttl s0 n s \<Longrightarrow> n + work_left s \<le> work_left s0"
  by (induction rule: key_run.induct) (auto dest: work_left_step)

lemma work_left_init: "work_left (init_keys kids) = 5 * length kids"
  by (simp add: work_left_def init_keys_def sum_list_triv comp_def)

text \<open>Where no step is possible, every caller has its answer.\<close>

lemma caller_moves:
  assumes i: "i < length (kt_callers s)" and nd: "\<forall>a. kt_callers s ! i \<noteq> Done a"
    and w: "\<And>ch. kt_callers s ! i = Waiting ch \<Longrightarrow> ch \<in> set (kt_closed s)"
  shows "\<exists>s'. key_step has ttl s i s'"
proof (cases "kt_callers s ! i")
  case (Start kid)
  show ?thesis by (rule exI, rule key_step.check [OF i Start])
next
  case Refresh
  show ?thesis by (rule exI, rule key_step.enter [OF i Refresh])
next
  case (Waiting ch)
  show ?thesis by (rule exI, rule key_step.wake [OF i Waiting w [OF Waiting]])
next
  case Woken
  show ?thesis by (rule exI, rule key_step.mirror [OF i Woken])
next
  case (Leading ch)
  show ?thesis by (rule exI, rule key_step.fetched [OF i Leading])
next
  case (Landed ch r)
  show ?thesis by (rule exI, rule key_step.store [OF i Landed])
next
  case (Closing ch r)
  show ?thesis by (rule exI, rule key_step.close [OF i Closing])
next
  case (Done a)
  with nd show ?thesis by simp
qed

text \<open>A caller without an answer can move, or waits for one that can.\<close>

lemma stuck_mover:
  assumes wake: "wake_inv s" and i: "i < length (kt_callers s)" and nd: "\<forall>a. kt_callers s ! i \<noteq> Done a"
  shows "\<exists>j s'. key_step has ttl s j s' \<and> j < length (kt_callers s) \<and> (j = i \<or> (\<exists>ch. owns ch (kt_callers s ! j)))"
proof (cases "\<forall>ch. kt_callers s ! i = Waiting ch \<longrightarrow> ch \<in> set (kt_closed s)")
  case True
  then show ?thesis using caller_moves [OF i nd] i by blast
next
  case False
  then obtain ch where ch: "kt_callers s ! i = Waiting ch" "ch \<notin> set (kt_closed s)" by blast
  with i have "Waiting ch \<in> set (kt_callers s)" by (metis nth_mem)
  with wake ch obtain c where "c \<in> set (kt_callers s)" "owns ch c" unfolding wake_inv_def by blast
  then obtain j where j: "j < length (kt_callers s)" "owns ch (kt_callers s ! j)"
    by (auto simp: in_set_conv_nth)
  have "\<exists>s'. key_step has ttl s j s'" by (rule caller_moves [OF j(1)]) (use j(2) in auto)
  with j show ?thesis by blast
qed

lemma stuck_done:
  assumes "wake_inv s" and "i < length (kt_callers s)" and "\<forall>a. kt_callers s ! i \<noteq> Done a"
  shows "\<exists>j s'. key_step has ttl s j s'"
  using stuck_mover [OF assms] by blast

text \<open>The invariants hold in every state of a run.\<close>

lemma key_run_invs:
  assumes "key_run has ttl (init_keys kids) n s"
  shows "flight_inv s \<and> wake_inv s \<and> outcome_inv s \<and> length (kt_callers s) = length kids"
  using assms
proof (induction rule: key_run.induct)
  case run_refl
  show ?case
    by (simp add: flight_inv_init wake_inv_init outcome_inv_init) (simp add: init_keys_def)
next
  case (run_step n s i s')
  then show ?case
    using flight_inv_step wake_inv_step outcome_inv_step callers_length by metis
qed

end
