(* ===== verification/KeysClaims.thy ===== *)
theory KeysClaims
  imports KeysConc Demo
begin

text \<open>
  What a remote key source promises to callers that run at the same time: one fetch in flight at
  most, an answer for every caller, no answer that no fetch gave; and what it does not promise, that
  a joiner sees the outcome of the fetch it joined. One caller alone behaves as \<open>remote_lookup\<close>.
\<close>

section \<open>Counting the fetches in flight\<close>

fun is_fetching :: "'s caller \<Rightarrow> bool" where
  "is_fetching (Leading ch) = True"
| "is_fetching (Landed ch r) = True"
| "is_fetching _ = False"

lemma is_fetching_in_flight: "is_fetching c \<longleftrightarrow> (\<exists>ch. in_flight ch c)"
  by (cases c) auto

lemma filter_at_most_one:
  assumes "\<And>i j. i < length xs \<Longrightarrow> j < length xs \<Longrightarrow> P (xs ! i) \<Longrightarrow> P (xs ! j) \<Longrightarrow> i = j"
  shows "length (filter P xs) = (if \<exists>x \<in> set xs. P x then 1 else 0)"
  using assms
proof (induction xs)
  case (Cons x xs)
  have tl: "i = j" if "i < length xs" "j < length xs" "P (xs ! i)" "P (xs ! j)" for i j
    using Cons.prems [of "Suc i" "Suc j"] that by simp
  have hd: "\<not> P y" if "P x" "y \<in> set xs" for y
  proof
    assume "P y"
    from that obtain i where i: "i < length xs" "xs ! i = y" by (auto simp: in_set_conv_nth)
    with Cons.prems [of 0 "Suc i"] \<open>P x\<close> \<open>P y\<close> show False by simp
  qed
  show ?case
  proof (cases "P x")
    case True
    then have "filter P xs = []" using hd by (simp add: filter_empty_conv)
    with True show ?thesis by simp
  next
    case False
    then show ?thesis using Cons.IH [OF tl] by simp
  qed
qed simp

lemma fetching_count:
  assumes "flight_inv s"
  shows "length (filter is_fetching (kt_callers s)) = (if kt_fetching s = None then 0 else 1)"
proof -
  have fly: "\<And>i ch. i < length (kt_callers s) \<Longrightarrow> in_flight ch (kt_callers s ! i) \<Longrightarrow> kt_fetching s = Some ch"
    and own: "\<And>i j ch. i < length (kt_callers s) \<Longrightarrow> j < length (kt_callers s) \<Longrightarrow>
      owns ch (kt_callers s ! i) \<Longrightarrow> owns ch (kt_callers s ! j) \<Longrightarrow> i = j"
    and ex: "\<And>ch. kt_fetching s = Some ch \<Longrightarrow> \<exists>i < length (kt_callers s). in_flight ch (kt_callers s ! i)"
    using assms unfolding flight_inv_def by blast+
  have "i = j" if ij: "i < length (kt_callers s)" "j < length (kt_callers s)"
      "is_fetching (kt_callers s ! i)" "is_fetching (kt_callers s ! j)" for i j
  proof -
    from ij obtain a b where ab: "in_flight a (kt_callers s ! i)" "in_flight b (kt_callers s ! j)"
      by (auto simp: is_fetching_in_flight)
    then have "a = b" using fly ij by (metis option.inject)
    with ab own ij show ?thesis by (auto simp: owns_def)
  qed
  then have "length (filter is_fetching (kt_callers s)) = (if \<exists>c \<in> set (kt_callers s). is_fetching c then 1 else 0)"
    by (rule filter_at_most_one)
  moreover have "(\<exists>c \<in> set (kt_callers s). is_fetching c) \<longleftrightarrow> kt_fetching s \<noteq> None"
  proof
    assume "\<exists>c \<in> set (kt_callers s). is_fetching c"
    then show "kt_fetching s \<noteq> None" using fly by (auto simp: in_set_conv_nth is_fetching_in_flight)
  next
    assume "kt_fetching s \<noteq> None"
    then show "\<exists>c \<in> set (kt_callers s). is_fetching c"
      using ex nth_mem by (force simp: is_fetching_in_flight)
  qed
  ultimately show ?thesis by auto
qed

section \<open>One caller alone\<close>

text \<open>The cache of the sequential model, read off the fields.\<close>

definition keys_of :: "'s key_state \<Rightarrow> 's key_cache" where
  "keys_of s = \<lparr>kc_set = kt_set s, kc_fetched_at = kt_fetched_at s, kc_last_err = kt_last_err s\<rparr>"

text \<open>What \<open>refresh\<close> returns to its caller, in Go's form: the set, or nil and an error.\<close>

definition returned :: "'s result \<Rightarrow> 's caller" where
  "returned r = Done (case r of Inl e \<Rightarrow> Inl e | Inr ks \<Rightarrow> Inr (Some ks))"

lemma run_one: "key_step has ttl s0 i s \<Longrightarrow> key_run has ttl s0 1 s"
  using key_run.run_step [OF key_run.run_refl] by fastforce

lemma run_snoc: "key_run has ttl s0 n s \<Longrightarrow> key_step has ttl s i s' \<Longrightarrow> m = Suc n \<Longrightarrow> key_run has ttl s0 m s'"
  using key_run.run_step by fast

lemma refresh_alone:
  assumes i: "i < length (kt_callers s)" and free: "kt_fetching s = None" and at: "kt_callers s ! i = Refresh"
  shows "\<exists>s'. key_run has ttl s 4 s' \<and> kt_callers s' = (kt_callers s)[i := returned r] \<and> kt_fetching s' = None
    \<and> keys_of s' = (case r of
        Inr ks \<Rightarrow> \<lparr>kc_set = Some ks, kc_fetched_at = t, kc_last_err = None\<rparr>
      | Inl e \<Rightarrow> (keys_of s)\<lparr>kc_last_err := Some e\<rparr>)"
proof -
  define ch where "ch = kt_next s"
  define s1 where "s1 = enter_refresh i s"
  define s2 where "s2 = set_caller i (Landed ch r) s1"
  define s3 where "s3 = store_outcome i ch r t s2"
  define s4 where "s4 = close_channel i ch r s3"
  have c1: "kt_callers s1 = (kt_callers s)[i := Leading ch]" "kt_set s1 = kt_set s"
      "kt_fetched_at s1 = kt_fetched_at s" "kt_last_err s1 = kt_last_err s"
    using free by (simp_all add: s1_def enter_refresh_def ch_def)
  have r1: "key_run has ttl s 1 s1"
    unfolding s1_def by (rule run_one, rule key_step.enter [OF i at])
  have "key_step has ttl s1 i s2"
    unfolding s2_def by (rule key_step.fetched) (simp_all add: c1 i)
  with r1 have r2: "key_run has ttl s 2 s2" by (rule run_snoc) simp
  have "key_step has ttl s2 i s3"
    unfolding s3_def by (rule key_step.store) (simp_all add: s2_def c1 i)
  with r2 have r3: "key_run has ttl s 3 s3" by (rule run_snoc) simp
  have "key_step has ttl s3 i s4"
    unfolding s4_def by (rule key_step.close) (simp_all add: s3_def s2_def c1 i)
  with r3 have "key_run has ttl s 4 s4" by (rule run_snoc) simp
  moreover have "kt_callers s4 = (kt_callers s)[i := returned r]" "kt_fetching s4 = None"
    by (simp_all add: s4_def s3_def s2_def c1 returned_def)
  moreover have "keys_of s4 = (case r of
        Inr ks \<Rightarrow> \<lparr>kc_set = Some ks, kc_fetched_at = t, kc_last_err = None\<rparr>
      | Inl e \<Rightarrow> (keys_of s)\<lparr>kc_last_err := Some e\<rparr>)"
    by (simp add: keys_of_def s4_def s3_def s2_def c1 store_outcome_def close_channel_def split: sum.split)
  ultimately show ?thesis by blast
qed

text \<open>A run may start with a step.\<close>

lemma run_prepend:
  assumes "key_step has ttl s0 i s1" and "key_run has ttl s1 n s"
  shows "key_run has ttl s0 (Suc n) s"
  using assms(2,1)
proof (induction rule: key_run.induct)
  case run_refl
  then show ?case using run_one by fastforce
next
  case (run_step n s i' s')
  then show ?case by (blast intro: key_run.run_step)
qed

lemma refresh_sim:
  assumes i: "i < length (kt_callers s)" and free: "kt_fetching s = None" and at: "kt_callers s ! i = Refresh"
    and keys: "keys_of s = w_keys w" and go: "refresh J uri w = (r, w')"
  shows "\<exists>s'. key_run has ttl s 4 s' \<and> kt_callers s' = (kt_callers s)[i := returned r]
    \<and> kt_fetching s' = None \<and> keys_of s' = w_keys w'"
proof -
  obtain x w1 where x: "fetch J uri w = (x, w1)" by (cases "fetch J uri w")
  define t where "t = w_clock w1 (w_tick w1)"
  have k: "w_keys w' = (case r of
      Inr ks \<Rightarrow> \<lparr>kc_set = Some ks, kc_fetched_at = t, kc_last_err = None\<rparr>
    | Inl e \<Rightarrow> (keys_of s)\<lparr>kc_last_err := Some e\<rparr>)"
    using go x keys fetch_keys [OF x] by (auto simp: refresh_def now_def t_def split: sum.splits)
  show ?thesis
    unfolding k by (rule refresh_alone [OF i free at])
qed

text \<open>The steps of a lookup by a caller that is alone.\<close>

lemma lookup_sim:
  assumes i: "i < length (kt_callers s)" and free: "kt_fetching s = None" and at: "kt_callers s ! i = Start kid"
    and keys: "keys_of s = w_keys w" and go: "remote_lookup J uri ttl kid w = (r, w')"
  shows "\<exists>n s'. key_run (jwk_lookup J) ttl s n s' \<and> n \<le> 5 \<and> kt_callers s' = (kt_callers s)[i := returned r]
    \<and> kt_fetching s' = None \<and> keys_of s' = w_keys w'"
proof -
  define t where "t = w_clock w (w_tick w)"
  define c where "c = check_keys (jwk_lookup J) ttl t kid s"
  have step: "key_step (jwk_lookup J) ttl s i (set_caller i c s)"
    unfolding c_def by (rule key_step.check [OF i at])
  have sel: "kt_set s = kc_set (w_keys w)" "kt_fetched_at s = kc_fetched_at (w_keys w)"
    using keys unfolding keys_of_def by (metis key_cache.select_convs)+
  have same: "keys_of (set_caller i c s) = w_keys w" using keys by (simp add: keys_of_def)
  show ?thesis
  proof (cases "c = Refresh")
    case True
    obtain v where v: "refresh J uri v = (r, w')" "w_keys v = w_keys w"
      using go True sel
      by (auto simp: remote_lookup_def c_def check_keys_def now_def t_def split: option.splits if_splits)
    have "\<exists>s'. key_run (jwk_lookup J) ttl (set_caller i c s) 4 s'
        \<and> kt_callers s' = (kt_callers (set_caller i c s))[i := returned r]
        \<and> kt_fetching s' = None \<and> keys_of s' = w_keys w'"
      by (rule refresh_sim [OF _ _ _ _ v(1)]) (simp_all add: i free True same [unfolded True] v(2))
    then obtain s' where s': "key_run (jwk_lookup J) ttl (set_caller i c s) 4 s'"
        "kt_callers s' = (kt_callers s)[i := returned r]" "kt_fetching s' = None" "keys_of s' = w_keys w'"
      by auto
    from run_prepend [OF step s'(1)] have "key_run (jwk_lookup J) ttl s 5 s'" by simp
    with s' show ?thesis by blast
  next
    case False
    then obtain cur where cur: "kt_set s = Some cur" "c = Done (Inr (Some cur))"
        "jwk_lookup J cur kid" "\<not> time_sub t (kt_fetched_at s) > ttl"
      by (auto simp: c_def check_keys_def split: option.splits if_splits)
    then have "r = Inr cur" "w_keys w' = w_keys w"
      using go sel by (auto simp: remote_lookup_def now_def t_def)
    then have "kt_callers (set_caller i c s) = (kt_callers s)[i := returned r]"
      "keys_of (set_caller i c s) = w_keys w'"
      using cur same by (simp_all add: returned_def)
    with run_one [OF step] free show ?thesis by fastforce
  qed
qed

section \<open>A run of three callers\<close>

text \<open>Two callers on one fetch, and the end of a run in which the third starts another.\<close>

definition joined_keys :: "string \<Rightarrow> 's key_state" where
  "joined_keys c = \<lparr>kt_set = None, kt_fetched_at = zero_time, kt_fetching = Some 0, kt_last_err = None,
     kt_closed = [], kt_next = 1, kt_callers = [Leading 0, Waiting 0, Start c], kt_outcomes = []\<rparr>"

definition split_keys :: "string \<Rightarrow> 's \<Rightarrow> instant \<Rightarrow> 's key_state" where
  "split_keys e ks t = \<lparr>kt_set = Some ks, kt_fetched_at = t, kt_fetching = None, kt_last_err = None,
     kt_closed = [1, 0], kt_next = 2,
     kt_callers = [Done (Inl e), Done (Inr (Some ks)), Done (Inr (Some ks))], kt_outcomes = [Inl e, Inr ks]\<rparr>"

lemmas step_simps = set_caller_def check_keys_def enter_refresh_def store_outcome_def close_channel_def mirror_def

lemma joined_run: "key_run has ttl (init_keys [a, b, c]) 4 (joined_keys c)"
proof -
  let ?k = "\<lambda>f n cs. \<lparr>kt_set = None, kt_fetched_at = zero_time, kt_fetching = f, kt_last_err = None,
     kt_closed = [], kt_next = n, kt_callers = cs, kt_outcomes = []\<rparr>"
  have "key_step has ttl (init_keys [a, b, c]) 0 (?k None 0 [Refresh, Start b, Start c])"
    using key_step.check [of 0 "init_keys [a, b, c]" a] by (simp add: step_simps init_keys_def)
  then have "key_run has ttl (init_keys [a, b, c]) 1 (?k None 0 [Refresh, Start b, Start c])" by (rule run_one)
  moreover have "key_step has ttl (?k None 0 [Refresh, Start b, Start c]) 0 (?k (Some 0) 1 [Leading 0, Start b, Start c])"
    using key_step.enter [of 0 "?k None 0 [Refresh, Start b, Start c]"] by (simp add: step_simps)
  ultimately have "key_run has ttl (init_keys [a, b, c]) 2 (?k (Some 0) 1 [Leading 0, Start b, Start c])"
    by (rule run_snoc) simp
  moreover have "key_step has ttl (?k (Some 0) 1 [Leading 0, Start b, Start c]) 1 (?k (Some 0) 1 [Leading 0, Refresh, Start c])"
    using key_step.check [of 1 "?k (Some 0) 1 [Leading 0, Start b, Start c]" b] by (simp add: step_simps)
  ultimately have "key_run has ttl (init_keys [a, b, c]) 3 (?k (Some 0) 1 [Leading 0, Refresh, Start c])"
    by (rule run_snoc) simp
  moreover have "key_step has ttl (?k (Some 0) 1 [Leading 0, Refresh, Start c]) 1 (joined_keys c)"
    using key_step.enter [of 1 "?k (Some 0) 1 [Leading 0, Refresh, Start c]"]
    by (simp add: step_simps joined_keys_def)
  ultimately show ?thesis by (rule run_snoc) simp
qed

lemma split_run: "key_run has ttl (joined_keys c) 10 (split_keys e ks t)"
proof -
  let ?r = "key_run has ttl (joined_keys c)"
  let ?k = "\<lambda>g u f l d n cs rs. \<lparr>kt_set = g, kt_fetched_at = u, kt_fetching = f, kt_last_err = l,
     kt_closed = d, kt_next = n, kt_callers = cs, kt_outcomes = rs\<rparr>"
  let ?e = "Done (Inl e)" and ?g = "Done (Inr (Some ks))"
  let ?k1 = "?k None zero_time (Some 0) None [] 1 [Landed 0 (Inl e), Waiting 0, Start c] []"
  let ?k2 = "?k None zero_time None (Some e) [] 1 [Closing 0 (Inl e), Waiting 0, Start c] [Inl e]"
  let ?k3 = "?k None zero_time None (Some e) [0] 1 [?e, Waiting 0, Start c] [Inl e]"
  let ?k4 = "?k None zero_time None (Some e) [0] 1 [?e, Woken, Start c] [Inl e]"
  let ?k5 = "?k None zero_time None (Some e) [0] 1 [?e, Woken, Refresh] [Inl e]"
  let ?k6 = "?k None zero_time (Some 1) (Some e) [0] 2 [?e, Woken, Leading 1] [Inl e]"
  let ?k7 = "?k None zero_time (Some 1) (Some e) [0] 2 [?e, Woken, Landed 1 (Inr ks)] [Inl e]"
  let ?k8 = "?k (Some ks) t None None [0] 2 [?e, Woken, Closing 1 (Inr ks)] [Inl e, Inr ks]"
  let ?k9 = "?k (Some ks) t None None [0] 2 [?e, ?g, Closing 1 (Inr ks)] [Inl e, Inr ks]"
  have "key_step has ttl (joined_keys c) 0 ?k1"
    using key_step.fetched [of 0 "joined_keys c" 0 has ttl "Inl e"] by (simp add: step_simps joined_keys_def)
  then have "?r 1 ?k1" by (rule run_one)
  moreover have "key_step has ttl ?k1 0 ?k2"
    using key_step.store [of 0 ?k1 0 "Inl e" has ttl zero_time] by (simp add: step_simps)
  ultimately have "?r 2 ?k2" by (rule run_snoc) simp
  moreover have "key_step has ttl ?k2 0 ?k3" using key_step.close [of 0 ?k2 0 "Inl e" has ttl] by (simp add: step_simps)
  ultimately have "?r 3 ?k3" by (rule run_snoc) simp
  moreover have "key_step has ttl ?k3 1 ?k4" using key_step.wake [of 1 ?k3 0 has ttl] by (simp add: step_simps)
  ultimately have "?r 4 ?k4" by (rule run_snoc) simp
  moreover have "key_step has ttl ?k4 2 ?k5" using key_step.check [of 2 ?k4 c has ttl] by (simp add: step_simps)
  ultimately have "?r 5 ?k5" by (rule run_snoc) simp
  moreover have "key_step has ttl ?k5 2 ?k6"
    using key_step.enter [of 2 ?k5 has ttl] by (simp add: step_simps numeral_2_eq_2)
  ultimately have "?r 6 ?k6" by (rule run_snoc) simp
  moreover have "key_step has ttl ?k6 2 ?k7"
    using key_step.fetched [of 2 ?k6 1 has ttl "Inr ks"] by (simp add: step_simps)
  ultimately have "?r 7 ?k7" by (rule run_snoc) simp
  moreover have "key_step has ttl ?k7 2 ?k8"
    using key_step.store [of 2 ?k7 1 "Inr ks" has ttl t] by (simp add: step_simps)
  ultimately have "?r 8 ?k8" by (rule run_snoc) simp
  moreover have "key_step has ttl ?k8 1 ?k9" using key_step.mirror [of 1 ?k8 has ttl] by (simp add: step_simps)
  ultimately have "?r 9 ?k9" by (rule run_snoc) simp
  moreover have "key_step has ttl ?k9 2 (split_keys e ks t)"
    using key_step.close [of 2 ?k9 1 "Inr ks" has ttl] by (simp add: step_simps split_keys_def)
  ultimately show ?thesis by (rule run_snoc) simp
qed

lemma run_trans: "key_run has ttl s1 m s2 \<Longrightarrow> key_run has ttl s0 n s1 \<Longrightarrow> key_run has ttl s0 (n + m) s2"
  by (induction rule: key_run.induct) (auto intro: key_run.run_step)

section \<open>Properties\<close>

text \<open>
  C27. Refreshes are single-flighted: in every state that callers of a new key source reach, in any
  interleaving, one caller is fetching when the source records a fetch in flight, and none otherwise.
\<close>

theorem single_flight:
  assumes "key_run has ttl (init_keys kids) n s"
  shows "length (filter is_fetching (kt_callers s)) = (if kt_fetching s = None then 0 else 1)"
  using fetching_count key_run_invs [OF assms] by blast

lemma single_flight_witness:
  "length (filter is_fetching (kt_callers (joined_keys ''c'' :: string list key_state))) = 1"
  using single_flight [OF joined_run [of "\<lambda>ks kid. kid \<in> set ks" 0 "''a''" "''b''" "''c''"]]
  by (simp add: joined_keys_def)

text \<open>
  C28. Every caller is answered: a run of any interleaving takes at most five steps for each caller,
  and in every state it reaches some caller can move or all have returned, so that no joiner waits
  for ever on the channel of a fetch that is over.
\<close>

theorem every_caller_answered:
  assumes "key_run has ttl (init_keys kids) n s"
  shows "n \<le> 5 * length kids
    \<and> ((\<exists>i s'. key_step has ttl s i s') \<or> (\<forall>c \<in> set (kt_callers s). \<exists>a. c = Done a))"
proof -
  have "n \<le> 5 * length kids" using key_run_work [OF assms] work_left_init by (metis add_leE)
  moreover have "wake_inv s" using key_run_invs [OF assms] by simp
  then have "(\<exists>i s'. key_step has ttl s i s') \<or> (\<forall>c \<in> set (kt_callers s). \<exists>a. c = Done a)"
    using stuck_done by (metis in_set_conv_nth)
  ultimately show ?thesis by blast
qed

lemma every_caller_answered_witness:
  "(4 :: nat) \<le> 5 * length [''a'', ''b'', ''c'']
    \<and> (\<exists>i s'. key_step (\<lambda>ks kid. kid \<in> set ks) 0 (joined_keys ''c'' :: string list key_state) i s')"
proof -
  let ?s = "joined_keys ''c'' :: string list key_state"
  have "\<not> (\<forall>c \<in> set (kt_callers ?s). \<exists>a. c = Done a)" by (simp add: joined_keys_def)
  moreover note every_caller_answered [OF joined_run [of "\<lambda>ks kid. kid \<in> set ks" 0 "''a''" "''b''" "''c''"]]
  ultimately have "\<exists>i s'. key_step (\<lambda>ks kid. kid \<in> set ks) 0 ?s i s'" by (elim conjE disjE) simp_all
  then show ?thesis by simp
qed

text \<open>
  C29. No caller is told what no fetch gave: a caller returns a set that some fetch produced, or the
  error of a fetch that failed, plain or with the prefix of a joiner; it never returns a nil set
  without an error, although the joiners read the fields of the source after the fetch is over.
\<close>

theorem answers_justified:
  assumes "key_run has ttl (init_keys kids) n s" and "Done a \<in> set (kt_callers s)"
  shows "(\<exists>ks. a = Inr (Some ks) \<and> Inr ks \<in> set (kt_outcomes s))
    \<or> (\<exists>e. Inl e \<in> set (kt_outcomes s) \<and> (a = Inl e \<or> a = Inl (''aoa: jwks refresh failed: '' @ e)))"
proof -
  have "outcome_inv s" using key_run_invs [OF assms(1)] by simp
  then have "caller_ok (kt_outcomes s) (Done a)" using assms(2) unfolding outcome_inv_def by blast
  then show ?thesis by (simp add: answer_from_def)
qed

lemma answers_justified_witness:
  "Inl ''down'' \<in> set (kt_outcomes (split_keys ''down'' [''c''] zero_time :: string list key_state))"
proof -
  have "key_run (\<lambda>ks kid. kid \<in> set ks) 0 (init_keys [''a'', ''b'', ''c'']) (4 + 10)
      (split_keys ''down'' [''c''] zero_time :: string list key_state)"
    by (rule run_trans [OF split_run joined_run])
  moreover have "Done (Inl ''down'') \<in> set (kt_callers (split_keys ''down'' [''c''] zero_time :: string list key_state))"
    by (simp add: split_keys_def)
  ultimately show ?thesis by (rule answers_justified [THEN disjE]) auto
qed

text \<open>
  C30. A joiner need not see the outcome of the fetch it joined: from a state in which one caller
  fetches and another waits for that fetch, a run leads to the end in which the fetch failed, its
  caller returned the error, and the joiner returned the set of a later fetch without an error. The
  comment in \<open>refresh\<close> promises that every joiner of a failed fetch fails too.
\<close>

theorem split_outcomes:
  "\<exists>s. key_run has ttl (init_keys [a, b, c]) 4 (joined_keys c) \<and> key_run has ttl (joined_keys c) 10 s
    \<and> kt_callers s = [Done (Inl e), Done (Inr (Some ks)), Done (Inr (Some ks))]
    \<and> kt_outcomes s = [Inl e, Inr ks]"
proof -
  have "kt_callers (split_keys e ks zero_time) = [Done (Inl e), Done (Inr (Some ks)), Done (Inr (Some ks))]"
    "kt_outcomes (split_keys e ks zero_time) = [Inl e, Inr ks]"
    by (simp_all add: split_keys_def)
  then show ?thesis
    by (intro exI [of _ "split_keys e ks zero_time"] conjI joined_run split_run)
qed

end
