(* ===== verification/ExchangeStub.thy ===== *)
theory ExchangeStub
  imports ExchangeDemo
begin

text \<open>
  The in-process token endpoint of the exchange-client tests (\<open>ExchangeAS\<close> of
  internal/jwktest/exchange.go): it records the last request and answers with a configured success,
  a configured error, or once with a demand for a DPoP nonce.
\<close>

section \<open>State and operations\<close>

record stub_response =
  sr_access_token :: string
  sr_issued_token_type :: string
  sr_token_type :: string
  sr_expires_in :: int
  sr_scope :: string
  sr_refresh_token :: string

record exchange_as =
  sa_ok :: stub_response
  sa_err_status :: int
  sa_err_body :: bytes
  sa_nonce_once :: bool
  sa_nonce_served :: bool
  sa_last_form :: form_values
  sa_last_dpop :: string
  sa_last_auth :: string

definition new_exchange_as :: exchange_as where
  "new_exchange_as = \<lparr>sa_ok = \<lparr>sr_access_token = [], sr_issued_token_type = [], sr_token_type = [],
       sr_expires_in = 0, sr_scope = [], sr_refresh_token = []\<rparr>,
     sa_err_status = 0, sa_err_body = [], sa_nonce_once = False, sa_nonce_served = False,
     sa_last_form = [], sa_last_dpop = [], sa_last_auth = []\<rparr>"

definition as_respond :: "stub_response \<Rightarrow> exchange_as \<Rightarrow> exchange_as" where
  "as_respond r s = s\<lparr>sa_ok := r\<rparr>"

definition as_respond_error :: "int \<Rightarrow> bytes \<Rightarrow> exchange_as \<Rightarrow> exchange_as" where
  "as_respond_error st b s = s\<lparr>sa_err_status := st, sa_err_body := b\<rparr>"

definition as_require_nonce_once :: "exchange_as \<Rightarrow> exchange_as" where
  "as_require_nonce_once s = s\<lparr>sa_nonce_once := True\<rparr>"

definition as_token_endpoint :: "string \<Rightarrow> string" where
  "as_token_endpoint server_url = server_url @ ''/token''"

text \<open>The struct as \<open>encoding/json\<close> writes it: its fields in their order, the empty ones left out.\<close>

definition stub_members :: "stub_response \<Rightarrow> (string \<times> json) list" where
  "stub_members r =
     [(''access_token'', JStr (sr_access_token r)), (''issued_token_type'', JStr (sr_issued_token_type r)),
      (''token_type'', JStr (sr_token_type r))]
     @ (if sr_expires_in r \<noteq> 0 then [(''expires_in'', JNum (format_int (sr_expires_in r)))] else [])
     @ (if sr_scope r \<noteq> [] then [(''scope'', JStr (sr_scope r))] else [])
     @ (if sr_refresh_token r \<noteq> [] then [(''refresh_token'', JStr (sr_refresh_token r))] else [])"

text \<open>\<open>handle\<close>: what it records under the mutex, and then what it writes.\<close>

definition as_record :: "form_request \<Rightarrow> exchange_as \<Rightarrow> exchange_as" where
  "as_record r s =
     s\<lparr>sa_last_form := snd (parse_form r), sa_last_dpop := header_get (req_header r) ''DPoP'',
       sa_last_auth := header_get (req_header r) ''Authorization'',
       sa_nonce_served := (sa_nonce_served s \<or> sa_nonce_once s)\<rparr>"

definition nonce_body :: bytes where
  "nonce_body = ''{'' @ [CHR 0x22] @ ''error'' @ [CHR 0x22] @ '':'' @ [CHR 0x22] @ ''use_dpop_nonce'' @ [CHR 0x22] @ ''}''"

definition as_answer :: "exchange_as \<Rightarrow> response \<Rightarrow> response option" where
  "as_answer s w =
     (if sa_nonce_once s \<and> \<not> sa_nonce_served s then
        Some (write_body nonce_body (write_header 400
          (set_header ''Content-Type'' ''application/json'' (set_header ''DPoP-Nonce'' ''srv-nonce-1'' w))))
      else if sa_err_status s \<noteq> 0 then
        map_option (write_body (sa_err_body s))
          (write_status (sa_err_status s) (set_header ''Content-Type'' ''application/json'' w))
      else
        Some (write_body (json_line (JObj (stub_members (sa_ok s))))
          (set_header ''Content-Type'' ''application/json'' w)))"

definition as_handle :: "form_request \<Rightarrow> exchange_as \<Rightarrow> response option \<times> exchange_as" where
  "as_handle r s = (as_answer s new_response, as_record r s)"

text \<open>The endpoint as the client's HTTP client sees it. A handler that panics ends the connection.\<close>

definition as_client :: "exchange_as http_client" where
  "as_client req s =
     (case as_handle (received req) s of
        (None, s') \<Rightarrow> (Inl ''EOF'', s')
      | (Some rsp, s') \<Rightarrow> (Inr (transmitted rsp), s'))"

section \<open>What the client reads\<close>

lemma nonce_body_read:
  "xe_code (parse_exchange_error 400 nonce_body) = ''use_dpop_nonce''" "length nonce_body \<le> 100"
  by code_simp+

definition utf8_stub :: "stub_response \<Rightarrow> bool" where
  "utf8_stub r \<longleftrightarrow> utf8 (sr_access_token r) \<and> utf8 (sr_issued_token_type r) \<and> utf8 (sr_token_type r)
     \<and> utf8 (sr_scope r) \<and> utf8 (sr_refresh_token r) \<and> - (2 ^ 63) \<le> sr_expires_in r \<and> sr_expires_in r < 2 ^ 63"

lemma stub_members_ok:
  assumes "utf8_stub r"
  shows "json_ok (JObj (stub_members r))" and "json_depth (JObj (stub_members r)) \<le> max_nesting"
proof -
  have "utf8 ''access_token''" "utf8 ''expires_in''" "utf8 ''issued_token_type''" "utf8 ''refresh_token''"
    "utf8 ''scope''" "utf8 ''token_type''"
    by code_simp+
  then show "json_ok (JObj (stub_members r))"
    using assms by (simp add: stub_members_def utf8_stub_def json_number_format_int)
  show "json_depth (JObj (stub_members r)) \<le> max_nesting"
    by (simp add: stub_members_def max_nesting_def)
qed

definition stub_result :: "stub_response \<Rightarrow> exchange_result" where
  "stub_result r =
     \<lparr>er_access_token = sr_access_token r, er_issued_token_type = sr_issued_token_type r,
      er_token_type = sr_token_type r, er_expires_in = wrap64 (sr_expires_in r * nanos),
      er_scope = (if sr_scope r \<noteq> [] then str_fields (sr_scope r) else []),
      er_refresh_token = sr_refresh_token r, er_raw = json_line (JObj (stub_members r))\<rparr>"

lemma parse_stub:
  assumes "utf8_stub r" and "sr_access_token r \<noteq> []"
  shows "parse_exchange_result (json_line (JObj (stub_members r))) = Inr (stub_result r)"
proof -
  have "parse_int64 (format_int (sr_expires_in r)) = Some (sr_expires_in r)"
    using assms(1) by (intro parse_int64_format_int) (simp_all add: utf8_stub_def)
  then have "dec_fields dec_result_body (stub_members r) zero_result_body = Some
    \<lparr>rb_access_token = sr_access_token r, rb_issued_token_type = sr_issued_token_type r,
     rb_token_type = sr_token_type r, rb_expires_in = sr_expires_in r, rb_scope = sr_scope r,
     rb_refresh_token = sr_refresh_token r\<rparr>"
    by (simp add: stub_members_def dec_result_body_def issued_keys zero_result_body_def)
  then show ?thesis
    using json_parse_line [OF stub_members_ok [OF assms(1)]] assms(2)
    by (simp add: parse_exchange_result_def unmarshal_def stub_result_def)
qed

lemma as_answer_nonce:
  assumes "sa_nonce_once s" and "\<not> sa_nonce_served s"
  shows "\<exists>rsp e. as_answer s new_response = Some rsp
    \<and> read_token_response (transmitted rsp) = (Inl (ExchangeFailure e), ''srv-nonce-1'')
    \<and> xe_code e = ''use_dpop_nonce''"
proof -
  have "length nonce_body \<le> body_limit" using nonce_body_read(2) by (simp add: body_limit_def)
  moreover have "canonical_key ''DPoP-Nonce'' \<noteq> canonical_key ''Content-Type''" by code_simp
  ultimately show ?thesis
    using assms nonce_body_read(1)
    by (simp add: as_answer_def transmitted_def new_response_def write_header_def write_body_after set_header_def
        read_token_response_def read_limited_def header_get_set Let_def)
qed

lemma as_answer_ok:
  assumes "\<not> (sa_nonce_once s \<and> \<not> sa_nonce_served s)" and "sa_err_status s = 0"
    and "utf8_stub (sa_ok s)" and "sr_access_token (sa_ok s) \<noteq> []"
    and "length (json_line (JObj (stub_members (sa_ok s)))) \<le> body_limit"
  shows "\<exists>rsp. as_answer s new_response = Some rsp
    \<and> read_token_response (transmitted rsp) = (Inr (stub_result (sa_ok s)), [])"
  using assms parse_stub [OF assms(3,4)]
  by (auto simp: as_answer_def transmitted_def new_response_def write_body_first set_header_def
      read_token_response_def read_limited_def)

section \<open>A client with a DPoP key against the endpoint\<close>

lemma as_client_sent:
  assumes "as_answer s new_response = Some rsp"
  shows "as_client req s = (Inr (transmitted rsp), as_record (received req) s)"
  using assms by (simp add: as_client_def as_handle_def)

lemma received_header [simp]: "req_header (received req) = hr_header req"
  by (simp add: received_def)

lemma exchange_do_stub:
  assumes "tx_client x = as_client" and "token_request J L x ep f n w = (Inr req, w1)"
    and "as_answer (cw_peer w) new_response = Some rsp"
  shows "exchange_do J L x ep f n w
    = (read_token_response (transmitted rsp), w1\<lparr>cw_peer := as_record (received req) (cw_peer w)\<rparr>)"
  using assms token_request_peer [OF assms(2)] as_client_sent [OF assms(3), of req]
  by (simp add: exchange_do_def client_send_def)

lemma as_record_sel [simp]:
  "sa_ok (as_record r s) = sa_ok s" "sa_err_status (as_record r s) = sa_err_status s"
  "sa_nonce_once (as_record r s) = sa_nonce_once s"
  "sa_nonce_served (as_record r s) = (sa_nonce_served s \<or> sa_nonce_once s)"
  "sa_last_dpop (as_record r s) = header_get (req_header r) ''DPoP''"
  by (simp_all add: as_record_def)

text \<open>
  C32. A nonce demand is met: against a token endpoint that asks once for a DPoP nonce, a client with
  a DPoP key whose requests can be built obtains the token after exactly two requests; the second
  one, the last the endpoint records, carries a proof minted for the nonce it was given.
\<close>

theorem nonce_demand_met:
  assumes "tx_client x = as_client" and "tx_dpop x = Some k"
    and "\<forall>n w. \<exists>req w'. token_request J L x ep f n w = (Inr req, w' :: exchange_as client_world)"
    and "sa_nonce_once (cw_peer w)" and "\<not> sa_nonce_served (cw_peer w)" and "sa_err_status (cw_peer w) = 0"
    and "utf8_stub (sa_ok (cw_peer w))" and "sr_access_token (sa_ok (cw_peer w)) \<noteq> []"
    and "length (json_line (JObj (stub_members (sa_ok (cw_peer w))))) \<le> body_limit"
  shows "\<exists>w' r1 r2 raw w1 w2.
    exchange_with_nonce_retry J L x ep f w = (Inr (stub_result (sa_ok (cw_peer w))), w')
    \<and> cw_peer w' = as_record r2 (as_record r1 (cw_peer w))
    \<and> proof_for L k ''POST'' (htu_of ep) ''srv-nonce-1'' (w1 :: exchange_as client_world) = (Inr raw, w2)
    \<and> sa_last_dpop (cw_peer w') = raw"
proof -
  obtain req1 u1 where t1: "token_request J L x ep f [] w = (Inr req1, u1)" using assms(3) by blast
  obtain rsp e where a1: "as_answer (cw_peer w) new_response = Some rsp"
    "read_token_response (transmitted rsp) = (Inl (ExchangeFailure e), ''srv-nonce-1'')"
    using as_answer_nonce [OF assms(4,5)] by blast
  define s1 where "s1 = as_record (received req1) (cw_peer w)"
  define v where "v = u1\<lparr>cw_peer := s1\<rparr>"
  have d1: "exchange_do J L x ep f [] w = ((Inl (ExchangeFailure e), ''srv-nonce-1''), v)"
    using exchange_do_stub [OF assms(1) t1 a1(1)] a1(2) by (simp add: v_def s1_def)
  obtain req2 u2 where t2: "token_request J L x ep f ''srv-nonce-1'' v = (Inr req2, u2)" using assms(3) by blast
  have pv: "cw_peer v = s1" by (simp add: v_def)
  have ok: "sa_ok s1 = sa_ok (cw_peer w)" by (simp add: s1_def)
  have "sa_nonce_served s1" "sa_err_status s1 = 0" using assms(4,6) by (simp_all add: s1_def)
  then obtain rsp2 where a2: "as_answer s1 new_response = Some rsp2"
    "read_token_response (transmitted rsp2) = (Inr (stub_result (sa_ok (cw_peer w))), [])"
    using as_answer_ok [of s1] assms(7-9) by (auto simp: ok)
  have d2: "exchange_do J L x ep f ''srv-nonce-1'' v
      = ((Inr (stub_result (sa_ok (cw_peer w))), []), u2\<lparr>cw_peer := as_record (received req2) s1\<rparr>)"
    using exchange_do_stub [OF assms(1) t2, of rsp2] a2 by (simp add: pv)
  obtain raw w1 where p: "proof_for L k ''POST'' (htu_of ep) ''srv-nonce-1'' w1 = (Inr raw, u2)"
    "header_values (hr_header req2) ''DPoP'' = [raw]"
    using token_request_proof [OF t2 assms(2)] by blast
  have "exchange_with_nonce_retry J L x ep f w
      = (Inr (stub_result (sa_ok (cw_peer w))), u2\<lparr>cw_peer := as_record (received req2) s1\<rparr>)"
    by (simp add: exchange_with_nonce_retry_def d1 d2 assms(2))
  moreover have "sa_last_dpop (as_record (received req2) s1) = raw" using p(2) by (simp add: header_get_def)
  ultimately show ?thesis
    using p(1) by (intro exI conjI) (assumption | simp add: s1_def)+
qed

lemma xd_token_request_any:
  "\<exists>req w'. token_request xd_jose xd_lib (xd_exchanger c) ''https://h/t'' (build_exchange_form xd_request) n w
      = (Inr req, w')"
proof -
  have u: "url_parse ''https://h/t'' = Some (empty_url\<lparr>url_scheme := ''https'', url_host := ''h'', url_path := ''/t''\<rparr>)"
    by code_simp
  have j: "prefix ''{'' (json_print (JObj ms))" for ms by simp
  show ?thesis
    by (simp add: token_request_def new_request_def u xd_exchanger_def apply_auth_unfold proof_for_def
        random_id_def client_now_def xd_lib_def xd_key_def j empty_url_def Let_def
        del: json_print.simps)
qed

lemma nonce_demand_met_witness:
  "fst (exchange_with_nonce_retry xd_jose xd_lib (xd_exchanger as_client) ''https://h/t''
      (build_exchange_form xd_request)
      (xd_client (as_require_nonce_once (as_respond ((sa_ok new_exchange_as)\<lparr>sr_access_token := ''at''\<rparr>)
        new_exchange_as))))
    = Inr (stub_result ((sa_ok new_exchange_as)\<lparr>sr_access_token := ''at''\<rparr>))"
proof -
  let ?r = "(sa_ok new_exchange_as)\<lparr>sr_access_token := ''at''\<rparr>"
  let ?s = "as_require_nonce_once (as_respond ?r new_exchange_as)"
  have x: "tx_client (xd_exchanger as_client) = as_client" "tx_dpop (xd_exchanger as_client) = Some xd_key"
    by (simp_all add: xd_exchanger_def)
  have s: "cw_peer (xd_client ?s) = ?s" "sa_ok ?s = ?r" "sa_nonce_once ?s" "\<not> sa_nonce_served ?s" "sa_err_status ?s = 0"
    by (simp_all add: xd_client_def as_require_nonce_once_def as_respond_def new_exchange_as_def)
  have r: "utf8_stub ?r" "sr_access_token ?r \<noteq> []" "length (json_line (JObj (stub_members ?r))) \<le> 100"
    by code_simp+
  then have "length (json_line (JObj (stub_members ?r))) \<le> body_limit" by (simp add: body_limit_def)
  moreover have "\<forall>n w. \<exists>req w'. token_request xd_jose xd_lib (xd_exchanger as_client) ''https://h/t''
      (build_exchange_form xd_request) n w = (Inr req, w' :: exchange_as client_world)"
    using xd_token_request_any by blast
  ultimately have "\<exists>w'. exchange_with_nonce_retry xd_jose xd_lib (xd_exchanger as_client) ''https://h/t''
      (build_exchange_form xd_request) (xd_client ?s) = (Inr (stub_result ?r), w')"
    using nonce_demand_met [OF x, of xd_jose xd_lib "''https://h/t''" "build_exchange_form xd_request" "xd_client ?s"]
      r s by auto
  then show ?thesis by auto
qed

end
