(* ===== verification/Assurance.thy ===== *)
theory Assurance
  imports Demo
begin

text \<open>
  What the middleware guarantees beyond the admission of good requests: its configurations are well
  formed, tokens without an asymmetric signature and outages of its parts are denials, challenges
  cannot be broken out of, a key lookup asks the server only when it must. And two limits of it: the
  target of a proof is compared after a second decoding, and only compact tokens have a binding.
\<close>

section \<open>Configurations\<close>

lemma add_algs_ok: "(\<exists>algs. parse_algs J names = Inr algs) \<longleftrightarrow>
    (\<forall>n \<in> set (if names = [] then [''RS256'', ''ES256'', ''EdDSA''] else names). asymmetric J n)"
  unfolding parse_algs_def add_algs_Inr by blast

lemma bind_res_ok: "(\<exists>y. bind_res x f = Inr y) \<longleftrightarrow> (\<exists>a. x = Inr a \<and> (\<exists>y. f a = Inr y))"
  by (cases x) auto

lemma validate_bearer_opts_ok:
  "validate_bearer_opts opts = Inr () \<longleftrightarrow>
     (bo_keys_jwks opts \<noteq> None \<or> bo_jwks_uri opts \<noteq> []) \<and> bo_issuer opts \<noteq> [] \<and> 0 \<le> bo_clock_skew opts
     \<and> 0 \<le> bo_dpop_proof_max_age opts \<and> (bo_resource opts \<noteq> [] \<or> bo_audience opts \<noteq> [])
     \<and> bo_token_lookup opts = 0"
  by (auto simp: validate_bearer_opts_def)

lemma resolve_key_source_ok:
  "(\<exists>ks. resolve_key_source J keys uri ttl = Inr ks) \<longleftrightarrow>
     (\<forall>raw. keys = Some raw \<longrightarrow> (\<exists>ks. jwk_parse J raw = Inr ks))"
  by (cases keys) (auto simp: resolve_key_source_def split: sum.split)

lemma build_dpop_runtime_ok:
  "(\<exists>d. build_dpop_runtime J opts = Inr d) \<longleftrightarrow> bo_dpop opts = DPoPOff
     \<or> (\<forall>n \<in> set (if bo_dpop_signing_algs opts = [] then [''ES256'', ''RS256'', ''EdDSA'']
          else bo_dpop_signing_algs opts). asymmetric J n)"
  by (auto simp: build_dpop_runtime_def Let_def bind_res_ok add_algs_ok)

lemma configure_ok:
  fixes opts :: "('s, 'e) bearer_opts"
  shows "(\<exists>mw. configure J opts = Inr mw) \<longleftrightarrow> validate_bearer_opts opts = Inr ()
     \<and> (\<exists>a. parse_algs J (bo_allowed_algorithms opts) = Inr a)
     \<and> (\<exists>k :: ('s, 'e) key_lookup. resolve_key_source J (bo_keys_jwks opts) (bo_jwks_uri opts) (bo_jwks_cache_ttl opts) = Inr k)
     \<and> (\<exists>d. build_dpop_runtime J opts = Inr d)"
proof -
  obtain realm meta where rm: "derive_challenge_params opts = (realm, meta)" by fastforce
  have unit: "(\<exists>u. validate_bearer_opts opts = Inr u) \<longleftrightarrow> validate_bearer_opts opts = Inr ()" by simp
  show ?thesis
    unfolding configure_def rm Let_def prod.case bind_res_ok unit [symmetric] by blast
qed

text \<open>
  C33. \<open>RequireBearer\<close> accepts exactly the options that name a source of keys that parses, an
  issuer, an audience or a resource, no negative duration, the only token lookup there is, and only
  asymmetric algorithms, for the DPoP proofs too unless DPoP is off.
\<close>

theorem configures_exactly:
  "(\<exists>mw. configure J opts = Inr mw) \<longleftrightarrow>
     (bo_keys_jwks opts \<noteq> None \<or> bo_jwks_uri opts \<noteq> [])
     \<and> (\<forall>raw. bo_keys_jwks opts = Some raw \<longrightarrow> (\<exists>ks. jwk_parse J raw = Inr ks))
     \<and> bo_issuer opts \<noteq> [] \<and> (bo_resource opts \<noteq> [] \<or> bo_audience opts \<noteq> [])
     \<and> 0 \<le> bo_clock_skew opts \<and> 0 \<le> bo_dpop_proof_max_age opts \<and> bo_token_lookup opts = 0
     \<and> (\<forall>n \<in> set (if bo_allowed_algorithms opts = [] then [''RS256'', ''ES256'', ''EdDSA'']
          else bo_allowed_algorithms opts). asymmetric J n)
     \<and> (bo_dpop opts = DPoPOff
        \<or> (\<forall>n \<in> set (if bo_dpop_signing_algs opts = [] then [''ES256'', ''RS256'', ''EdDSA'']
             else bo_dpop_signing_algs opts). asymmetric J n))"
  unfolding configure_ok validate_bearer_opts_ok add_algs_ok resolve_key_source_ok build_dpop_runtime_ok
  by argo

lemma configures_exactly_witness:
  "\<not> (\<exists>mw. configure demo_jose ((demo_opts DPoPRequired)\<lparr>bo_allowed_algorithms := [''RS256'', ''HS256'']\<rparr>) = Inr mw)"
  unfolding configures_exactly by (simp add: demo_opts_def asymmetric_def)

text \<open>
  C34. A configured middleware is well formed: it has an issuer and an audience, a positive skew, and
  allows some algorithms, asymmetric ones; with DPoP on, so it does for proofs, whose algorithms are
  the ones it advertises, and the window of a proof has a positive length; with DPoP off it
  advertises none.
\<close>

theorem configured_wellformed:
  assumes "configure J opts = Inr mw"
  shows "mw_issuer mw \<noteq> [] \<and> mw_audiences mw \<noteq> [] \<and> 0 < mw_skew mw
    \<and> mw_algs mw \<noteq> [] \<and> (\<forall>a \<in> set (mw_algs mw). asymmetric J a)
    \<and> set (mw_dpop_algs mw) = set (mw_dpop_algs_list mw) \<and> (\<forall>a \<in> set (mw_dpop_algs mw). asymmetric J a)
    \<and> (mw_dpop_mode mw = DPoPOff \<longleftrightarrow> mw_dpop_algs mw = [])
    \<and> (mw_dpop_mode mw \<noteq> DPoPOff \<longrightarrow> 0 < mw_proof_max_age mw)"
proof -
  obtain algs ks d realm meta where c: "validate_bearer_opts opts = Inr ()"
    "parse_algs J (bo_allowed_algorithms opts) = Inr algs" "build_dpop_runtime J opts = Inr d"
    "mw_issuer mw = bo_issuer opts" "mw_audiences mw = accepted_audiences opts"
    "mw_skew mw = (if bo_clock_skew opts = 0 then 60 * second else bo_clock_skew opts)"
    "mw_algs mw = algs" "mw_dpop_mode mw = bo_dpop opts" "mw_dpop_algs mw = dr_algs d"
    "mw_dpop_algs_list mw = dr_algs_list d" "mw_proof_max_age mw = dr_proof_max_age d"
    using configure_InrD [OF assms] by blast
  have v: "bo_issuer opts \<noteq> []" "0 \<le> bo_clock_skew opts" "0 \<le> bo_dpop_proof_max_age opts"
    "bo_resource opts \<noteq> [] \<or> bo_audience opts \<noteq> []"
    using c(1) by (simp_all add: validate_bearer_opts_ok)
  have pos: "0 < 60 * second" by (simp add: nanos_def)
  have "set algs \<noteq> {}" unfolding parse_algs_set(1) [OF c(2)] by simp
  then have a: "algs \<noteq> []" "\<forall>a \<in> set algs. asymmetric J a"
    using parse_algs_set(2) [OF c(2)] by simp_all
  have d: "set (dr_algs d) = set (dr_algs_list d) \<and> (\<forall>a \<in> set (dr_algs d). asymmetric J a)
    \<and> (bo_dpop opts = DPoPOff \<longleftrightarrow> dr_algs d = []) \<and> (bo_dpop opts \<noteq> DPoPOff \<longrightarrow> 0 < dr_proof_max_age d)"
  proof (cases "bo_dpop opts = DPoPOff")
    case True
    with c(3) show ?thesis by (auto simp: build_dpop_runtime_def)
  next
    case False
    define names where "names = (if bo_dpop_signing_algs opts = [] then [''ES256'', ''RS256'', ''EdDSA'']
      else bo_dpop_signing_algs opts)"
    have ne: "names \<noteq> []" by (simp add: names_def)
    from c(3) False obtain as where p: "parse_algs J names = Inr as" "dr_algs d = as" "dr_algs_list d = names"
      "dr_proof_max_age d = (if bo_dpop_proof_max_age opts = 0 then 60 * second else bo_dpop_proof_max_age opts)"
      by (auto simp: build_dpop_runtime_def Let_def bind_res_Inr names_def)
    from parse_algs_set [OF p(1)] ne have s: "set as = set names" "\<forall>a \<in> set as. asymmetric J a" by simp_all
    with ne have "as \<noteq> []" by auto
    with s p v(3) pos False show ?thesis by auto
  qed
  have "mw_skew mw > 0" using c(6) v(2) pos by auto
  moreover have "mw_audiences mw \<noteq> []" using c(5) v(4) by (auto simp: accepted_audiences_def)
  ultimately show ?thesis unfolding c(4,7-11) using v(1) a d by blast
qed

lemma configured_wellformed_witness:
  "mw_algs (demo_mw DPoPRequired) \<noteq> [] \<and> 0 < mw_proof_max_age (demo_mw DPoPRequired)"
proof -
  have "mw_dpop_mode (demo_mw DPoPRequired) \<noteq> DPoPOff" by (simp add: demo_mw_def)
  with configured_wellformed [OF demo_configure [of DPoPRequired]] show ?thesis by blast
qed

section \<open>Tokens without an asymmetric signature\<close>

text \<open>
  The unsecured token of the tests (\<open>NoneToken\<close> of internal/jwktest): a header, claims, and an empty
  signature.
\<close>

definition none_header :: bytes where
  "none_header = json_print (JObj [(''alg'', JStr ''none''), (''typ'', JStr ''JWT'')])"

definition none_token :: "bytes \<Rightarrow> string" where
  "none_token claims_json = b64_encode none_header @ ''.'' @ b64_encode claims_json @ ''.''"

lemma deny_world:
  "w_gets (snd (deny mw r ae ev c rsp w)) = w_gets w \<and> w_keys (snd (deny mw r ae ev c rsp w)) = w_keys w
    \<and> w_mem (snd (deny mw r ae ev c rsp w)) = w_mem w"
  by (cases c) (simp_all add: deny_def emit_def emit_event_def now_def Let_def)

lemma authenticate_bad_alg:
  assumes "extract_token r = Some (scheme, raw)" and "header_kid_alg J raw = Inr (kid, alg)"
    and "alg \<notin> set (mw_algs mw)"
  shows "\<exists>ae ev c. authenticate J mw r rsp w = (None, deny mw r ae ev c rsp w)"
proof (cases "scheme = ''DPoP'' \<and> mw_dpop_mode mw = DPoPOff")
  case True
  with assms show ?thesis by (auto simp: authenticate_def)
next
  case False
  with assms show ?thesis by (auto simp: authenticate_def verify_def)
qed

text \<open>
  C35. A token whose protected header names \<open>none\<close>, an HMAC or another symmetric or unknown
  algorithm is denied by every middleware that \<open>RequireBearer\<close> builds, before a key is looked up: no
  request to the JWKS server is made, and the key and replay caches stay as they were.
\<close>

theorem forbidden_alg_denied:
  assumes "require_bearer J opts w0 = (Inr mw, w1)" and "extract_token r = Some (scheme, raw)"
    and "header_kid_alg J raw = Inr (kid, alg)" and "\<not> asymmetric J alg"
  shows "\<exists>rsp' w'. guard J mw r rsp w = (None, rsp', w')
    \<and> w_gets w' = w_gets w \<and> w_keys w' = w_keys w \<and> w_mem w' = w_mem w"
proof -
  have cfg: "configure J opts = Inr mw"
    using assms(1) by (simp add: require_bearer_def split: sum.splits)
  obtain algs where "parse_algs J (bo_allowed_algorithms opts) = Inr algs" "mw_algs mw = algs"
    using configure_InrD [OF cfg] by blast
  then have "alg \<notin> set (mw_algs mw)" using parse_algs_set(2) assms(4) by blast
  from authenticate_bad_alg [OF assms(2,3) this] obtain ae ev c
    where a: "authenticate J mw r rsp w = (None, deny mw r ae ev c rsp w)" by blast
  obtain rsp' w' where d: "deny mw r ae ev c rsp w = (rsp', w')" by fastforce
  then have "guard J mw r rsp w = (None, rsp', w')" using a by (simp add: guard_def)
  moreover have "w_gets w' = w_gets w \<and> w_keys w' = w_keys w \<and> w_mem w' = w_mem w"
    using deny_world [of mw r ae ev c rsp w] by (simp add: d)
  ultimately show ?thesis by blast
qed

text \<open>A library that reads the unsecured token, and a resource server that uses it.\<close>

definition none_jose :: "(string, unit) jose" where
  "none_jose = demo_jose\<lparr>jws_parse := (\<lambda>raw.
     if raw = none_token ''{}''
     then Inr [\<lparr>hdr_kid = None, hdr_alg = Some ''none'', hdr_typ = Some ''JWT'', hdr_jwk = None\<rparr>]
     else jws_parse demo_jose raw)\<rparr>"

lemma none_configured: "\<exists>mw. configure none_jose (demo_opts DPoPOff) = Inr mw"
  unfolding configure_ok validate_bearer_opts_ok add_algs_ok resolve_key_source_ok build_dpop_runtime_ok
  by (simp add: demo_opts_def none_jose_def demo_jose_def asymmetric_def)

lemma none_extract: "extract_token (bearer_request (none_token ''{}'')) = Some (''Bearer'', none_token ''{}'')"
proof -
  have "trim_space (none_token ''{}'') = none_token ''{}''" by (rule trim_space_id; code_simp)
  moreover have "equal_fold ''Bearer'' ''Bearer''" by code_simp
  ultimately show ?thesis
    by (simp add: extract_token_def demo_headers numeral_2_eq_2) (simp add: none_token_def)
qed

lemma forbidden_alg_denied_witness:
  "\<exists>mw. configure none_jose (demo_opts DPoPOff) = Inr mw
    \<and> fst (guard none_jose mw (bearer_request (none_token ''{}'')) new_response demo_world) = None"
proof -
  obtain mw where mw: "configure none_jose (demo_opts DPoPOff) = Inr mw" using none_configured by blast
  then have rb: "require_bearer none_jose (demo_opts DPoPOff) demo_world
      = (Inr mw, demo_world\<lparr>w_keys := empty_key_cache, w_mem := new_mem_replay\<rparr>)"
    by (simp add: require_bearer_def)
  have h: "header_kid_alg none_jose (none_token ''{}'') = Inr ([], ''none'')"
    by (simp add: header_kid_alg_def none_jose_def)
  have "\<not> asymmetric none_jose ''none''" by (simp add: asymmetric_def)
  from forbidden_alg_denied [OF rb none_extract h this, of new_response demo_world] obtain rsp' w'
    where "guard none_jose mw (bearer_request (none_token ''{}'')) new_response demo_world = (None, rsp', w')"
    by blast
  with mw show ?thesis by auto
qed

section \<open>Outages\<close>

text \<open>
  C36. Outages fail closed: while no key can be had, no request is admitted, and while the replay
  cache fails, no request with the DPoP scheme is, whatever the mode and the token.
\<close>

theorem outage_denies:
  assumes "extract_token r = Some (scheme, raw)"
    and "(\<forall>kid v. \<exists>e v'. mw_keys mw kid v = (Inl e, v'))
      \<or> scheme = ''DPoP'' \<and> (\<forall>j x v. \<exists>e v'. mw_replay mw j x v = (Inl e, v'))"
  shows "fst (guard J mw r rsp w) = None"
proof (rule ccontr)
  assume "fst (guard J mw r rsp w) \<noteq> None"
  then obtain c rsp' w' where g: "guard J mw r rsp w = (Some c, rsp', w')" by (metis option.exhaust prod.collapse)
  then obtain w1 e w2 where a: "verify J (verifier_of mw) raw w = (Inr c, w1)"
    "sender_ok J mw r raw c scheme (w1\<lparr>w_ext := e\<rparr>) w2"
    using assms(1) unfolding guard_Some admits_def by auto
  from assms(2) show False
  proof
    assume k: "\<forall>kid v. \<exists>e v'. mw_keys mw kid v = (Inl e, v')"
    have "verified_at J (verifier_of mw) raw w c" using a(1) by (rule verify_Inr_D)
    then obtain kid ks v where "mw_keys mw kid w = (Inr ks, v)" by (auto simp: verified_at_def)
    moreover obtain e' v' where "mw_keys mw kid w = (Inl e', v')" using k by blast
    ultimately show False by simp
  next
    assume s: "scheme = ''DPoP'' \<and> (\<forall>j x v. \<exists>e v'. mw_replay mw j x v = (Inl e, v'))"
    then obtain rp p u v where "jti_ok mw p u v"
      using a(2) by (auto simp: sender_ok_def proof_ok_def)
    moreover obtain e' v' where
      "mw_replay mw (dp_jti p) (time_add (dp_iat p) (mw_proof_max_age mw)) u = (Inl e', v')"
      using s by blast
    ultimately show False by (simp add: jti_ok_def)
  qed
qed

lemma outage_denies_witness:
  "fst (guard demo_jose ((demo_mw DPoPRequired)\<lparr>mw_replay := (\<lambda>_ _ w. (Inl ''down'', w))\<rparr>)
     (dpop_request demo_bound) new_response demo_world) = None"
  by (rule outage_denies [OF demo_extract(3)]) simp

section \<open>Challenges\<close>

text \<open>
  C37. A challenge cannot be broken out of: behind its scheme and a space, a reader of quoted
  parameters finds exactly the parameters the challenge is made of, in their order and each with its
  value quoted, whatever the realm, the description, the scopes and the metadata URL hold; and the
  challenge has no control character that could end the header line.
\<close>

theorem challenge_parses:
  "\<exists>s. build_challenge up ae realm meta = (if ae_scheme ae = [] then ''Bearer'' else ae_scheme ae) @ '' '' @ s
    \<and> (if challenge_params ae realm meta = [] then s = []
       else read_params (length (challenge_params ae realm meta)) s
          = Some (map (\<lambda>(k, v). (k, quote up v)) (challenge_params ae realm meta)))
    \<and> no_ctl s"
proof -
  let ?ps = "challenge_params ae realm meta"
  let ?s = "join '', '' (map (\<lambda>(k, v). kv up k v) ?ps)"
  have "read_params (length ?ps) ?s = Some (map (\<lambda>(k, v). (k, quote up v)) ?ps)" if "?ps \<noteq> []"
    using that by (intro read_params_join) (auto dest: challenge_params_keys)
  moreover have "no_ctl ?s"
    by (rule no_ctl_join) (auto intro!: no_ctl_kv dest: challenge_params_keys)
  ultimately show ?thesis
    by (intro exI [of _ ?s]) (simp add: build_challenge_params)
qed

section \<open>Key lookups\<close>

lemma fetch_gets: "fetch J uri w = (r, w') \<Longrightarrow> w_gets w' = w_gets w @ (if url_parse uri = None then [] else [uri])"
  by (auto simp: fetch_def http_get_def Let_def split: if_splits)

lemma refresh_gets: "refresh J uri w = (r, w') \<Longrightarrow> w_gets w' = w_gets w @ (if url_parse uri = None then [] else [uri])"
  by (auto simp: refresh_def now_def dest!: fetch_gets split: prod.splits sum.splits)

text \<open>
  C38. The key cache: a lookup is answered from the cache, without a request, when the cached set
  knows the key id and was fetched at most the ttl ago; any other lookup, an unknown key id
  included, makes one request, and returns what it brought, never an old set. A lookup that succeeds
  leaves the set it returned in the cache.
\<close>

theorem lookup_requests:
  assumes "remote_lookup J uri ttl kid w = (r, w')" and "url_parse uri \<noteq> None"
  shows "(case kc_set (w_keys w) of
      Some cur \<Rightarrow>
        if jwk_lookup J cur kid \<and> time_sub (w_clock w (w_tick w)) (kc_fetched_at (w_keys w)) \<le> ttl
        then r = Inr cur \<and> w_gets w' = w_gets w else w_gets w' = w_gets w @ [uri]
    | None \<Rightarrow> w_gets w' = w_gets w @ [uri])
    \<and> (case r of
        Inr ks \<Rightarrow> kc_set (w_keys w') = Some ks
          \<and> (w_gets w' = w_gets w @ [uri] \<longrightarrow> (\<exists>body b. w_net w (length (w_gets w)) = Reply 200 body
               \<and> read_limited body = Inr b \<and> jwk_parse J b = Inr ks))
      | Inl e \<Rightarrow> kc_last_err (w_keys w') = Some e \<and> kc_set (w_keys w') = kc_set (w_keys w))"
proof -
  have brought: "(case r of
        Inr ks \<Rightarrow> kc_set (w_keys w') = Some ks
          \<and> (\<exists>body b. w_net w (length (w_gets w)) = Reply 200 body \<and> read_limited body = Inr b \<and> jwk_parse J b = Inr ks)
      | Inl e \<Rightarrow> kc_last_err (w_keys w') = Some e \<and> kc_set (w_keys w') = kc_set (w_keys w))
      \<and> w_gets w' = w_gets w @ [uri]"
    if "refresh J uri v = (r, w')" "w_net v = w_net w" "w_gets v = w_gets w" "w_keys v = w_keys w" for v
  proof (cases r)
    case (Inl e)
    with that refresh_Inl [of J uri v e w'] refresh_gets [OF that(1)] assms(2) show ?thesis by auto
  next
    case (Inr ks)
    then have "\<exists>v1. fetch J uri v = (Inr ks, v1)"
      using that(1) by (auto simp: refresh_def split: prod.splits sum.splits)
    then have "\<exists>body b. w_net v (length (w_gets v)) = Reply 200 body \<and> read_limited body = Inr b \<and> jwk_parse J b = Inr ks"
      by (auto simp: fetch_def http_get_def Let_def bind_res_Inr split: if_splits http_reply.splits)
    with Inr that refresh_Inr [of J uri v ks w'] refresh_gets [OF that(1)] assms(2) show ?thesis by auto
  qed
  show ?thesis
  proof (cases "kc_set (w_keys w)")
    case None
    with assms(1) have "refresh J uri w = (r, w')" by (simp add: remote_lookup_def)
    with brought [of w] None show ?thesis by (auto split: sum.splits)
  next
    case (Some cur)
    show ?thesis
    proof (cases "jwk_lookup J cur kid \<and> time_sub (w_clock w (w_tick w)) (kc_fetched_at (w_keys w)) \<le> ttl")
      case True
      with assms(1) Some have "r = Inr cur" "w' = w\<lparr>w_tick := Suc (w_tick w)\<rparr>"
        by (auto simp: remote_lookup_fresh)
      with Some True show ?thesis by simp
    next
      case False
      with assms(1) Some have "refresh J uri (w\<lparr>w_tick := Suc (w_tick w)\<rparr>) = (r, w')"
        by (auto simp: remote_lookup_def now_def split: if_splits)
      with brought [of "w\<lparr>w_tick := Suc (w_tick w)\<rparr>"] Some False show ?thesis by (auto split: sum.splits)
    qed
  qed
qed

lemma lookup_requests_witness:
  "\<exists>r w'. remote_lookup demo_jose ''https://as.example/jwks'' 0 ''k'' demo_world = (r, w')
    \<and> w_gets w' = [''https://as.example/jwks'']"
proof -
  let ?u = "''https://as.example/jwks''"
  obtain r w' where go: "remote_lookup demo_jose ?u 0 ''k'' demo_world = (r, w')" by fastforce
  have u: "url_parse ?u \<noteq> None" by code_simp
  have d: "kc_set (w_keys demo_world) = None" "w_gets demo_world = []"
    by (simp_all only: demo_at_def world.select_convs empty_key_cache_def key_cache.select_convs)
  from lookup_requests [OF go u] have "w_gets w' = [?u]" unfolding d by simp
  with go show ?thesis by blast
qed

section \<open>Two limits\<close>

text \<open>Scheme, host and path of a URL, which is what \<open>htuEqual\<close> compares.\<close>

definition place :: "url \<Rightarrow> string \<times> string \<times> string" where
  "place u = (url_scheme u, url_host u, url_path u)"

lemma htu_equal_place:
  "map_option place (url_parse b) = map_option place (url_parse b') \<Longrightarrow> htu_equal a b = htu_equal a b'"
  by (auto simp: htu_equal_def place_def split: option.splits)

lemma parse_nofrag_place:
  assumes "plain_scheme s" and "\<not> has_ctl (s @ ''://'' @ y)"
    and "split_query (''//'' @ y) (empty_url\<lparr>url_scheme := s\<rparr>) = (''//'' @ x, u)" and "url_scheme u = s"
  shows "map_option place (parse_nofrag (s @ ''://'' @ y)) =
    (case parse_authority (first_segment x) of
       None \<Rightarrow> None
     | Some (_, h) \<Rightarrow>
         map_option (\<lambda>p. (s, h, p)) (unescape EncPath (drop (length (first_segment x)) x)))"
proof -
  have s: "list_all lower_alpha s" "s \<noteq> []" using assms(1) by (simp_all add: plain_scheme_def)
  have sch: "get_scheme (s @ ''://'' @ y) [] (s @ ''://'' @ y) = Some (s, ''//'' @ y)"
    using get_scheme_plain [OF s(1), of "[]" "s @ ''://'' @ y"] s(2) by simp
  have "s @ ''://'' @ y \<noteq> ''*''" using s(2) by (cases s) auto
  with assms(2,3,4) s(2) sch show ?thesis
    by (auto simp: parse_nofrag_def set_path_def place_def map_lower_plain [OF s(1)] Let_def split: option.splits)
qed

lemma parse_nofrag_query:
  assumes s: "plain_scheme s" and x: "CHR ''?'' \<notin> set x" and q: "\<not> has_ctl q"
  shows "map_option place (parse_nofrag (s @ ''://'' @ x @ ''?'' @ q)) = map_option place (parse_nofrag (s @ ''://'' @ x))"
proof (cases "has_ctl (s @ ''://'' @ x)")
  case True
  then have "has_ctl (s @ ''://'' @ x @ ''?'' @ q)" by (auto simp: has_ctl_def)
  with True show ?thesis by (simp add: parse_nofrag_def)
next
  case False
  let ?e = "empty_url\<lparr>url_scheme := s\<rparr>"
  have n: "CHR ''?'' \<notin> set (''//'' @ x)" using x by simp
  then have "cut (CHR ''?'') (''//'' @ x) = None" and "\<not> suffix ''?'' (''//'' @ x)"
    unfolding cut_None by (auto dest: set_mono_suffix simp del: append_Cons)
  then have a: "split_query (''//'' @ x) ?e = (''//'' @ x, ?e)"
    by (simp add: split_query_def del: append_Cons)
  have b: "\<exists>u. split_query (''//'' @ x @ ''?'' @ q) ?e = (''//'' @ x, u) \<and> url_scheme u = s"
  proof (cases "suffix ''?'' (''//'' @ x @ ''?'' @ q) \<and> count_list (''//'' @ x @ ''?'' @ q) (CHR ''?'') = 1")
    case True
    then have "CHR ''?'' \<notin> set q" by (simp add: count_list_0_iff)
    with True have "q = []" by (cases q rule: rev_cases) (auto simp: suffix_def)
    with True show ?thesis by (simp add: split_query_def butlast_append)
  next
    case False
    have "cut (CHR ''?'') (''//'' @ x @ ''?'' @ q) = Some (''//'' @ x, q)"
      using cut_append [OF n, of q] by simp
    then show ?thesis unfolding split_query_def if_not_P [OF False] by simp
  qed
  then obtain u where u: "split_query (''//'' @ x @ ''?'' @ q) ?e = (''//'' @ x, u)" "url_scheme u = s" by blast
  have c: "\<not> has_ctl (s @ ''://'' @ x @ ''?'' @ q)" using False q by (auto simp: has_ctl_def)
  show ?thesis
    using parse_nofrag_place [OF s False a] parse_nofrag_place [OF s c u] by simp
qed

lemma url_parse_query:
  assumes "plain_scheme s" and "CHR ''?'' \<notin> set x" "CHR ''#'' \<notin> set x" and "\<not> has_ctl q" "CHR ''#'' \<notin> set q"
  shows "map_option place (url_parse (s @ ''://'' @ x @ ''?'' @ q)) = map_option place (url_parse (s @ ''://'' @ x))"
proof -
  have "CHR ''#'' \<notin> set s" using assms(1) lower_alpha_not by (fastforce simp: plain_scheme_def list_all_iff)
  then have "CHR ''#'' \<notin> set (s @ ''://'' @ x)" "CHR ''#'' \<notin> set (s @ ''://'' @ x @ ''?'' @ q)"
    using assms(3,5) by simp_all
  then have "url_parse (s @ ''://'' @ x) = parse_nofrag (s @ ''://'' @ x)"
    "url_parse (s @ ''://'' @ x @ ''?'' @ q) = parse_nofrag (s @ ''://'' @ x @ ''?'' @ q)"
    by (simp_all only: url_parse_def flip: cut_None) simp_all
  then show ?thesis using parse_nofrag_query [OF assms(1,2,4)] by simp
qed

text \<open>
  C39. The target of a proof is compared after a second decoding: \<open>requestHTU\<close> joins the decoded path
  to a text that \<open>htuEqual\<close> parses again. A request whose decoded path is \<open>p?q\<close>, as for the target
  \<open>/a%3Fadmin\<close>, therefore passes the checks of a proof exactly when a request for \<open>p\<close> does.
\<close>

theorem decoded_path:
  assumes "\<not> mw_trust_fwd mw" and "set (req_host r @ p) \<inter> set ''?#'' = {}"
    and "\<not> has_ctl q" "CHR ''#'' \<notin> set q"
  shows "check_proof_claims mw (r\<lparr>req_path := p @ ''?'' @ q\<rparr>) tok c pr w
       = check_proof_claims mw (r\<lparr>req_path := p\<rparr>) tok c pr w"
proof -
  have "htu_equal (dp_htu pr) (request_htu (r\<lparr>req_path := p @ ''?'' @ q\<rparr>) False)
      = htu_equal (dp_htu pr) (request_htu (r\<lparr>req_path := p\<rparr>) False)"
  proof (rule htu_equal_place)
    have "plain_scheme ''https''" "plain_scheme ''http''" by code_simp+
    then show "map_option place (url_parse (request_htu (r\<lparr>req_path := p @ ''?'' @ q\<rparr>) False))
        = map_option place (url_parse (request_htu (r\<lparr>req_path := p\<rparr>) False))"
      using url_parse_query [of _ "req_host r @ p" q] assms(2-4)
      by (auto simp: request_htu_def Let_def)
  qed
  with assms(1) show ?thesis unfolding check_proof_claims_def by simp
qed

theorem decoded_path_witness:
  "map_option url_path (url_parse ''https://rs.example/a%3Fadmin'') = Some ''/a?admin''
    \<and> fst (check_proof_claims (demo_mw DPoPRequired) ((dpop_request demo_bound)\<lparr>req_path := ''/a?admin''\<rparr>)
        demo_bound (demo_claims ''YWJj'') demo_proof demo_world) = None"
proof
  show "map_option url_path (url_parse ''https://rs.example/a%3Fadmin'') = Some ''/a?admin''" by code_simp
  have "req_path (dpop_request demo_bound) = ''/a''" "req_host (dpop_request demo_bound) = ''rs.example''"
    by (simp_all add: dpop_request_def demo_request_def)
  then have r: "(dpop_request demo_bound)\<lparr>req_path := ''/a''\<rparr> = dpop_request demo_bound"
    and h: "set (req_host (dpop_request demo_bound) @ ''/a'') \<inter> set ''?#'' = {}" by simp_all
  have "check_proof_claims (demo_mw DPoPRequired) (dpop_request demo_bound)
      demo_bound (demo_claims ''YWJj'') demo_proof demo_world = (None, demo_at demo_now 1 [] new_mem_replay)"
    using demo_fits by (simp add: check_proof_claims_None)
  with decoded_path [OF _ h, of "demo_mw DPoPRequired" "''admin''"]
  show "fst (check_proof_claims (demo_mw DPoPRequired) ((dpop_request demo_bound)\<lparr>req_path := ''/a?admin''\<rparr>)
      demo_bound (demo_claims ''YWJj'') demo_proof demo_world) = None"
    by (simp add: r has_ctl_def demo_mw_def)
qed

text \<open>
  A token in another form than the compact one, as the JSON serialization of the same signature is:
  the demo library accepts it too.
\<close>

definition json_token :: string where
  "json_token = json_print (JObj [(''payload'', JStr (b64_encode bound_payload)), (''protected'', JStr (b64_encode ''{}'')),
     (''signature'', JStr ''c2ln'')])"

definition json_jose :: "(string, unit) jose" where
  "json_jose = demo_jose\<lparr>jws_parse := (\<lambda>raw. jws_parse demo_jose (if raw = json_token then demo_bound else raw))\<rparr>"

lemma token_payload_dots:
  assumes "count_list raw (CHR ''.'') < 2"
  shows "token_payload raw = []"
proof (cases "cut (CHR ''.'') raw")
  case None
  then show ?thesis by (simp add: token_payload_def numeral_3_eq_3)
next
  case (Some ab)
  obtain a b where ab: "ab = (a, b)" by (cases ab)
  with Some have "raw = a @ CHR ''.'' # b" by (simp add: cut_Some)
  with assms have "CHR ''.'' \<notin> set b" by (simp add: count_list_append count_list_0_iff)
  then have "cut (CHR ''.'') b = None" by (simp add: cut_None)
  with Some ab show ?thesis by (simp add: token_payload_def numeral_3_eq_3)
qed

text \<open>
  C40. The binding of a token is read from the text of a compact token only: whatever an admitted
  token in another form carries, its claims have no \<open>cnf.jkt\<close> and no payload, so that it was admitted
  as Bearer without a proof.
\<close>

theorem uncompact_unbound:
  assumes "guard J mw r rsp w = (Some c, rsp', w')" and "extract_token r = Some (scheme, raw)"
    and "count_list raw (CHR ''.'') < 2"
  shows "scheme = ''Bearer'' \<and> cl_raw c = [] \<and> bound_key_thumbprint c = []"
proof -
  obtain w1 e w2 where a: "verify J (verifier_of mw) raw w = (Inr c, w1)"
    "sender_ok J mw r raw c scheme (w1\<lparr>w_ext := e\<rparr>) w2"
    using assms(1,2) unfolding guard_Some admits_def by auto
  have "verified_at J (verifier_of mw) raw w c" using a(1) by (rule verify_Inr_D)
  then have "cl_raw c = []" "bound_key_thumbprint c = []"
    using token_payload_dots [OF assms(3)] by (auto simp: verified_at_def new_claims_def bound_key_thumbprint_def)
  moreover have "scheme = ''Bearer''"
    using a(2) calculation(2) extract_token_scheme [OF assms(2)] by (auto simp: sender_ok_def split: if_splits)
  ultimately show ?thesis by simp
qed

lemma json_token_extract: "extract_token (bearer_request json_token) = Some (''Bearer'', json_token)"
proof -
  have "trim_space json_token = json_token" by (rule trim_space_id; code_simp)
  moreover have "equal_fold ''Bearer'' ''Bearer''" "json_token \<noteq> []" by code_simp+
  ultimately show ?thesis by (simp add: extract_token_def demo_headers numeral_2_eq_2)
qed

lemma json_token_admitted:
  "\<exists>w'. guard json_jose (demo_mw DPoPOptional) (bearer_request json_token) new_response demo_world
     = (Some ((demo_claims [])\<lparr>cl_raw := []\<rparr>), new_response, w')"
proof -
  let ?c = "(demo_claims [])\<lparr>cl_raw := []\<rparr>"
  have dots: "count_list json_token (CHR ''.'') < 2" by code_simp
  have sc: "token_scope \<lparr>tok_subject = a, tok_issuer = b, tok_audience = c, tok_expiration = d,
      tok_issued_at = e, tok_not_before = f,
      tok_claim = (\<lambda>k. if k = ''scope'' then Some (JStr ''read'') else None)\<rparr> = [''read'']" for a b c d e f
  proof -
    have "str_fields ''read'' = [''read'']" by (simp add: str_fields_def is_space_def)
    then show ?thesis by (simp add: token_scope_def)
  qed
  have "demo_now - mw_skew (demo_mw DPoPOptional) < demo_now + minutes 60"
    by (simp add: demo_mw_def nanos_def minutes_def)
  then have "verify json_jose (verifier_of (demo_mw DPoPOptional)) json_token demo_world
      = (Inr ?c, demo_at demo_now 1 [] new_mem_replay)"
    by (simp add: verify_def header_kid_alg_def json_jose_def demo_jose_def demo_mw_def static_lookup_def
        new_claims_def demo_claims_def token_payload_dots [OF dots] or_zero_def sc)
  then have "admits json_jose (demo_mw DPoPOptional) (bearer_request json_token) ''Bearer'' json_token ?c demo_world
      (demo_at demo_now 1 [] new_mem_replay)"
    unfolding admits_def
    by (intro conjI exI [of _ "demo_at demo_now 1 [] new_mem_replay"] exI [of _ "()"])
      (simp_all add: json_token_extract validator_ok_def sender_ok_def demo_headers bound_key_thumbprint_def,
        simp_all add: claims_ok_def demo_mw_def demo_claims_def)
  then show ?thesis unfolding guard_Some by blast
qed

lemma uncompact_unbound_witness:
  "fst (guard json_jose (demo_mw DPoPOptional) (bearer_request json_token) new_response demo_world)
     = Some ((demo_claims [])\<lparr>cl_raw := []\<rparr>) \<and> bound_key_thumbprint ((demo_claims [])\<lparr>cl_raw := []\<rparr>) = []"
proof -
  have "count_list json_token (CHR ''.'') < 2" by code_simp
  then show ?thesis
    using json_token_admitted uncompact_unbound [OF _ json_token_extract] by fastforce
qed

end
