(* ===== verification/DiscoveryConc.thy ===== *)
theory DiscoveryConc
  imports ExchangeDemo KeysClaims
begin

text \<open>
  The interleavings of several callers of \<open>tokenEndpoint\<close> (exchange_discovery.go). The mutex covers the
  two accesses to the cache only, so that callers that miss at the same time each fetch the document. A
  step is one region under the mutex or one fetch, whose outcome is whatever the environment gives.
\<close>

section \<open>State and steps\<close>

datatype lookup_caller =
  Asking string
| Fetching string
| Storing string string
| Answered string "string result"

text \<open>The cache, the callers, and the responses accepted so far, which no step reads.\<close>

record disc_state =
  ds_cache :: "(string \<times> string) list"
  ds_callers :: "lookup_caller list"
  ds_accepted :: "(string \<times> http_response) list"

definition set_lookup :: "nat \<Rightarrow> lookup_caller \<Rightarrow> disc_state \<Rightarrow> disc_state" where
  "set_lookup i c s = s\<lparr>ds_callers := (ds_callers s)[i := c]\<rparr>"

text \<open>The first region: a hit is the answer.\<close>

definition check_cache :: "string \<Rightarrow> disc_state \<Rightarrow> lookup_caller" where
  "check_cache issuer s =
     (case map_of (ds_cache s) issuer of Some ep \<Rightarrow> Answered issuer (Inr ep) | None \<Rightarrow> Fetching issuer)"

text \<open>What the caller makes of the outcome of \<open>client.Do\<close>, when the request could be built.\<close>

definition after_fetch :: "('k, 's) jose \<Rightarrow> string \<Rightarrow> http_response result \<Rightarrow> string result" where
  "after_fetch J issuer out =
     (case new_request J ''GET'' (as_metadata_url issuer) of
        Inl e \<Rightarrow> Inl e
      | Inr _ \<Rightarrow>
          (case out of
             Inl e \<Rightarrow> Inl (''aoa: fetch AS metadata: '' @ e)
           | Inr resp \<Rightarrow> read_as_metadata J issuer resp))"

definition fetched_metadata ::
  "('k, 's) jose \<Rightarrow> nat \<Rightarrow> string \<Rightarrow> http_response result \<Rightarrow> disc_state \<Rightarrow> disc_state" where
  "fetched_metadata J i issuer out s =
     (case after_fetch J issuer out of
        Inl e \<Rightarrow> set_lookup i (Answered issuer (Inl e)) s
      | Inr ep \<Rightarrow>
          set_lookup i (Storing issuer ep)
            (s\<lparr>ds_accepted := ds_accepted s @ (case out of Inr resp \<Rightarrow> [(issuer, resp)] | Inl _ \<Rightarrow> [])\<rparr>))"

text \<open>The second region.\<close>

definition store_endpoint :: "nat \<Rightarrow> string \<Rightarrow> string \<Rightarrow> disc_state \<Rightarrow> disc_state" where
  "store_endpoint i issuer ep s =
     set_lookup i (Answered issuer (Inr ep)) (s\<lparr>ds_cache := AList.update issuer ep (ds_cache s)\<rparr>)"

inductive disc_step :: "('k, 's) jose \<Rightarrow> disc_state \<Rightarrow> nat \<Rightarrow> disc_state \<Rightarrow> bool"
  for J :: "('k, 's) jose" where
  look: "i < length (ds_callers s) \<Longrightarrow> ds_callers s ! i = Asking issuer \<Longrightarrow>
    disc_step J s i (set_lookup i (check_cache issuer s) s)"
| fetch: "i < length (ds_callers s) \<Longrightarrow> ds_callers s ! i = Fetching issuer \<Longrightarrow>
    disc_step J s i (fetched_metadata J i issuer out s)"
| store: "i < length (ds_callers s) \<Longrightarrow> ds_callers s ! i = Storing issuer ep \<Longrightarrow>
    disc_step J s i (store_endpoint i issuer ep s)"

inductive_cases disc_stepE: "disc_step J s i s'"

inductive disc_run :: "('k, 's) jose \<Rightarrow> disc_state \<Rightarrow> nat \<Rightarrow> disc_state \<Rightarrow> bool"
  for J :: "('k, 's) jose" and s0 :: disc_state where
  disc_refl: "disc_run J s0 0 s0"
| disc_next: "disc_run J s0 n s \<Longrightarrow> disc_step J s i s' \<Longrightarrow> disc_run J s0 (Suc n) s'"

text \<open>\<open>newDiscovery\<close>, and callers that ask for these issuers.\<close>

definition new_discovery :: "string list \<Rightarrow> disc_state" where
  "new_discovery issuers = \<lparr>ds_cache = [], ds_callers = map Asking issuers, ds_accepted = []\<rparr>"

lemma set_lookup_sel [simp]:
  "ds_cache (set_lookup i c s) = ds_cache s" "ds_accepted (set_lookup i c s) = ds_accepted s"
  "ds_callers (set_lookup i c s) = (ds_callers s)[i := c]"
  by (simp_all add: set_lookup_def)

section \<open>The invariant\<close>

text \<open>What the accepted responses justify.\<close>

definition backed :: "(string \<times> http_response) list \<Rightarrow> string \<Rightarrow> string \<Rightarrow> bool" where
  "backed log issuer ep \<longleftrightarrow> (\<exists>resp. (issuer, resp) \<in> set log \<and> confirmed issuer ep resp)"

fun lookup_ok :: "(string \<times> string) list \<Rightarrow> (string \<times> http_response) list \<Rightarrow> lookup_caller \<Rightarrow> bool" where
  "lookup_ok cache log (Storing issuer ep) \<longleftrightarrow> backed log issuer ep"
| "lookup_ok cache log (Answered issuer (Inr ep)) \<longleftrightarrow> backed log issuer ep \<and> map_of cache issuer \<noteq> None"
| "lookup_ok cache log _ \<longleftrightarrow> True"

definition disc_inv :: "disc_state \<Rightarrow> bool" where
  "disc_inv s \<longleftrightarrow>
     (\<forall>issuer ep. map_of (ds_cache s) issuer = Some ep \<longrightarrow> backed (ds_accepted s) issuer ep)
     \<and> (\<forall>c \<in> set (ds_callers s). lookup_ok (ds_cache s) (ds_accepted s) c)"

lemma backed_more: "backed log issuer ep \<Longrightarrow> backed (log @ rest) issuer ep"
  by (auto simp: backed_def)

lemma lookup_ok_more:
  "lookup_ok cache log c \<Longrightarrow> (\<And>i. map_of cache i \<noteq> None \<Longrightarrow> map_of cache' i \<noteq> None) \<Longrightarrow> lookup_ok cache' (log @ rest) c"
  by (induction cache log c rule: lookup_ok.induct) (auto simp: backed_more)

lemma disc_inv_caller:
  "disc_inv s \<Longrightarrow> lookup_ok (ds_cache s) (ds_accepted s) c \<Longrightarrow> disc_inv (set_lookup i c s)"
  unfolding disc_inv_def
  using callers_ok_update [of "ds_callers s" "lookup_ok (ds_cache s) (ds_accepted s)" c i] by simp

lemma after_fetch_Inr: "after_fetch J issuer out = Inr ep \<Longrightarrow> \<exists>resp. out = Inr resp \<and> confirmed issuer ep resp"
  by (auto simp: after_fetch_def read_as_metadata_Inr split: sum.splits)

lemma disc_inv_step:
  assumes inv: "disc_inv s" and step: "disc_step J s i s'"
  shows "disc_inv s'"
  using step
proof cases
  case (look issuer)
  have "lookup_ok (ds_cache s) (ds_accepted s) (check_cache issuer s)"
    using inv by (auto simp: check_cache_def disc_inv_def split: option.split)
  with inv look show ?thesis by (simp add: disc_inv_caller)
next
  case (fetch issuer out)
  show ?thesis
  proof (cases "after_fetch J issuer out")
    case (Inl e)
    with inv fetch show ?thesis by (simp add: fetched_metadata_def disc_inv_caller)
  next
    case (Inr ep)
    then obtain resp where r: "out = Inr resp" "confirmed issuer ep resp" using after_fetch_Inr by blast
    let ?s = "s\<lparr>ds_accepted := ds_accepted s @ [(issuer, resp)]\<rparr>"
    have "disc_inv ?s" using inv by (auto simp: disc_inv_def backed_more intro: lookup_ok_more)
    moreover have "lookup_ok (ds_cache ?s) (ds_accepted ?s) (Storing issuer ep)"
      using r(2) by (auto simp: backed_def)
    ultimately show ?thesis
      using fetch Inr r(1) disc_inv_caller [of ?s] by (simp add: fetched_metadata_def)
  qed
next
  case (store issuer ep)
  then have "lookup_ok (ds_cache s) (ds_accepted s) (Storing issuer ep)"
    using inv unfolding disc_inv_def by (metis nth_mem)
  then have b: "backed (ds_accepted s) issuer ep" by simp
  let ?s = "s\<lparr>ds_cache := AList.update issuer ep (ds_cache s)\<rparr>"
  have "lookup_ok (ds_cache ?s) (ds_accepted ?s) c" if "c \<in> set (ds_callers s)" for c
    using inv that lookup_ok_more [of "ds_cache s" "ds_accepted s" c "ds_cache ?s" "[]"]
    by (auto simp: disc_inv_def update_conv')
  then have "disc_inv ?s" using inv b by (auto simp: disc_inv_def update_conv')
  with b store disc_inv_caller [of ?s "Answered issuer (Inr ep)"] show ?thesis
    by (simp add: store_endpoint_def update_conv')
qed

section \<open>Runs end\<close>

fun lookup_left :: "lookup_caller \<Rightarrow> nat" where
  "lookup_left (Asking issuer) = 3"
| "lookup_left (Fetching issuer) = 2"
| "lookup_left (Storing issuer ep) = 1"
| "lookup_left (Answered issuer a) = 0"

lemma disc_step_caller:
  assumes "disc_step J s i s'"
  shows "i < length (ds_callers s)
    \<and> (\<exists>c. ds_callers s' = (ds_callers s)[i := c] \<and> lookup_left c < lookup_left (ds_callers s ! i))"
  using assms
  by cases (auto simp: check_cache_def fetched_metadata_def store_endpoint_def split: option.split sum.split)

definition disc_left :: "disc_state \<Rightarrow> nat" where
  "disc_left s = sum_list (map lookup_left (ds_callers s))"

lemma disc_left_step: "disc_step J s i s' \<Longrightarrow> disc_left s' < disc_left s"
  unfolding disc_left_def using disc_step_caller sum_list_less_update [of _ "ds_callers s" _ lookup_left] by metis

lemma disc_run_left: "disc_run J s0 n s \<Longrightarrow> n + disc_left s \<le> disc_left s0"
  by (induction rule: disc_run.induct) (auto dest: disc_left_step)

lemma disc_left_new: "disc_left (new_discovery issuers) = 3 * length issuers"
  by (simp add: disc_left_def new_discovery_def sum_list_triv comp_def)

lemma disc_moves:
  assumes i: "i < length (ds_callers s)" and "\<forall>issuer a. ds_callers s ! i \<noteq> Answered issuer a"
  shows "\<exists>s'. disc_step J s i s'"
proof (cases "ds_callers s ! i")
  case (Asking issuer)
  show ?thesis by (rule exI, rule disc_step.look [OF i Asking])
next
  case (Fetching issuer)
  show ?thesis by (rule exI, rule disc_step.fetch [OF i Fetching])
next
  case (Storing issuer ep)
  show ?thesis by (rule exI, rule disc_step.store [OF i Storing])
next
  case (Answered issuer a)
  with assms show ?thesis by simp
qed

lemma disc_run_inv: "disc_run J (new_discovery issuers) n s \<Longrightarrow> disc_inv s"
proof (induction rule: disc_run.induct)
  case disc_refl
  show ?case by (auto simp: disc_inv_def new_discovery_def)
next
  case (disc_next n s i s')
  then show ?case by (blast intro: disc_inv_step)
qed

section \<open>One caller alone\<close>

lemma disc_one: "disc_step J s0 i s \<Longrightarrow> disc_run J s0 1 s"
  using disc_run.disc_next [OF disc_run.disc_refl] by fastforce

lemma disc_snoc: "disc_run J s0 n s \<Longrightarrow> disc_step J s i s' \<Longrightarrow> m = Suc n \<Longrightarrow> disc_run J s0 m s'"
  using disc_run.disc_next by fast

text \<open>The sequential \<open>discover\<close> of theory Exchanger is the run of a caller that no other overtakes.\<close>

lemma discover_sim:
  assumes i: "i < length (ds_callers s)" and at: "ds_callers s ! i = Asking issuer"
    and cache: "ds_cache s = cw_cache w" and go: "discover J client issuer w = (res, w')"
  shows "\<exists>n s'. disc_run J s n s' \<and> n \<le> 3 \<and> ds_callers s' = (ds_callers s)[i := Answered issuer res]
    \<and> ds_cache s' = cw_cache w'"
proof -
  define s1 where "s1 = set_lookup i (check_cache issuer s) s"
  have r1: "disc_run J s 1 s1" unfolding s1_def by (rule disc_one, rule disc_step.look [OF i at])
  show ?thesis
  proof (cases "map_of (cw_cache w) issuer")
    case (Some ep)
    with go cache have "res = Inr ep" "w' = w" "ds_callers s1 = (ds_callers s)[i := Answered issuer res]"
      by (simp_all add: discover_def s1_def check_cache_def)
    with r1 cache show ?thesis by (intro exI [of _ 1] exI [of _ s1]) (simp add: s1_def)
  next
    case None
    with cache have c1: "ds_callers s1 = (ds_callers s)[i := Fetching issuer]" "ds_cache s1 = cw_cache w"
      by (simp_all add: s1_def check_cache_def)
    obtain out where res: "res = after_fetch J issuer out"
      and keep: "cw_cache w' = (case res of Inl e \<Rightarrow> cw_cache w | Inr ep \<Rightarrow> AList.update issuer ep (cw_cache w))"
    proof (cases "new_request J ''GET'' (as_metadata_url issuer)")
      case (Inl e)
      with go None have "res = after_fetch J issuer (Inl [])" "res = Inl e" "w' = w"
        by (simp_all add: discover_def after_fetch_def)
      then show ?thesis by (intro that [of "Inl []"]) (simp, metis old.sum.simps(5))
    next
      case (Inr req)
      obtain out p where out: "client req (cw_peer w) = (out, p)" by fastforce
      with go None Inr have "res = after_fetch J issuer out"
        "cw_cache w' = (case res of Inl e \<Rightarrow> cw_cache w | Inr ep \<Rightarrow> AList.update issuer ep (cw_cache w))"
        by (auto simp: discover_def after_fetch_def client_send_def split: sum.splits)
      then show ?thesis by (rule that)
    qed
    define s2 where "s2 = fetched_metadata J i issuer out s1"
    have "disc_step J s1 i s2" unfolding s2_def by (rule disc_step.fetch) (simp_all add: c1 i)
    with r1 have r2: "disc_run J s 2 s2" by (rule disc_snoc) simp
    show ?thesis
    proof (cases res)
      case (Inl e)
      then have "ds_callers s2 = (ds_callers s)[i := Answered issuer res]" "ds_cache s2 = cw_cache w'"
        using res keep c1 by (simp_all add: s2_def fetched_metadata_def)
      with r2 show ?thesis by (intro exI [of _ 2] exI [of _ s2]) simp
    next
      case (Inr ep)
      then have c2: "ds_callers s2 = (ds_callers s)[i := Storing issuer ep]" "ds_cache s2 = cw_cache w"
        using res c1 by (simp_all add: s2_def fetched_metadata_def)
      define s3 where "s3 = store_endpoint i issuer ep s2"
      have "disc_step J s2 i s3" unfolding s3_def by (rule disc_step.store) (simp_all add: c2 i)
      with r2 have "disc_run J s 3 s3" by (rule disc_snoc) simp
      moreover have "ds_callers s3 = (ds_callers s)[i := Answered issuer res]" "ds_cache s3 = cw_cache w'"
        using Inr keep c2 by (simp_all add: s3_def store_endpoint_def)
      ultimately show ?thesis by blast
    qed
  qed
qed

section \<open>Property\<close>

text \<open>
  C24. Discovery under concurrent callers: every interleaving ends within three steps for each caller,
  with an answer for all of them, and neither a caller nor the cache ever has an endpoint that no
  document confirmed, one that was fetched for that issuer, sent with status 200 and naming it.
\<close>

theorem discovery_interleaved:
  assumes "disc_run J (new_discovery issuers) n s"
  shows "n \<le> 3 * length issuers
    \<and> ((\<exists>i s'. disc_step J s i s') \<or> (\<forall>c \<in> set (ds_callers s). \<exists>issuer a. c = Answered issuer a))
    \<and> (\<forall>issuer ep. Answered issuer (Inr ep) \<in> set (ds_callers s) \<or> map_of (ds_cache s) issuer = Some ep \<longrightarrow>
         (\<exists>resp. (issuer, resp) \<in> set (ds_accepted s) \<and> confirmed issuer ep resp))"
proof -
  have inv: "disc_inv s" using assms by (rule disc_run_inv)
  have "n \<le> 3 * length issuers" using disc_run_left [OF assms] disc_left_new by (metis add_leE)
  moreover have "(\<exists>i s'. disc_step J s i s') \<or> (\<forall>c \<in> set (ds_callers s). \<exists>issuer a. c = Answered issuer a)"
    using disc_moves by (metis in_set_conv_nth)
  moreover have "backed (ds_accepted s) issuer ep"
    if "Answered issuer (Inr ep) \<in> set (ds_callers s) \<or> map_of (ds_cache s) issuer = Some ep" for issuer ep
    using inv that unfolding disc_inv_def by force
  ultimately show ?thesis unfolding backed_def by blast
qed

text \<open>Two callers that miss at the same time, and the first of them that fetched.\<close>

definition disc_body :: bytes where
  "disc_body = json_print (JObj [(''issuer'', JStr ''https://as''), (''token_endpoint'', JStr ''https://as/t'')])"

definition disc_response :: http_response where
  "disc_response = \<lparr>hs_status = 200, hs_header = no_header, hs_body = Inr disc_body\<rparr>"

definition disc_halfway :: disc_state where
  "disc_halfway = \<lparr>ds_cache = [], ds_callers = [Storing ''https://as'' ''https://as/t'', Fetching ''https://as''],
     ds_accepted = [(''https://as'', disc_response)]\<rparr>"

lemma disc_fetched: "after_fetch xd_jose ''https://as'' (Inr disc_response) = Inr ''https://as/t''"
proof -
  have "new_request xd_jose ''GET'' (as_metadata_url ''https://as'') \<noteq> Inl e" for e
  proof -
    have "url_parse (as_metadata_url ''https://as'') \<noteq> None" by code_simp
    then show ?thesis by (auto simp: new_request_def)
  qed
  moreover have "read_as_metadata xd_jose ''https://as'' disc_response = Inr ''https://as/t''"
  proof -
    have "length disc_body \<le> 100" "map_option am_issuer (unmarshal dec_as_metadata zero_as_metadata disc_body) = Some ''https://as''"
      "map_option am_token_endpoint (unmarshal dec_as_metadata zero_as_metadata disc_body) = Some ''https://as/t''"
      by code_simp+
    then show ?thesis
      by (auto simp: read_as_metadata_def disc_response_def read_limited_def body_limit_def)
  qed
  ultimately show ?thesis by (simp add: after_fetch_def split: sum.split)
qed

lemma disc_halfway_run: "disc_run xd_jose (new_discovery [''https://as'', ''https://as'']) 3 disc_halfway"
proof -
  let ?c = "\<lambda>cs. \<lparr>ds_cache = [], ds_callers = cs, ds_accepted = []\<rparr>" and ?i = "''https://as''"
  have "disc_step xd_jose (new_discovery [?i, ?i]) 0 (?c [Fetching ?i, Asking ?i])"
    using disc_step.look [of 0 "new_discovery [?i, ?i]" ?i xd_jose]
    by (simp add: new_discovery_def check_cache_def set_lookup_def)
  then have "disc_run xd_jose (new_discovery [?i, ?i]) 1 (?c [Fetching ?i, Asking ?i])" by (rule disc_one)
  moreover have "disc_step xd_jose (?c [Fetching ?i, Asking ?i]) 1 (?c [Fetching ?i, Fetching ?i])"
    using disc_step.look [of 1 "?c [Fetching ?i, Asking ?i]" ?i xd_jose] by (simp add: check_cache_def set_lookup_def)
  ultimately have "disc_run xd_jose (new_discovery [?i, ?i]) 2 (?c [Fetching ?i, Fetching ?i])"
    by (rule disc_snoc) simp
  moreover have "disc_step xd_jose (?c [Fetching ?i, Fetching ?i]) 0 disc_halfway"
    using disc_step.fetch [of 0 "?c [Fetching ?i, Fetching ?i]" ?i xd_jose "Inr disc_response"]
    by (simp add: fetched_metadata_def disc_fetched set_lookup_def disc_halfway_def)
  ultimately show ?thesis by (rule disc_snoc) simp
qed

lemma discovery_interleaved_witness:
  "(3 :: nat) \<le> 3 * length [''https://as'', ''https://as''] \<and> (\<exists>i s'. disc_step xd_jose disc_halfway i s')"
proof -
  have "\<not> (\<forall>c \<in> set (ds_callers disc_halfway). \<exists>issuer a. c = Answered issuer a)" by (simp add: disc_halfway_def)
  with discovery_interleaved [OF disc_halfway_run] show ?thesis by (elim conjE disjE) simp_all
qed

end
