(* ===== verification/TestSigner.thy ===== *)
theory TestSigner
  imports ExchangeStub
begin

text \<open>
  The signers, forged proofs and the JWKS server of the tests (internal/jwktest). What the code calls of
  crypto, x509 and the JOSE library are the fields of the record \<open>token_lib\<close>; a call of \<open>t.Fatalf\<close> is an
  error, which ends the test.
\<close>

section \<open>The library\<close>

text \<open>A \<open>jwt.Builder\<close>, by what was set on it.\<close>

record builder =
  jb_issuer :: "string option"
  jb_subject :: "string option"
  jb_audience :: "string list option"
  jb_expiration :: "instant option"
  jb_claims :: "(string \<times> json) list"

definition new_builder :: builder where
  "new_builder = \<lparr>jb_issuer = None, jb_subject = None, jb_audience = None, jb_expiration = None, jb_claims = []\<rparr>"

text \<open>
  \<^item> \<open>tl_rsa_key\<close>, \<open>tl_ec_key\<close>: a raw key from random bytes;
  \<^item> \<open>tl_set_kid\<close>, \<open>tl_set_alg\<close>: \<open>Set\<close> of a key with \<open>KeyIDKey\<close> and \<open>AlgorithmKey\<close>;
  \<^item> \<open>tl_new_set\<close>, \<open>tl_add_key\<close>, \<open>tl_set_json\<close>: a key set, and its JSON text;
  \<^item> \<open>tl_build\<close>: the checks of \<open>Builder.Build\<close>; \<open>tl_sign_jwt\<close>: \<open>jwt.Sign\<close> with an algorithm and a key;
  \<^item> \<open>tl_sign_hmac\<close>: \<open>jwt.Sign\<close> with HS256 and a secret; \<open>tl_sign_raw\<close>: \<open>jws.Sign\<close> without headers;
  \<^item> \<open>tl_export\<close>, \<open>tl_marshal_pkcs8\<close>, \<open>tl_pem\<close>: \<open>jwk.Export\<close>, PKCS#8 and PEM encoding.
\<close>

record ('k, 's, 'r) token_lib = "('k, 'r) signing_lib" +
  tl_rsa_key :: "bytes \<Rightarrow> 'r result"
  tl_ec_key :: "bytes \<Rightarrow> 'r result"
  tl_set_kid :: "string \<Rightarrow> 'k \<Rightarrow> 'k"
  tl_set_alg :: "string \<Rightarrow> 'k \<Rightarrow> 'k"
  tl_new_set :: 's
  tl_add_key :: "'k \<Rightarrow> 's \<Rightarrow> 's result"
  tl_set_json :: "'s \<Rightarrow> bytes result"
  tl_build :: "builder \<Rightarrow> unit result"
  tl_sign_jwt :: "builder \<Rightarrow> string \<Rightarrow> 'k \<Rightarrow> bytes result"
  tl_sign_hmac :: "builder \<Rightarrow> bytes \<Rightarrow> bytes result"
  tl_sign_raw :: "bytes \<Rightarrow> string \<Rightarrow> 'k \<Rightarrow> bytes result"
  tl_export :: "'k \<Rightarrow> 'r result"
  tl_marshal_pkcs8 :: "'r \<Rightarrow> bytes result"
  tl_pem :: "string \<Rightarrow> bytes \<Rightarrow> bytes"

section \<open>Signers (jwktest.go)\<close>

record 'k signer =
  sg_kid :: string
  sg_alg :: string
  sg_private :: 'k
  sg_public :: 'k

definition import_pair :: "('k, 's, 'r) token_lib \<Rightarrow> 'r \<Rightarrow> ('k \<times> 'k) result" where
  "import_pair L raw =
     bind_res (wrap_err ''import priv'' (sl_import L raw)) (\<lambda>priv.
     bind_res (wrap_err ''public of'' (sl_public_of L priv)) (\<lambda>pub.
       Inr (priv, pub)))"

definition new_rsa_signer ::
  "('k, 's, 'r) token_lib \<Rightarrow> string \<Rightarrow> 'p client_world \<Rightarrow> 'k signer result \<times> 'p client_world" where
  "new_rsa_signer L kid w =
     (bind_res (wrap_err ''rsa keygen'' (tl_rsa_key L (cw_rand w (cw_rands w)))) (\<lambda>raw.
      bind_res (import_pair L raw) (\<lambda>(priv, pub).
        let set = (\<lambda>k. tl_set_alg L ''RS256'' (tl_set_kid L kid k)) in
        Inr \<lparr>sg_kid = kid, sg_alg = ''RS256'', sg_private = set priv, sg_public = set pub\<rparr>)),
      w\<lparr>cw_rands := Suc (cw_rands w)\<rparr>)"

definition new_ec_signer ::
  "('k, 's, 'r) token_lib \<Rightarrow> string \<Rightarrow> 'p client_world \<Rightarrow> 'k signer result \<times> 'p client_world" where
  "new_ec_signer L kid w =
     (bind_res (wrap_err ''ec keygen'' (tl_ec_key L (cw_rand w (cw_rands w)))) (\<lambda>raw.
      bind_res (import_pair L raw) (\<lambda>(priv, pub).
        let set = (\<lambda>k. tl_set_alg L ''ES256'' (if kid \<noteq> [] then tl_set_kid L kid k else k)) in
        Inr \<lparr>sg_kid = kid, sg_alg = ''ES256'', sg_private = set priv, sg_public = set pub\<rparr>)),
      w\<lparr>cw_rands := Suc (cw_rands w)\<rparr>)"

text \<open>\<open>Signer.Thumbprint\<close>\<close>

definition signer_thumbprint :: "('k, 's) jose \<Rightarrow> 'k signer \<Rightarrow> string result" where
  "signer_thumbprint J sg =
     bind_res (wrap_err ''thumbprint'' (jwk_thumbprint J (sg_public sg))) (\<lambda>tp. Inr (b64_encode tp))"

section \<open>Forged proofs\<close>

record dpop_claims =
  dc_method :: string
  dc_htu :: string
  dc_ath :: string
  dc_nonce :: string
  dc_jti :: string
  dc_iat :: instant
  dc_typ :: string
  dc_embed_private :: bool

text \<open>The payload, its keys in the order \<open>encoding/json\<close> gives a map.\<close>

definition forged_members :: "string \<Rightarrow> int \<Rightarrow> dpop_claims \<Rightarrow> (string \<times> json) list" where
  "forged_members jti iat c =
     (if dc_ath c \<noteq> [] then [(''ath'', JStr (dc_ath c))] else [])
     @ [(''htm'', JStr (dc_method c)), (''htu'', JStr (dc_htu c)), (''iat'', JNum (format_int iat)), (''jti'', JStr jti)]
     @ (if dc_nonce c \<noteq> [] then [(''nonce'', JStr (dc_nonce c))] else [])"

definition dpop_proof_by ::
  "('k, 's, 'r) token_lib \<Rightarrow> 'k signer \<Rightarrow> dpop_claims \<Rightarrow> 'p client_world \<Rightarrow> bytes result \<times> 'p client_world" where
  "dpop_proof_by L sg c w =
     (let (iat, w1) = (if dc_iat c = zero_time then client_now w else (dc_iat c, w));
          (jti, w2) = (if dc_jti c = [] then random_id w1 else (dc_jti c, w1));
          body = json_print (JObj (forged_members jti (unix_seconds iat) c));
          typ = (if dc_typ c = [] then ''dpop+jwt'' else dc_typ c);
          embedded = (if dc_embed_private c then sg_private sg else sg_public sg)
      in (wrap_err ''sign proof'' (sl_jws_sign L body (sg_alg sg) (sg_private sg) typ embedded), w2))"

section \<open>Key sets and tokens\<close>

definition public_set :: "('k, 's, 'r) token_lib \<Rightarrow> 'k signer \<Rightarrow> 's result" where
  "public_set L sg = wrap_err ''add key'' (tl_add_key L (sg_public sg) (tl_new_set L))"

definition public_jwks :: "('k, 's, 'r) token_lib \<Rightarrow> 'k signer \<Rightarrow> bytes result" where
  "public_jwks L sg = bind_res (public_set L sg) (\<lambda>ks. wrap_err ''marshal jwks'' (tl_set_json L ks))"

text \<open>\<open>Sign\<close> and \<open>SignRaw\<close> always name RS256, \<open>SignClaims\<close> the algorithm of the signer.\<close>

definition sign_token :: "('k, 's, 'r) token_lib \<Rightarrow> 'k signer \<Rightarrow> builder \<Rightarrow> bytes result" where
  "sign_token L sg b =
     bind_res (wrap_err ''build token'' (tl_build L b)) (\<lambda>_.
       wrap_err ''sign token'' (tl_sign_jwt L b ''RS256'' (sg_private sg)))"

definition sign_raw :: "('k, 's, 'r) token_lib \<Rightarrow> 'k signer \<Rightarrow> bytes \<Rightarrow> bytes result" where
  "sign_raw L sg payload = wrap_err ''jws sign'' (tl_sign_raw L payload ''RS256'' (sg_private sg))"

definition sign_claims :: "('k, 's, 'r) token_lib \<Rightarrow> 'k signer \<Rightarrow> (string \<times> json) list \<Rightarrow> bytes result" where
  "sign_claims L sg cs =
     (let b = new_builder\<lparr>jb_claims := cs\<rparr> in
      bind_res (wrap_err ''build claims'' (tl_build L b)) (\<lambda>_.
        wrap_err ''sign claims'' (tl_sign_jwt L b (sg_alg sg) (sg_private sg))))"

definition hs256_token :: "('k, 's, 'r) token_lib \<Rightarrow> bytes \<Rightarrow> builder \<Rightarrow> bytes result" where
  "hs256_token L secret b =
     bind_res (wrap_err ''build'' (tl_build L b)) (\<lambda>_. wrap_err ''hs256 sign'' (tl_sign_hmac L b secret))"

definition cnf_bound ::
  "('k, 's) jose \<Rightarrow> (string \<times> json) list \<Rightarrow> 'k signer \<Rightarrow> (string \<times> json) list result" where
  "cnf_bound J base sg =
     bind_res (signer_thumbprint J sg) (\<lambda>jkt.
       Inr (AList.update ''cnf'' (JObj [(''jkt'', JStr jkt)]) base))"

definition private_pem :: "('k, 's, 'r) token_lib \<Rightarrow> 'k signer \<Rightarrow> bytes result" where
  "private_pem L sg =
     bind_res (wrap_err ''raw key'' (tl_export L (sg_private sg))) (\<lambda>raw.
     bind_res (wrap_err ''marshal pkcs8'' (tl_marshal_pkcs8 L raw)) (\<lambda>der.
       Inr (tl_pem L ''PRIVATE KEY'' der)))"

section \<open>The JWKS server\<close>

record 's jwks_server =
  js_set :: 's
  js_hits :: nat

definition new_jwks_server :: "'s \<Rightarrow> 's jwks_server" where
  "new_jwks_server ks = \<lparr>js_set = ks, js_hits = 0\<rparr>"

definition jwks_hits :: "'s jwks_server \<Rightarrow> nat" where
  "jwks_hits s = js_hits s"

definition set_keys :: "'s \<Rightarrow> 's jwks_server \<Rightarrow> 's jwks_server" where
  "set_keys ks s = s\<lparr>js_set := ks\<rparr>"

definition jwks_url :: "string \<Rightarrow> string" where
  "jwks_url server_url = server_url @ ''/jwks.json''"

text \<open>\<open>http.Error\<close>\<close>

definition http_error :: "string \<Rightarrow> nat \<Rightarrow> response \<Rightarrow> response" where
  "http_error text code w =
     write_body (text @ [CHR 0x0A]) (write_header code
       (set_header ''X-Content-Type-Options'' ''nosniff'' (set_header ''Content-Type'' ''text/plain; charset=utf-8'' w)))"

text \<open>The handler, whatever the request: the response and the next state.\<close>

definition serve_jwks :: "('k, 's, 'r) token_lib \<Rightarrow> 's jwks_server \<Rightarrow> response \<Rightarrow> response \<times> 's jwks_server" where
  "serve_jwks L s w =
     (let s1 = s\<lparr>js_hits := Suc (js_hits s)\<rparr> in
      (case tl_set_json L (js_set s1) of
         Inl e \<Rightarrow> (http_error e 500 w, s1)
       | Inr buf \<Rightarrow> (write_body buf (set_header ''Content-Type'' ''application/json'' w), s1)))"

section \<open>What the token endpoint of the tests has seen\<close>

definition as_last_form :: "exchange_as \<Rightarrow> form_values" where
  "as_last_form s = map (\<lambda>(k, vs). (k, vs)) (sa_last_form s)"

definition as_last_dpop :: "exchange_as \<Rightarrow> string" where
  "as_last_dpop s = sa_last_dpop s"

definition as_last_authorization :: "exchange_as \<Rightarrow> string" where
  "as_last_authorization s = sa_last_auth s"

text \<open>The server counts every request and serves the set it was given last.\<close>

lemma serve_jwks_state:
  "snd (serve_jwks L s w) = s\<lparr>js_hits := Suc (js_hits s)\<rparr>"
  "tl_set_json L ks = Inr buf \<Longrightarrow> fst (serve_jwks L (set_keys ks s) w)
     = write_body buf (set_header ''Content-Type'' ''application/json'' w)"
  by (simp_all add: serve_jwks_def set_keys_def Let_def split: sum.split)

section \<open>What the parser makes of a forged proof\<close>

text \<open>
  What the tests rely on in the JOSE library for a signer: \<open>jws.Sign\<close> puts the type and the key it is
  given into the header, with the algorithm, the signature verifies under the public key, and
  \<open>jwk.IsPrivateKey\<close> tells the two keys apart.
\<close>

definition signs_for :: "('k, 's) jose \<Rightarrow> ('k, 's, 'r) token_lib \<Rightarrow> 'k signer \<Rightarrow> bool" where
  "signs_for J L sg \<longleftrightarrow>
     jwk_private J (sg_public sg) = Inr False \<and> jwk_private J (sg_private sg) = Inr True
     \<and> (\<forall>body typ emb raw. sl_jws_sign L body (sg_alg sg) (sg_private sg) typ emb = Inr raw \<longrightarrow>
          (\<exists>kid. jws_parse J raw
             = Inr [\<lparr>hdr_kid = kid, hdr_alg = Some (sg_alg sg), hdr_typ = Some typ, hdr_jwk = Some emb\<rparr>])
          \<and> jws_verify J raw (sg_alg sg) (sg_public sg) = Inr body)"

lemma ath_keys:
  "key_is ''ath'' ''ath''" "\<not> key_is ''jti'' ''ath''" "\<not> key_is ''htm'' ''ath''" "\<not> key_is ''htu'' ''ath''"
  "\<not> key_is ''iat'' ''ath''"
  by code_simp+

lemma forged_members_ok:
  assumes "utf8 jti" "utf8 (dc_method c)" "utf8 (dc_htu c)" "utf8 (dc_ath c)" "utf8 (dc_nonce c)"
  shows "json_ok (JObj (forged_members jti iat c))" and "json_depth (JObj (forged_members jti iat c)) \<le> max_nesting"
proof -
  have "utf8 ''ath''" "utf8 ''htm''" "utf8 ''htu''" "utf8 ''iat''" "utf8 ''jti''" "utf8 ''nonce''" by code_simp+
  with assms show "json_ok (JObj (forged_members jti iat c))"
    by (simp add: forged_members_def json_number_format_int)
  show "json_depth (JObj (forged_members jti iat c)) \<le> max_nesting"
    by (simp add: forged_members_def max_nesting_def)
qed

lemma decode_forged_members:
  assumes "- (2 ^ 63) \<le> iat" and "iat < 2 ^ 63"
  shows "dec_fields dec_proof_claim (forged_members jti iat c) zero_proof_claims
    = Some \<lparr>pc_jti = jti, pc_htm = dc_method c, pc_htu = dc_htu c, pc_iat = iat, pc_ath = dc_ath c, pc_nonce = dc_nonce c\<rparr>"
  using parse_int64_format_int [OF assms]
  by (simp add: forged_members_def dec_proof_claim_def zero_proof_claims_def proof_keys ath_keys)

text \<open>The jti and the instant a forged proof gets.\<close>

definition forged_jti :: "dpop_claims \<Rightarrow> 'p client_world \<Rightarrow> string" where
  "forged_jti c w = (if dc_jti c = [] then b64_encode (cw_rand w (cw_rands w)) else dc_jti c)"

definition forged_iat :: "dpop_claims \<Rightarrow> 'p client_world \<Rightarrow> instant" where
  "forged_iat c w = (if dc_iat c = zero_time then cw_clock w (cw_tick w) else dc_iat c)"

lemma dpop_proof_by_Inr:
  assumes "dpop_proof_by L sg c w = (Inr raw, w')"
  shows "sl_jws_sign L (json_print (JObj (forged_members (forged_jti c w) (unix_seconds (forged_iat c w)) c)))
      (sg_alg sg) (sg_private sg) (if dc_typ c = [] then ''dpop+jwt'' else dc_typ c)
      (if dc_embed_private c then sg_private sg else sg_public sg) = Inr raw"
  using assms by (auto simp: dpop_proof_by_def forged_jti_def forged_iat_def client_now_def random_id_def)

lemma unix_seconds_range: "- (2 ^ 63) \<le> unix_seconds t" "unix_seconds t < 2 ^ 63"
  unfolding unix_seconds_def by (rule wrap64_range)+

text \<open>Members signed as a proof with the public key parse to what they say.\<close>

lemma signed_members_parse:
  assumes J: "signs_for J L sg" and tp: "jwk_thumbprint J (sg_public sg) = Inr tp" and alg: "sg_alg sg \<in> set algs"
    and u: "utf8 jti" "utf8 (dc_method c)" "utf8 (dc_htu c)" "utf8 (dc_ath c)" "utf8 (dc_nonce c)"
    and iat: "- (2 ^ 63) \<le> iat" "iat < 2 ^ 63"
    and p: "sl_jws_sign L (json_print (JObj (forged_members jti iat c))) (sg_alg sg) (sg_private sg) ''dpop+jwt''
      (sg_public sg) = Inr raw"
  shows "parse_and_verify_proof J raw algs = Inr
      \<lparr>dp_jkt = b64_encode tp, dp_htm = dc_method c, dp_htu = dc_htu c, dp_iat = time_unix iat, dp_jti = jti,
       dp_ath = dc_ath c, dp_nonce = dc_nonce c\<rparr>"
proof -
  let ?body = "json_print (JObj (forged_members jti iat c))"
  obtain kid where s: "jwk_private J (sg_public sg) = Inr False"
    "jws_parse J raw = Inr [\<lparr>hdr_kid = kid, hdr_alg = Some (sg_alg sg), hdr_typ = Some ''dpop+jwt'',
       hdr_jwk = Some (sg_public sg)\<rparr>]"
    "jws_verify J raw (sg_alg sg) (sg_public sg) = Inr ?body"
    using J p unfolding signs_for_def by blast
  have "json_parse ?body = Some (JObj (forged_members jti iat c))"
    using forged_members_ok u by (intro json_parse_print)
  then have "unmarshal dec_proof_claim zero_proof_claims ?body = Some \<lparr>pc_jti = jti, pc_htm = dc_method c,
      pc_htu = dc_htu c, pc_iat = iat, pc_ath = dc_ath c, pc_nonce = dc_nonce c\<rparr>"
    using iat by (simp add: unmarshal_def decode_forged_members)
  then show ?thesis
    by (simp add: parse_and_verify_proof_def s alg tp proof_of_claims_def del: json_print.simps)
qed

text \<open>
  A forged proof passes the parser exactly when its type is the right one and the key in its header is
  the public one; then it says what the test asked for.
\<close>

lemma forged_proof_parses:
  assumes J: "signs_for J L sg" and tp: "jwk_thumbprint J (sg_public sg) = Inr tp" and alg: "sg_alg sg \<in> set algs"
    and u: "utf8 (dc_jti c)" "utf8 (dc_method c)" "utf8 (dc_htu c)" "utf8 (dc_ath c)" "utf8 (dc_nonce c)"
    and p: "dpop_proof_by L sg c w = (Inr raw, w')"
  shows "if dc_typ c \<in> {[], ''dpop+jwt''} \<and> \<not> dc_embed_private c
    then parse_and_verify_proof J raw algs = Inr
      \<lparr>dp_jkt = b64_encode tp, dp_htm = dc_method c, dp_htu = dc_htu c,
       dp_iat = time_unix (unix_seconds (forged_iat c w)), dp_jti = forged_jti c w, dp_ath = dc_ath c, dp_nonce = dc_nonce c\<rparr>
    else \<exists>e. parse_and_verify_proof J raw algs = Inl e"
proof -
  let ?want = "if dc_typ c = [] then ''dpop+jwt'' else dc_typ c"
    and ?emb = "if dc_embed_private c then sg_private sg else sg_public sg"
  have jti: "utf8 (forged_jti c w)" using u(1) by (simp add: forged_jti_def ascii_utf8 [OF b64_ascii])
  note sign = dpop_proof_by_Inr [OF p]
  show ?thesis
  proof (cases "dc_typ c \<in> {[], ''dpop+jwt''} \<and> \<not> dc_embed_private c")
    case True
    then have "?want = ''dpop+jwt''" "?emb = sg_public sg" by auto
    with sign have "sl_jws_sign L (json_print (JObj (forged_members (forged_jti c w) (unix_seconds (forged_iat c w)) c)))
        (sg_alg sg) (sg_private sg) ''dpop+jwt'' (sg_public sg) = Inr raw"
      by (simp only:)
    from signed_members_parse [OF J tp alg jti u(2-5) unix_seconds_range this] True
    show ?thesis by simp
  next
    case False
    obtain kid where "jwk_private J (sg_private sg) = Inr True"
      "jws_parse J raw = Inr [\<lparr>hdr_kid = kid, hdr_alg = Some (sg_alg sg), hdr_typ = Some ?want, hdr_jwk = Some ?emb\<rparr>]"
      using J sign unfolding signs_for_def by blast
    with False alg show ?thesis
      by (cases "dc_typ c = ''dpop+jwt''") (auto simp: parse_and_verify_proof_def)
  qed
qed

end
