(* ===== verification/DpopExample.thy ===== *)
theory DpopExample
  imports TestSigner Metadata ExchangeDemo
begin

text \<open>
  The program of examples/dpop: an authorization server's key, a client with a DPoP key, and a resource
  server that requires DPoP, in one process with one clock. The client calls the server with its bound
  token and a proof, and then with the same token as a plain Bearer token. The program drops the errors
  of the JOSE library; the model ends with the first of them instead.
\<close>

section \<open>The keys\<close>

definition example_resource :: string where "example_resource = ''https://mcp.example.com''"

definition example_issuer :: string where "example_issuer = ''https://idp.example.com''"

text \<open>The key of the authorization server, from random bytes, and the JWKS with its public half.\<close>

definition server_keys :: "('k, 's, 'r) token_lib \<Rightarrow> bytes \<Rightarrow> ('k \<times> bytes) result" where
  "server_keys L seed =
     bind_res (tl_rsa_key L seed) (\<lambda>raw.
     bind_res (sl_import L raw) (\<lambda>k.
     (let priv = tl_set_alg L ''RS256'' (tl_set_kid L ''kid-as'' k) in
      bind_res (sl_public_of L priv) (\<lambda>pub.
      bind_res (tl_add_key L pub (tl_new_set L)) (\<lambda>ks.
      bind_res (tl_set_json L ks) (\<lambda>jwks.
        Inr (priv, jwks)))))))"

text \<open>The DPoP key of the client, as its private and public half and its thumbprint.\<close>

definition client_keys :: "('k, 's) jose \<Rightarrow> ('k, 's, 'r) token_lib \<Rightarrow> bytes \<Rightarrow> ('k \<times> 'k \<times> string) result" where
  "client_keys J L seed =
     bind_res (tl_ec_key L seed) (\<lambda>raw.
     bind_res (sl_import L raw) (\<lambda>k.
     (let priv = tl_set_alg L ''ES256'' k in
      bind_res (sl_public_of L priv) (\<lambda>pub.
      bind_res (jwk_thumbprint J pub) (\<lambda>tp.
        Inr (priv, pub, b64_encode tp))))))"

section \<open>The resource server\<close>

definition example_opts :: "bytes \<Rightarrow> ('s, 'e) bearer_opts" where
  "example_opts jwks = \<lparr>
     bo_jwks_uri = [], bo_keys_jwks = Some jwks, bo_issuer = example_issuer,
     bo_audience = [], bo_resource = example_resource, bo_realm = [],
     bo_required_scopes = [], bo_clock_skew = 0, bo_jwks_cache_ttl = 0,
     bo_allowed_algorithms = [], bo_dpop = DPoPRequired, bo_claim_validator = None,
     bo_error_handler = None, bo_token_lookup = 0, bo_dpop_signing_algs = [],
     bo_dpop_proof_max_age = 0, bo_dpop_replay = None, bo_dpop_nonce = None,
     bo_trust_forwarded_headers = False\<rparr>"

definition hello_caller :: "('s, 'e) next_handler" where
  "hello_caller c r rsp w = (write_body (''hello, DPoP-authenticated caller'' @ [CHR 0x0A]) rsp, w)"

section \<open>The client\<close>

text \<open>\<open>ath\<close> of the example\<close>

definition example_ath :: "string \<Rightarrow> string" where
  "example_ath token = b64_encode (sha256 token)"

text \<open>\<open>t.UnixNano()\<close>: nanoseconds since the epoch, in an \<open>int64\<close>.\<close>

definition unix_nanos :: "instant \<Rightarrow> int" where
  "unix_nanos t = wrap64 (t - unix_to_internal * nanos)"

text \<open>\<open>makeProof\<close>: the clock is read for the jti and then for the iat.\<close>

definition make_proof ::
  "('k, 's, 'r) token_lib \<Rightarrow> 'k \<Rightarrow> 'k \<Rightarrow> string \<Rightarrow> string \<Rightarrow> string \<Rightarrow> ('s, 'e) world
     \<Rightarrow> bytes result \<times> ('s, 'e) world" where
  "make_proof L priv pub htm htu ath w =
     (let (t1, w1) = now w; (t2, w2) = now w1;
          body = json_print (JObj [(''ath'', JStr ath), (''htm'', JStr htm), (''htu'', JStr htu),
            (''iat'', JNum (format_int (unix_seconds t2))), (''jti'', JStr (format_int (unix_nanos t1)))])
      in (sl_jws_sign L body ''ES256'' priv ''dpop+jwt'' pub, w2))"

definition bound_builder :: "string \<Rightarrow> instant \<Rightarrow> builder" where
  "bound_builder jkt t = new_builder\<lparr>jb_issuer := Some example_issuer, jb_audience := Some [example_resource],
     jb_subject := Some ''user-1'', jb_expiration := Some (time_add t (minutes 60)),
     jb_claims := [(''cnf'', JObj [(''jkt'', JStr jkt)])]\<rparr>"

definition mint_token :: "('k, 's, 'r) token_lib \<Rightarrow> 'k \<Rightarrow> string \<Rightarrow> ('s, 'e) world \<Rightarrow> string result \<times> ('s, 'e) world" where
  "mint_token L priv jkt w =
     (let (t, w1) = now w; b = bound_builder jkt t in
      (bind_res (tl_build L b) (\<lambda>_. tl_sign_jwt L b ''RS256'' priv), w1))"

text \<open>
  A request as the server gets it over TLS: the headers the client set, and those its transport adds.
\<close>

record wire =
  wire_host :: string
  wire_addr :: string
  wire_added :: "(string \<times> string) list"

definition post_mcp :: "wire \<Rightarrow> (string \<times> string) list \<Rightarrow> request" where
  "post_mcp n hs = \<lparr>req_method = ''POST'', req_path = ''/mcp'', req_host = wire_host n, req_tls = True,
     req_header = header_of (hs @ wire_added n), req_remote_addr = wire_addr n\<rparr>"

section \<open>The program\<close>

definition two_calls ::
  "('k, 's) jose \<Rightarrow> ('s, 'e) bearer_mw \<Rightarrow> wire \<Rightarrow> string \<Rightarrow> string \<Rightarrow> ('s, 'e) world
     \<Rightarrow> (response \<times> response) \<times> ('s, 'e) world" where
  "two_calls J mw n tok proof_text w =
     (let (r1, w1) = handler J mw hello_caller
            (post_mcp n [(''Authorization'', ''DPoP '' @ tok), (''DPoP'', proof_text)]) new_response w;
          (r2, w2) = handler J mw hello_caller
            (post_mcp n [(''Authorization'', ''Bearer '' @ tok)]) new_response w1
      in ((r1, r2), w2))"

text \<open>\<open>main\<close>: the two responses whose status and challenge it prints.\<close>

definition dpop_example ::
  "('k, 's) jose \<Rightarrow> ('k, 's, 'r) token_lib \<Rightarrow> bytes \<Rightarrow> bytes \<Rightarrow> wire \<Rightarrow> ('s, 'e) world
     \<Rightarrow> (response \<times> response) result \<times> ('s, 'e) world" where
  "dpop_example J L seed1 seed2 n w =
     (case bind_res (server_keys L seed1) (\<lambda>a. bind_res (client_keys J L seed2) (\<lambda>c. Inr (a, c))) of
        Inl e \<Rightarrow> (Inl e, w)
      | Inr ((as_priv, jwks), (c_priv, c_pub, jkt)) \<Rightarrow>
          (case require_bearer J (example_opts jwks) w of
             (Inl e, w1) \<Rightarrow> (Inl e, w1)
           | (Inr mw, w1) \<Rightarrow>
               (case mint_token L as_priv jkt w1 of
                  (Inl e, w2) \<Rightarrow> (Inl e, w2)
                | (Inr tok, w2) \<Rightarrow>
                    (case make_proof L c_priv c_pub ''POST'' (''https://'' @ wire_host n @ ''/mcp'') (example_ath tok) w2 of
                       (Inl e, w3) \<Rightarrow> (Inl e, w3)
                     | (Inr proof_text, w3) \<Rightarrow>
                         (let (rs, w4) = two_calls J mw n tok proof_text w3 in (Inr rs, w4))))))"

section \<open>What it relies on\<close>

text \<open>What \<open>jwt.Parse\<close> reads back from a built token: dates in whole seconds.\<close>

definition token_of :: "builder \<Rightarrow> jwt_token" where
  "token_of b = \<lparr>tok_subject = jb_subject b, tok_issuer = jb_issuer b, tok_audience = jb_audience b,
     tok_expiration = map_option (\<lambda>e. time_unix (unix_seconds e)) (jb_expiration b),
     tok_issued_at = None, tok_not_before = None, tok_claim = map_of (jb_claims b)\<rparr>"

definition payload_members :: "builder \<Rightarrow> (string \<times> json) list" where
  "payload_members b =
     (case jb_audience b of None \<Rightarrow> [] | Some a \<Rightarrow> [(''aud'', JArr (map JStr a))]) @ jb_claims b
     @ (case jb_expiration b of None \<Rightarrow> [] | Some e \<Rightarrow> [(''exp'', JNum (format_int (unix_seconds e)))])
     @ (case jb_issuer b of None \<Rightarrow> [] | Some i \<Rightarrow> [(''iss'', JStr i)])
     @ (case jb_subject b of None \<Rightarrow> [] | Some u \<Rightarrow> [(''sub'', JStr u)])"

text \<open>
  A key signs tokens that verify under a JWKS: \<open>jwt.Sign\<close> writes the compact form with the claims as a
  JSON object, in some order, names the algorithm in the header, and \<open>jwt.Parse\<close> accepts the token with
  its issuer while it has not expired.
\<close>

definition compact_token :: "builder \<Rightarrow> string \<Rightarrow> bool" where
  "compact_token b tok \<longleftrightarrow> (\<exists>h ms sig.
     tok = b64_encode h @ ''.'' @ b64_encode (json_print (JObj ms)) @ ''.'' @ b64_encode sig
     \<and> h \<noteq> [] \<and> sig \<noteq> [] \<and> distinct ms \<and> set ms = set (payload_members b))"

definition issues :: "('k, 's) jose \<Rightarrow> ('k, 's, 'r) token_lib \<Rightarrow> 'k \<Rightarrow> bytes \<Rightarrow> bool" where
  "issues J L priv jwks \<longleftrightarrow>
     (\<exists>ks. jwk_parse J jwks = Inr ks
       \<and> (\<forall>b tok. tl_sign_jwt L b ''RS256'' priv = Inr tok \<longrightarrow>
            compact_token b tok \<and> (\<exists>kid. header_kid_alg J tok = Inr (kid, ''RS256''))
            \<and> (\<forall>iss skew t. jb_issuer b = Some iss
                 \<and> (\<forall>e. tok_expiration (token_of b) = Some e \<longrightarrow> t - skew < e)
                 \<longrightarrow> jwt_parse J tok ks iss skew t = Inr (token_of b))))"

text \<open>The JOSE library for the two keys of the example, and the token built at \<open>t\<close>.\<close>

definition example_jose :: "('k, 's) jose \<Rightarrow> ('k, 's, 'r) token_lib \<Rightarrow> bytes \<Rightarrow> bytes \<Rightarrow> instant \<Rightarrow> bool" where
  "example_jose J L seed1 seed2 t \<longleftrightarrow>
     (\<forall>a \<in> {''RS256'', ''ES256'', ''EdDSA''}. jwa_lookup J a = Some False)
     \<and> (\<exists>as_priv jwks c_priv c_pub jkt tok.
          server_keys L seed1 = Inr (as_priv, jwks) \<and> issues J L as_priv jwks
          \<and> client_keys J L seed2 = Inr (c_priv, c_pub, jkt) \<and> jkt \<noteq> []
          \<and> signs_for J L \<lparr>sg_kid = [], sg_alg = ''ES256'', sg_private = c_priv, sg_public = c_pub\<rparr>
          \<and> (\<forall>body. \<exists>raw. sl_jws_sign L body ''ES256'' c_priv ''dpop+jwt'' c_pub = Inr raw)
          \<and> tl_build L (bound_builder jkt t) = Inr ()
          \<and> tl_sign_jwt L (bound_builder jkt t) ''RS256'' as_priv = Inr tok)"

text \<open>The server is named by a host that is part of a URL, and the transport adds neither header.\<close>

definition wire_ok :: "wire \<Rightarrow> bool" where
  "wire_ok n \<longleftrightarrow> ascii (wire_host n) \<and> url_parse (''https://'' @ wire_host n @ ''/mcp'') \<noteq> None
     \<and> (\<forall>(k, v) \<in> set (wire_added n). canonical_key k \<notin> {''Authorization'', ''Dpop''})"

text \<open>The nine readings of the clock up to the second answer are less than a minute apart.\<close>

definition swift :: "instant \<Rightarrow> ('s, 'e) world \<Rightarrow> bool" where
  "swift t w \<longleftrightarrow> 0 \<le> t \<and> t + minutes 120 < 2 ^ 62 * nanos
     \<and> (\<forall>i \<in> {w_tick w .. w_tick w + 8}. t \<le> w_clock w i \<and> w_clock w i \<le> t + 59 * second)"

section \<open>The token\<close>

lemma quote_safe:
  assumes "\<forall>c \<in> set s. 32 \<le> byte c \<and> byte c < 127 \<and> byte c \<noteq> 34 \<and> byte c \<noteq> 92"
  shows "quote up s = dquote # s @ [dquote]"
proof -
  have "ascii s" using assms by (auto simp: ascii_def)
  moreover have "concat (map (\<lambda>c. quote_rune up (byte c, [c])) s) = s"
    using assms by (induction s) (auto simp: quote_rune_def is_print_def)
  ultimately show ?thesis by (simp add: quote_def runes_ascii comp_def)
qed

lemma dec_cnf_none: "\<forall>p \<in> set ms. \<not> key_is ''cnf'' (fst p) \<Longrightarrow> dec_fields dec_payload_cnf ms x = Some x"
  by (induction ms) (auto simp: dec_payload_cnf_def)

lemma extract_cnf_members:
  assumes "json_ok (JObj ms)" and "json_depth (JObj ms) \<le> max_nesting" and "distinct ms"
    and "(''cnf'', JObj [(''jkt'', JStr j)]) \<in> set ms"
    and "\<forall>p \<in> set ms. key_is ''cnf'' (fst p) \<longrightarrow> p = (''cnf'', JObj [(''jkt'', JStr j)])"
  shows "extract_cnf (json_print (JObj ms)) = j"
proof -
  let ?p = "(''cnf'', JObj [(''jkt'', JStr j)])"
  obtain as bs where ms: "ms = as @ ?p # bs" using split_list assms(4) by metis
  have "?p \<notin> set as" "?p \<notin> set bs" using assms(3) unfolding ms by simp_all
  then have "\<forall>p \<in> set as. \<not> key_is ''cnf'' (fst p)" "\<forall>p \<in> set bs. \<not> key_is ''cnf'' (fst p)"
    using assms(5) unfolding ms set_append list.set by blast+
  moreover have "key_is ''cnf'' ''cnf''" "key_is ''jkt'' ''jkt''" by code_simp+
  ultimately have "dec_fields dec_payload_cnf ms [] = Some j"
    by (simp add: ms dec_fields_append dec_cnf_none) (simp add: dec_payload_cnf_def dec_cnf_def dec_cnf_none)
  moreover have "json_print (JObj ms) \<noteq> []" by simp
  ultimately show ?thesis
    using json_parse_print [OF assms(1,2)]
    by (simp add: extract_cnf_def unmarshal_def or_zero_def del: json_print.simps)
qed

lemma bound_members:
  assumes "set ms = set (payload_members (bound_builder (b64_encode tp) t))" and "distinct ms"
  shows "extract_cnf (json_print (JObj ms)) = b64_encode tp"
proof (rule extract_cnf_members)
  have u: "utf8 ''aud''" "utf8 ''cnf''" "utf8 ''exp''" "utf8 ''iss''" "utf8 ''sub''" "utf8 ''jkt''" "utf8 ''user-1''"
    "utf8 example_issuer" "utf8 example_resource"
    by code_simp+
  have m: "set ms = {(''aud'', JArr [JStr example_resource]), (''cnf'', JObj [(''jkt'', JStr (b64_encode tp))]),
      (''exp'', JNum (format_int (unix_seconds (time_add t (minutes 60))))), (''iss'', JStr example_issuer),
      (''sub'', JStr ''user-1'')}"
    unfolding assms(1) by (simp add: payload_members_def bound_builder_def new_builder_def)
  show "json_ok (JObj ms)"
    by (simp add: list_all_iff m u json_number_format_int ascii_utf8 [OF b64_ascii])
  have "json_depth (JObj ms) \<le> Suc 1" unfolding json_depth_obj m by simp
  then show "json_depth (JObj ms) \<le> max_nesting" by (simp add: max_nesting_def)
  show "distinct ms" by (rule assms(2))
  show "(''cnf'', JObj [(''jkt'', JStr (b64_encode tp))]) \<in> set ms" by (simp add: m)
  have "\<not> key_is ''cnf'' ''aud''" "\<not> key_is ''cnf'' ''exp''" "\<not> key_is ''cnf'' ''iss''" "\<not> key_is ''cnf'' ''sub''"
    by code_simp+
  then show "\<forall>p \<in> set ms. key_is ''cnf'' (fst p) \<longrightarrow> p = (''cnf'', JObj [(''jkt'', JStr (b64_encode tp))])"
    by (simp add: m)
qed

lemma client_keys_Inr:
  "client_keys J L seed = Inr (priv, pub, jkt) \<Longrightarrow> \<exists>tp. jkt = b64_encode tp \<and> jwk_thumbprint J pub = Inr tp"
  by (auto simp: client_keys_def Let_def)

section \<open>The server and the requests\<close>

definition example_meta :: string where
  "example_meta = ''https://mcp.example.com/.well-known/oauth-protected-resource''"

text \<open>The middleware, with the replay cache as an argument: the example takes the default one.\<close>

definition example_server ::
  "(string \<Rightarrow> instant \<Rightarrow> ('s, 'e) world \<Rightarrow> bool result \<times> ('s, 'e) world) \<Rightarrow> ('k, 's) jose \<Rightarrow> 's \<Rightarrow> ('s, 'e) bearer_mw" where
  "example_server cache J ks = \<lparr>
     mw_keys = static_lookup ks, mw_issuer = example_issuer, mw_audiences = [example_resource],
     mw_resource = example_resource, mw_required_scope = [], mw_skew = 60 * second,
     mw_algs = [''EdDSA'', ''ES256'', ''RS256''], mw_claim_val = None,
     mw_on_error = (\<lambda>_. default_error_handler (uprint J) example_resource example_meta),
     mw_dpop_mode = DPoPRequired, mw_dpop_algs = [''EdDSA'', ''RS256'', ''ES256''],
     mw_dpop_algs_list = [''ES256'', ''RS256'', ''EdDSA''], mw_proof_max_age = 60 * second,
     mw_replay = cache, mw_nonce = None, mw_trust_fwd = False\<rparr>"

abbreviation example_mw :: "('k, 's) jose \<Rightarrow> 's \<Rightarrow> ('s, 'e) bearer_mw" where
  "example_mw \<equiv> example_server mem_seen"

lemma example_configure_with:
  assumes "\<forall>a \<in> {''RS256'', ''ES256'', ''EdDSA''}. jwa_lookup J a = Some False" and "jwk_parse J jwks = Inr ks"
  shows "configure J (example_opts jwks\<lparr>bo_dpop_replay := cache\<rparr>)
    = Inr (example_server (case cache of Some c \<Rightarrow> c | None \<Rightarrow> mem_seen) J ks)"
proof -
  have p: "metadata_path_for example_resource = Inr ''/.well-known/oauth-protected-resource''" by code_simp
  have m: "resource_metadata_url example_resource ''/.well-known/oauth-protected-resource'' = example_meta"
    by code_simp
  have r: "example_resource \<noteq> []" "example_issuer \<noteq> []" by (simp_all add: example_resource_def example_issuer_def)
  have algs: "parse_algs J [] = Inr [''EdDSA'', ''ES256'', ''RS256'']"
    "parse_algs J [''ES256'', ''RS256'', ''EdDSA''] = Inr [''EdDSA'', ''RS256'', ''ES256'']"
    using assms(1) by (simp_all add: parse_algs_def)
  have d: "derive_challenge_params (example_opts jwks\<lparr>bo_dpop_replay := cache\<rparr>) = (example_resource, example_meta)"
    using r p m by (simp add: derive_challenge_params_def example_opts_def)
  show ?thesis
    unfolding configure_def d
    by (simp add: validate_bearer_opts_def resolve_key_source_def build_dpop_runtime_def accepted_audiences_def
        example_server_def algs example_opts_def Let_def assms(2) r)
qed

lemma example_configure:
  assumes "\<forall>a \<in> {''RS256'', ''ES256'', ''EdDSA''}. jwa_lookup J a = Some False" and "jwk_parse J jwks = Inr ks"
  shows "configure J (example_opts jwks) = Inr (example_mw J ks)"
  using example_configure_with [OF assms, of None] by (simp add: example_opts_def)

lemma added_elsewhere:
  assumes "\<forall>(k, v) \<in> set hs. canonical_key k \<noteq> c"
  shows "fold (\<lambda>(k, v). header_add k v) hs h c = h c"
  using assms by (induction hs arbitrary: h) (auto simp: header_add_def split_beta)

lemma post_headers:
  assumes "wire_ok n"
  shows "header_values (req_header (post_mcp n [(''Authorization'', a), (''DPoP'', p)])) ''Authorization'' = [a]"
    and "header_values (req_header (post_mcp n [(''Authorization'', a), (''DPoP'', p)])) ''DPoP'' = [p]"
    and "header_values (req_header (post_mcp n [(''Authorization'', a)])) ''Authorization'' = [a]"
proof -
  have k: "canonical_key ''Authorization'' = ''Authorization''" "canonical_key ''DPoP'' = ''Dpop''"
    by code_simp+
  have e: "fold (\<lambda>(k, v). header_add k v) (wire_added n) h ''Authorization'' = h ''Authorization''"
    "fold (\<lambda>(k, v). header_add k v) (wire_added n) h ''Dpop'' = h ''Dpop''" for h
    using assms unfolding wire_ok_def by (auto intro!: added_elsewhere)
  show "header_values (req_header (post_mcp n [(''Authorization'', a), (''DPoP'', p)])) ''Authorization'' = [a]"
    "header_values (req_header (post_mcp n [(''Authorization'', a), (''DPoP'', p)])) ''DPoP'' = [p]"
    "header_values (req_header (post_mcp n [(''Authorization'', a)])) ''Authorization'' = [a]"
    by (simp_all add: header_values_def post_mcp_def header_of_def k e) (simp_all add: header_add_def k no_header_def)
qed

lemma post_htu:
  "request_htu (post_mcp n hs) (mw_trust_fwd (example_server cache J ks)) = ''https://'' @ wire_host n @ ''/mcp''"
  by (simp add: request_htu_def post_mcp_def example_server_def Let_def)

lemma b64_visible: "c \<in> set (b64_encode x) \<Longrightarrow> 33 \<le> byte c"
proof -
  have "33 \<le> byte (b64_char d)" if "d < 64" for d
    using that by (auto simp: b64_char_def)
  then show "c \<in> set (b64_encode x) \<Longrightarrow> 33 \<le> byte c"
    unfolding b64_encode_digits using b64_digits_lt by auto
qed

lemma b64_encode_Nil_iff: "b64_encode x = [] \<longleftrightarrow> x = []"
  by (induction x rule: b64_encode.induct) simp_all

lemma compact_trim:
  assumes "compact_token b tok"
  shows "tok \<noteq> []" and "trim_space tok = tok"
proof -
  obtain h p sig where tok: "tok = b64_encode h @ ''.'' @ b64_encode p @ ''.'' @ b64_encode sig"
    and ne: "b64_encode h \<noteq> []" "b64_encode sig \<noteq> []"
    using assms unfolding compact_token_def b64_encode_Nil_iff by blast
  show "tok \<noteq> []" using ne by (simp add: tok)
  have "hd tok \<in> set (b64_encode h)" "last tok \<in> set (b64_encode sig)" using ne by (simp_all add: tok)
  then have "33 \<le> byte (hd tok)" "33 \<le> byte (last tok)" by (auto intro: b64_visible)
  moreover have "ascii tok" by (simp add: tok b64_ascii)
  ultimately show "trim_space tok = tok" using \<open>tok \<noteq> []\<close> by (intro trim_space_id)
qed

lemma post_extract:
  assumes "wire_ok n" and "compact_token b tok"
  shows "extract_token (post_mcp n [(''Authorization'', ''DPoP '' @ tok), (''DPoP'', p)]) = Some (''DPoP'', tok)"
    and "extract_token (post_mcp n [(''Authorization'', ''Bearer '' @ tok)]) = Some (''Bearer'', tok)"
proof -
  have f: "equal_fold ''Bearer'' ''Bearer''" "\<not> equal_fold ''DPoP'' ''Bearer''" "equal_fold ''DPoP'' ''DPoP''"
    by code_simp+
  show "extract_token (post_mcp n [(''Authorization'', ''DPoP '' @ tok), (''DPoP'', p)]) = Some (''DPoP'', tok)"
    "extract_token (post_mcp n [(''Authorization'', ''Bearer '' @ tok)]) = Some (''Bearer'', tok)"
    by (simp_all add: extract_token_def post_headers [OF assms(1)] compact_trim [OF assms(2)] f numeral_2_eq_2)
qed

section \<open>The proof\<close>

lemma nat_digits_ascii: "ascii (nat_digits n)"
  by (induction n rule: nat_digits.induct)
    (subst nat_digits.simps, auto simp: digit_char_def ascii_def)

lemma format_int_ascii: "ascii (format_int i)"
  using nat_digits_ascii by (simp add: format_int_def)

lemma floor_second:
  assumes "sane_time t"
  shows "time_unix (unix_seconds t) \<le> t" and "t < time_unix (unix_seconds t) + second"
    and "sane_time (time_unix (unix_seconds t))"
proof -
  have f: "t div nanos * nanos \<le> t" "t < t div nanos * nanos + nanos" by (simp_all add: nanos_def)
  then have b: "0 \<le> t div nanos" "t div nanos < 2 ^ 62"
    using assms unfolding sane_time_def nanos_def by linarith+
  then have e: "time_unix (unix_seconds t) = t div nanos * nanos"
    unfolding unix_seconds_def time_unix_def by (subst wrap64_id; simp add: unix_to_internal_def wrap64_id)
  show "time_unix (unix_seconds t) \<le> t" "t < time_unix (unix_seconds t) + second" using f e by simp_all
  show "sane_time (time_unix (unix_seconds t))" using b unfolding e sane_time_def by (simp add: nanos_def)
qed

lemma make_proof_parses:
  assumes J: "signs_for J L \<lparr>sg_kid = [], sg_alg = ''ES256'', sg_private = priv, sg_public = pub\<rparr>"
    and tp: "jwk_thumbprint J pub = Inr tp" and alg: "''ES256'' \<in> set algs"
    and u: "ascii htm" "ascii htu" "ascii ath" and ne: "ath \<noteq> []"
    and p: "make_proof L priv pub htm htu ath w = (Inr raw, w')"
  shows "parse_and_verify_proof J raw algs = Inr
      \<lparr>dp_jkt = b64_encode tp, dp_htm = htm, dp_htu = htu,
       dp_iat = time_unix (unix_seconds (w_clock w (Suc (w_tick w)))),
       dp_jti = format_int (unix_nanos (w_clock w (w_tick w))), dp_ath = ath, dp_nonce = []\<rparr>"
    and "w' = w\<lparr>w_tick := w_tick w + 2\<rparr>"
proof -
  let ?c = "\<lparr>dc_method = htm, dc_htu = htu, dc_ath = ath, dc_nonce = [], dc_jti = [], dc_iat = 0, dc_typ = [],
    dc_embed_private = False\<rparr>"
  let ?jti = "format_int (unix_nanos (w_clock w (w_tick w)))" and ?iat = "unix_seconds (w_clock w (Suc (w_tick w)))"
  let ?sg = "\<lparr>sg_kid = [], sg_alg = ''ES256'', sg_private = priv, sg_public = pub\<rparr>"
  have "sl_jws_sign L (json_print (JObj (forged_members ?jti ?iat ?c))) (sg_alg ?sg) (sg_private ?sg) ''dpop+jwt''
      (sg_public ?sg) = Inr raw"
    using p ne by (simp add: make_proof_def now_def forged_members_def del: json_print.simps)
  from signed_members_parse [where tp = tp and algs = algs, OF J _ _ _ _ _ _ _ unix_seconds_range this] tp alg u
  show "parse_and_verify_proof J raw algs = Inr
      \<lparr>dp_jkt = b64_encode tp, dp_htm = htm, dp_htu = htu, dp_iat = time_unix ?iat, dp_jti = ?jti, dp_ath = ath,
       dp_nonce = []\<rparr>"
    by (simp add: ascii_utf8 format_int_ascii del: json_print.simps)
  show "w' = w\<lparr>w_tick := w_tick w + 2\<rparr>" using p by (auto simp: make_proof_def now_def)
qed

lemma example_verify:
  assumes "header_kid_alg J tok = Inr (kid, ''RS256'')"
    and "jwt_parse J tok ks example_issuer (60 * second) (w_clock w (w_tick w)) = Inr t"
  shows "verify J (verifier_of (example_server cache J ks)) tok w = (Inr (new_claims t tok), w\<lparr>w_tick := Suc (w_tick w)\<rparr>)"
  using assms by (simp add: verify_def example_server_def static_lookup_def now_def)

lemma example_claims:
  assumes "compact_token (bound_builder (b64_encode tp) t) tok"
  defines "c \<equiv> new_claims (token_of (bound_builder (b64_encode tp) t)) tok"
  shows "bound_key_thumbprint c = b64_encode tp" and "claims_ok (example_server cache J ks) c"
proof -
  obtain h ms sig where m: "tok = b64_encode h @ ''.'' @ b64_encode (json_print (JObj ms)) @ ''.'' @ b64_encode sig"
    "distinct ms" "set ms = set (payload_members (bound_builder (b64_encode tp) t))"
    using assms(1) unfolding compact_token_def by blast
  have "token_payload tok = json_print (JObj ms)" unfolding m(1) by (rule token_payload_compact)
  then show "bound_key_thumbprint c = b64_encode tp"
    using bound_members [OF m(3,2)] by (simp add: bound_key_thumbprint_def c_def del: json_print.simps)
  show "claims_ok (example_server cache J ks) c"
    by (simp add: claims_ok_def c_def example_server_def token_of_def bound_builder_def new_builder_def or_zero_def)
qed

section \<open>The two calls\<close>

text \<open>What the calls share: the token, its claims and the server.\<close>

definition example_token :: "('k, 's) jose \<Rightarrow> 's \<Rightarrow> bytes \<Rightarrow> instant \<Rightarrow> string \<Rightarrow> ('s, 'e) world \<Rightarrow> bool" where
  "example_token J ks tp t tok w \<longleftrightarrow>
     tp \<noteq> [] \<and> compact_token (bound_builder (b64_encode tp) t) tok
     \<and> (\<exists>kid. header_kid_alg J tok = Inr (kid, ''RS256''))
     \<and> jwt_parse J tok ks example_issuer (60 * second) (w_clock w (w_tick w))
         = Inr (token_of (bound_builder (b64_encode tp) t))"

abbreviation example_caller :: "bytes \<Rightarrow> instant \<Rightarrow> string \<Rightarrow> claims" where
  "example_caller tp t tok \<equiv> new_claims (token_of (bound_builder (b64_encode tp) t)) tok"

lemma example_admits:
  assumes n: "wire_ok n" and tok: "example_token J ks tp t tok w" 
    and jti: "jti_ok (example_server cache J ks) \<lparr>dp_jkt = b64_encode tp, dp_htm = ''POST'',
       dp_htu = ''https://'' @ wire_host n @ ''/mcp'', dp_iat = i, dp_jti = j, dp_ath = ath_for tok, dp_nonce = []\<rparr>
      (w\<lparr>w_tick := w_tick w + 2\<rparr>) w'"
    and p: "parse_and_verify_proof J raw [''EdDSA'', ''RS256'', ''ES256''] = Inr
      \<lparr>dp_jkt = b64_encode tp, dp_htm = ''POST'', dp_htu = ''https://'' @ wire_host n @ ''/mcp'', dp_iat = i,
       dp_jti = j, dp_ath = ath_for tok, dp_nonce = []\<rparr>"
    and j: "j \<noteq> []" and i: "time_add (w_clock w (Suc (w_tick w))) (- (60 * second)) \<le> i"
    "i \<le> time_add (w_clock w (Suc (w_tick w))) (60 * second)"
  shows "admits J (example_server cache J ks) (post_mcp n [(''Authorization'', ''DPoP '' @ tok), (''DPoP'', raw)])
      ''DPoP'' tok (example_caller tp t tok) w w'"
proof -
  let ?mw = "example_server cache J ks" and ?c = "example_caller tp t tok"
    and ?r = "post_mcp n [(''Authorization'', ''DPoP '' @ tok), (''DPoP'', raw)]"
  let ?p = "\<lparr>dp_jkt = b64_encode tp, dp_htm = ''POST'', dp_htu = ''https://'' @ wire_host n @ ''/mcp'', dp_iat = i,
       dp_jti = j, dp_ath = ath_for tok, dp_nonce = []\<rparr>"
  let ?w1 = "w\<lparr>w_tick := Suc (w_tick w)\<rparr>" and ?w2 = "w\<lparr>w_tick := w_tick w + 2\<rparr>"
  obtain kid where k: "tp \<noteq> []" "compact_token (bound_builder (b64_encode tp) t) tok"
    "header_kid_alg J tok = Inr (kid, ''RS256'')"
    "jwt_parse J tok ks example_issuer (60 * second) (w_clock w (w_tick w))
       = Inr (token_of (bound_builder (b64_encode tp) t))"
    using tok unfolding example_token_def by blast
  have mw: "mw_dpop_mode ?mw = DPoPRequired" "mw_claim_val ?mw = None" "mw_nonce ?mw = None"
    "mw_dpop_algs ?mw = [''EdDSA'', ''RS256'', ''ES256'']"
    "mw_proof_max_age ?mw = 60 * second" "mw_skew ?mw = 60 * second"
    by (simp_all add: example_server_def)
  have nonce: "nonce_ok ?mw ?r ?p ?w2 ?w2" by (simp add: nonce_ok_def mw)
  have htu: "htu_equal (''https://'' @ wire_host n @ ''/mcp'') (''https://'' @ wire_host n @ ''/mcp'')"
    using n unfolding wire_ok_def htu_equal_def by (auto split: option.splits)
  have fits: "proof_fits ?mw ?r tok ?c ?p (w_clock w (Suc (w_tick w)))"
    using i j htu unfolding proof_fits_def post_htu mw
    by (simp add: post_mcp_def example_claims(1) [OF k(2)] del: append.simps)
  have "proves J (mw_dpop_algs ?mw) raw ?p" unfolding mw using p by (simp only: parse_and_verify_proof_Inr)
  then have "proof_ok J ?mw ?r tok ?c raw ?p ?w1 w'"
    unfolding proof_ok_def using fits jti nonce
    by (intro conjI exI [of _ ?w2]) (simp_all add: post_headers [OF n])
  moreover have "bound_key_thumbprint ?c \<noteq> []"
    using k(1) unfolding example_claims(1) [OF k(2)] by (simp add: b64_encode_Nil_iff)
  ultimately have "sender_ok J ?mw ?r tok ?c ''DPoP'' (?w1\<lparr>w_ext := w_ext w\<rparr>) w'"
    unfolding sender_ok_def mw by auto
  note met = post_extract(1) [OF n k(2)] example_claims(2) [OF k(2)] example_verify [OF k(3,4)] this
  show ?thesis
    unfolding admits_def
    by (intro conjI exI [of _ ?w1] exI [of _ "w_ext w"]) (rule met | simp add: validator_ok_def mw)+
qed

text \<open>The default cache has not seen the jti.\<close>

lemma example_unseen:
  assumes "w_mem w = new_mem_replay"
  shows "\<exists>w'. jti_ok (example_mw J ks) p (w\<lparr>w_tick := w_tick w + 2\<rparr>) w' \<and> w_clock w' = w_clock w \<and> w_tick w' = w_tick w + 3"
proof -
  let ?e = "time_add (dp_iat p) (60 * second)"
  let ?seen = "seen_at (w_clock w (w_tick w + 2)) (dp_jti p) ?e new_mem_replay"
  have "\<not> fst ?seen" by (simp add: fst_seen_at new_mem_replay_def)
  then have "jti_ok (example_mw J ks) p (w\<lparr>w_tick := w_tick w + 2\<rparr>) (w\<lparr>w_tick := w_tick w + 3, w_mem := snd ?seen\<rparr>)"
    by (simp add: jti_ok_def example_server_def mem_seen_def now_def assms split_beta)
  then show ?thesis by (intro exI conjI, assumption) simp_all
qed

lemma emit_clock: "w_clock (emit mw r ev c w) = w_clock w" "w_tick (emit mw r ev c w) = Suc (w_tick w)"
  by (simp_all add: emit_def emit_event_def Let_def now_def)

text \<open>The call with the proof is answered by the next handler.\<close>

lemma first_call:
  assumes "admits J mw r ''DPoP'' tok c w w2" and "w_clock w2 = w_clock w" and "w_tick w2 = w_tick w + 3"
  shows "\<exists>w'. handler J mw hello_caller r new_response w
      = (write_body (''hello, DPoP-authenticated caller'' @ [CHR 0x0A]) new_response, w')
    \<and> w_clock w' = w_clock w \<and> w_tick w' = w_tick w + 5"
proof -
  have "guard J mw r new_response w = (Some c, new_response, allow_events mw r c ''DPoP'' w2)"
    using assms(1) unfolding guard_Some by blast
  then show ?thesis
    using assms(2,3)
    by (simp add: handler_def hello_caller_def allow_events_def emit_clock Let_def)
qed

text \<open>The call without it is told to use DPoP.\<close>

lemma second_call:
  assumes n: "wire_ok n" and tok: "example_token J ks tp t tok w"
  shows "fst (handler J (example_mw J ks) hello_caller (post_mcp n [(''Authorization'', ''Bearer '' @ tok)])
      new_response w)
    = default_error_handler (uprint J) example_resource example_meta
        (AuthError (errWrongScheme [''ES256'', ''RS256'', ''EdDSA''])) new_response"
proof -
  let ?mw = "example_mw J ks" and ?c = "example_caller tp t tok"
    and ?r = "post_mcp n [(''Authorization'', ''Bearer '' @ tok)]"
  obtain kid where k: "compact_token (bound_builder (b64_encode tp) t) tok"
    "header_kid_alg J tok = Inr (kid, ''RS256'')"
    "jwt_parse J tok ks example_issuer (60 * second) (w_clock w (w_tick w))
       = Inr (token_of (bound_builder (b64_encode tp) t))"
    using tok unfolding example_token_def by blast
  have mw: "mw_dpop_mode ?mw = DPoPRequired" "mw_claim_val ?mw = None"
    "mw_dpop_algs_list ?mw = [''ES256'', ''RS256'', ''EdDSA'']"
    "mw_on_error ?mw = (\<lambda>_. default_error_handler (uprint J) example_resource example_meta)"
    by (simp_all add: example_server_def)
  note met = post_extract(2) [OF n k(1)] example_claims(2) [OF k(1)] example_verify [OF k(2,3)]
  have "authenticate J ?mw ?r new_response w
      = (Some (?c, tok, ''Bearer''), new_response, w\<lparr>w_tick := Suc (w_tick w)\<rparr>)"
    unfolding authenticate_Some
    by (intro conjI exI [of _ "w\<lparr>w_tick := Suc (w_tick w)\<rparr>"] exI [of _ "w_ext w"])
      (rule met refl | simp add: validator_ok_def mw)+
  then show ?thesis
    by (simp add: handler_def guard_def enforce_dpop_def verify_dpop_def gate_bearer_def mw deny_def)
qed

lemma swift_clock:
  assumes "swift t w" and "i \<le> 8"
  shows "t \<le> w_clock w (w_tick w + i)" and "w_clock w (w_tick w + i) \<le> t + 59 * second"
    and "sane_time (w_clock w (w_tick w + i))" and "sane_time (w_clock w (w_tick w + i) + minutes 60)"
proof -
  have "w_tick w + i \<in> {w_tick w .. w_tick w + 8}" using assms(2) by simp
  then show r: "t \<le> w_clock w (w_tick w + i)" "w_clock w (w_tick w + i) \<le> t + 59 * second"
    using assms(1) unfolding swift_def by blast+
  then show "sane_time (w_clock w (w_tick w + i))" "sane_time (w_clock w (w_tick w + i) + minutes 60)"
    using assms(1) unfolding swift_def sane_time_def minutes_def nanos_def by linarith+
qed

lemma issuesD:
  assumes "issues J L priv jwks" and "jwk_parse J jwks = Inr ks" and "tl_sign_jwt L b ''RS256'' priv = Inr tok"
  shows "compact_token b tok" and "\<exists>kid. header_kid_alg J tok = Inr (kid, ''RS256'')"
    and "jb_issuer b = Some iss \<Longrightarrow> (\<And>e. tok_expiration (token_of b) = Some e \<Longrightarrow> t - skew < e)
      \<Longrightarrow> jwt_parse J tok ks iss skew t = Inr (token_of b)"
proof -
  obtain ks' where k: "jwk_parse J jwks = Inr ks'"
    "compact_token b tok" "\<exists>kid. header_kid_alg J tok = Inr (kid, ''RS256'')"
    "\<forall>iss skew t. jb_issuer b = Some iss \<and> (\<forall>e. tok_expiration (token_of b) = Some e \<longrightarrow> t - skew < e)
       \<longrightarrow> jwt_parse J tok ks' iss skew t = Inr (token_of b)"
    using assms(1,3) unfolding issues_def by blast
  have "ks' = ks" using k(1) assms(2) by simp
  with k show "compact_token b tok" "\<exists>kid. header_kid_alg J tok = Inr (kid, ''RS256'')"
    "jb_issuer b = Some iss \<Longrightarrow> (\<And>e. tok_expiration (token_of b) = Some e \<Longrightarrow> t - skew < e)
      \<Longrightarrow> jwt_parse J tok ks iss skew t = Inr (token_of b)"
    by blast+
qed

text \<open>The token built by the first reading is good for the whole run.\<close>

lemma swift_token:
  assumes "issues J L priv jwks" and "jwk_parse J jwks = Inr ks" and "swift t w" and "i \<le> 8" and "tp \<noteq> []"
    and "tl_sign_jwt L (bound_builder (b64_encode tp) (w_clock w (w_tick w))) ''RS256'' priv = Inr tok"
    and "w_clock w' = w_clock w" and "w_tick w' = w_tick w + i"
  shows "example_token J ks tp (w_clock w (w_tick w)) tok w'"
proof -
  let ?c = "w_clock w (w_tick w)"
  let ?b = "bound_builder (b64_encode tp) ?c"
  have h: "sane_duration (minutes 60)" by (simp add: sane_duration_def minutes_def nanos_def)
  note s0 = swift_clock [OF assms(3), of 0, simplified]
  have "tok_expiration (token_of ?b) = Some (time_unix (unix_seconds (?c + minutes 60)))"
    using time_add_sane [OF s0(3) h] by (simp add: token_of_def bound_builder_def)
  moreover have "w_clock w (w_tick w + i) - 60 * second < time_unix (unix_seconds (?c + minutes 60))"
    using floor_second(2) [OF s0(4)] swift_clock(2) [OF assms(3,4)] s0(1)
    unfolding minutes_def nanos_def by linarith
  moreover have "jb_issuer ?b = Some example_issuer" by (simp add: bound_builder_def)
  ultimately have "jwt_parse J tok ks example_issuer (60 * second) (w_clock w (w_tick w + i)) = Inr (token_of ?b)"
    using issuesD(3) [OF assms(1,2,6), of example_issuer "w_clock w (w_tick w + i)" "60 * second"] by simp
  then show ?thesis
    using assms(5) issuesD(1,2) [OF assms(1,2,6)] by (simp add: example_token_def assms(7,8))
qed

lemma example_challenge:
  "build_challenge up (errWrongScheme [''ES256'', ''RS256'', ''EdDSA'']) example_resource example_meta =
     ''DPoP realm=\"https://mcp.example.com\", error=\"invalid_token\", error_description=\"the access token requires a DPoP proof\", algs=\"ES256 RS256 EdDSA\", resource_metadata=\"https://mcp.example.com/.well-known/oauth-protected-resource\"''"
proof -
  have q: "quote up example_resource = dquote # example_resource @ [dquote]"
    "quote up ''invalid_token'' = dquote # ''invalid_token'' @ [dquote]"
    "quote up ''the access token requires a DPoP proof'' = dquote # ''the access token requires a DPoP proof'' @ [dquote]"
    "quote up ''ES256 RS256 EdDSA'' = dquote # ''ES256 RS256 EdDSA'' @ [dquote]"
    "quote up example_meta = dquote # example_meta @ [dquote]"
    by (rule quote_safe, simp add: example_resource_def example_meta_def)+
  have j: "join '' '' [''ES256'', ''RS256'', ''EdDSA''] = ''ES256 RS256 EdDSA''" by code_simp
  have ne: "example_resource \<noteq> []" "example_meta \<noteq> []" by (simp_all add: example_resource_def example_meta_def)
  have "build_challenge up (errWrongScheme [''ES256'', ''RS256'', ''EdDSA'']) example_resource example_meta
    = ''DPoP realm='' @ dquote # example_resource @ dquote # '', error='' @ dquote # ''invalid_token'' @ dquote
      # '', error_description='' @ dquote # ''the access token requires a DPoP proof'' @ dquote # '', algs=''
      @ dquote # ''ES256 RS256 EdDSA'' @ dquote # '', resource_metadata='' @ dquote # example_meta @ [dquote]"
    by (simp add: build_challenge_def kv_def Let_def errWrongScheme_def zero_auth_error_def j q ne)
  then show ?thesis by (simp add: example_resource_def example_meta_def)
qed

lemma wrong_scheme_answer:
  "resp_status (default_error_handler up realm meta (AuthError (errWrongScheme algs)) new_response) = Some 401"
  "header_values (resp_header (default_error_handler up realm meta (AuthError (errWrongScheme algs)) new_response))
    ''WWW-Authenticate'' = [build_challenge up (errWrongScheme algs) realm meta]"
proof -
  have "ae_status (errWrongScheme algs) = 401" "\<not> ae_with_bearer (errWrongScheme algs)"
    by (simp_all add: errWrongScheme_def zero_auth_error_def)
  then show "resp_status (default_error_handler up realm meta (AuthError (errWrongScheme algs)) new_response) = Some 401"
    "header_values (resp_header (default_error_handler up realm meta (AuthError (errWrongScheme algs)) new_response))
      ''WWW-Authenticate'' = [build_challenge up (errWrongScheme algs) realm meta]"
    by (simp_all add: default_answer)
qed

lemma example_proof_parses:
  assumes "signs_for J L \<lparr>sg_kid = [], sg_alg = ''ES256'', sg_private = priv, sg_public = pub\<rparr>"
    and "jwk_thumbprint J pub = Inr tp" and "wire_ok n"
    and "make_proof L priv pub ''POST'' (''https://'' @ wire_host n @ ''/mcp'') (example_ath tok) w = (Inr raw, w')"
  shows "parse_and_verify_proof J raw [''EdDSA'', ''RS256'', ''ES256''] = Inr
      \<lparr>dp_jkt = b64_encode tp, dp_htm = ''POST'', dp_htu = ''https://'' @ wire_host n @ ''/mcp'',
       dp_iat = time_unix (unix_seconds (w_clock w (Suc (w_tick w)))),
       dp_jti = format_int (unix_nanos (w_clock w (w_tick w))), dp_ath = ath_for tok, dp_nonce = []\<rparr>"
proof -
  have "sha256 tok \<noteq> []" using length_sha256 [of tok] by (cases "sha256 tok") simp_all
  moreover have "ascii ''POST''" "ascii (''https://'' @ wire_host n @ ''/mcp'')"
    using assms(3) by (simp_all add: wire_ok_def ascii_def)
  ultimately show ?thesis
    using make_proof_parses(1) [OF assms(1,2) _ _ _ _ _ assms(4)]
    by (simp add: example_ath_def ath_for_def b64_ascii b64_encode_Nil_iff)
qed

text \<open>Both calls, in a world whose replay cache is empty.\<close>

lemma both_calls:
  fixes w :: "('s, 'e) world"
  assumes n: "wire_ok n" and mem: "w_mem w = new_mem_replay"
    and toks: "\<And>w' :: ('s, 'e) world. w_clock w' = w_clock w \<Longrightarrow> w_tick w' \<in> {w_tick w, w_tick w + 5} \<Longrightarrow> example_token J ks tp t tok w'"
    and p: "parse_and_verify_proof J raw [''EdDSA'', ''RS256'', ''ES256''] = Inr
      \<lparr>dp_jkt = b64_encode tp, dp_htm = ''POST'', dp_htu = ''https://'' @ wire_host n @ ''/mcp'', dp_iat = i,
       dp_jti = j, dp_ath = ath_for tok, dp_nonce = []\<rparr>"
    and j: "j \<noteq> []" and i: "time_add (w_clock w (Suc (w_tick w))) (- (60 * second)) \<le> i"
    "i \<le> time_add (w_clock w (Suc (w_tick w))) (60 * second)"
  shows "fst (two_calls J (example_mw J ks) n tok raw w)
    = (write_body (''hello, DPoP-authenticated caller'' @ [CHR 0x0A]) new_response,
       default_error_handler (uprint J) example_resource example_meta
         (AuthError (errWrongScheme [''ES256'', ''RS256'', ''EdDSA''])) new_response)"
proof -
  have tok: "example_token J ks tp t tok w" by (rule toks) simp_all
  obtain v where "admits J (example_mw J ks) (post_mcp n [(''Authorization'', ''DPoP '' @ tok), (''DPoP'', raw)])
      ''DPoP'' tok (example_caller tp t tok) w v" "w_clock v = w_clock w" "w_tick v = w_tick w + 3"
    using example_admits [OF n tok _ p j i] example_unseen [OF mem] by blast
  from first_call [OF this] obtain w4 where one: "handler J (example_mw J ks) hello_caller
      (post_mcp n [(''Authorization'', ''DPoP '' @ tok), (''DPoP'', raw)]) new_response w
      = (write_body (''hello, DPoP-authenticated caller'' @ [CHR 0x0A]) new_response, w4)"
    "w_clock w4 = w_clock w" "w_tick w4 = w_tick w + 5"
    by blast
  have "example_token J ks tp t tok w4" by (rule toks) (simp_all add: one)
  from second_call [OF n this] show ?thesis
    unfolding two_calls_def one Let_def prod.case by (simp add: split_beta)
qed

text \<open>The proof is in its window when the server reads the clock, two readings later.\<close>

lemma swift_window:
  assumes "swift t w"
  shows "time_add (w_clock w (w_tick w + 4)) (- (60 * second)) \<le> time_unix (unix_seconds (w_clock w (w_tick w + 2)))"
    and "time_unix (unix_seconds (w_clock w (w_tick w + 2))) \<le> time_add (w_clock w (w_tick w + 4)) (60 * second)"
proof -
  have c: "sane_time (w_clock w (w_tick w + 2))" "sane_time (w_clock w (w_tick w + 4))"
    "t \<le> w_clock w (w_tick w + 2)" "w_clock w (w_tick w + 2) \<le> t + 59 * second"
    "t \<le> w_clock w (w_tick w + 4)" "w_clock w (w_tick w + 4) \<le> t + 59 * second"
    using swift_clock [OF assms, of 2] swift_clock [OF assms, of 4] by simp_all
  have d: "sane_duration (60 * second)" "sane_duration (- (60 * second))"
    by (simp_all add: sane_duration_def nanos_def)
  show "time_add (w_clock w (w_tick w + 4)) (- (60 * second)) \<le> time_unix (unix_seconds (w_clock w (w_tick w + 2)))"
    unfolding time_add_sane [OF c(2) d(2)] using floor_second(2) [OF c(1)] c(3,6) unfolding nanos_def by linarith
  show "time_unix (unix_seconds (w_clock w (w_tick w + 2))) \<le> time_add (w_clock w (w_tick w + 4)) (60 * second)"
    unfolding time_add_sane [OF c(2) d(1)] using floor_second(1) [OF c(1)] c(4,5) unfolding nanos_def by linarith
qed

text \<open>
  C9. The program of examples/dpop does what it announces: the call with the bound token and a proof is
  answered by the protected handler, and the same token sent as Bearer gets a 401 with the DPoP challenge.
  It needs keys that sign and verify, a host that is part of a URL, and less than a minute.
\<close>

theorem dpop_example_answers:
  fixes w :: "('s, 'e) world"
  assumes "example_jose J L seed1 seed2 (w_clock w (w_tick w))" and "wire_ok n" and "swift t w"
  shows "\<exists>r1 r2 w'. dpop_example J L seed1 seed2 n w = (Inr (r1, r2), w')
    \<and> resp_status r1 = Some 200 \<and> resp_body r1 = ''hello, DPoP-authenticated caller'' @ [CHR 0x0A]
    \<and> resp_status r2 = Some 401 \<and> header_values (resp_header r2) ''WWW-Authenticate'' =
        [''DPoP realm=\"https://mcp.example.com\", error=\"invalid_token\", error_description=\"the access token requires a DPoP proof\", algs=\"ES256 RS256 EdDSA\", resource_metadata=\"https://mcp.example.com/.well-known/oauth-protected-resource\"'']"
proof -
  let ?t0 = "w_clock w (w_tick w)" and ?target = "''https://'' @ wire_host n @ ''/mcp''"
  obtain as_priv jwks c_priv c_pub jkt tok where sk: "server_keys L seed1 = Inr (as_priv, jwks)"
    and iss: "issues J L as_priv jwks" and ck: "client_keys J L seed2 = Inr (c_priv, c_pub, jkt)" and jkt: "jkt \<noteq> []"
    and sig: "signs_for J L \<lparr>sg_kid = [], sg_alg = ''ES256'', sg_private = c_priv, sg_public = c_pub\<rparr>"
    and sign: "\<forall>body. \<exists>raw. sl_jws_sign L body ''ES256'' c_priv ''dpop+jwt'' c_pub = Inr raw"
    and mint: "tl_build L (bound_builder jkt ?t0) = Inr ()"
      "tl_sign_jwt L (bound_builder jkt ?t0) ''RS256'' as_priv = Inr tok"
    and algs: "\<forall>a \<in> {''RS256'', ''ES256'', ''EdDSA''}. jwa_lookup J a = Some False"
    using assms(1) unfolding example_jose_def by blast
  obtain tp where tp: "jkt = b64_encode tp" "jwk_thumbprint J c_pub = Inr tp" "tp \<noteq> []"
    using client_keys_Inr [OF ck] jkt by (auto simp: b64_encode_Nil_iff)
  obtain ks where ks: "jwk_parse J jwks = Inr ks" using iss unfolding issues_def by blast
  let ?mw = "example_mw J ks" and ?w1 = "w\<lparr>w_keys := empty_key_cache, w_mem := new_mem_replay\<rparr>"
  let ?w2 = "?w1\<lparr>w_tick := Suc (w_tick w)\<rparr>" and ?w3 = "?w1\<lparr>w_tick := w_tick w + 3\<rparr>"
  have rb: "require_bearer J (example_opts jwks) w = (Inr ?mw, ?w1)"
    by (simp add: require_bearer_def example_configure [OF algs ks])
  have mt: "mint_token L as_priv jkt ?w1 = (Inr tok, ?w2)"
    using mint by (simp add: mint_token_def now_def)
  obtain raw where raw: "make_proof L c_priv c_pub ''POST'' ?target (example_ath tok) ?w2 = (Inr raw, ?w3)"
    using sign by (fastforce simp: make_proof_def now_def numeral_3_eq_3 simp del: json_print.simps)
  let ?i = "time_unix (unix_seconds (w_clock w (w_tick w + 2)))" and ?jti = "format_int (unix_nanos (w_clock w (w_tick w + 1)))"
  have p: "parse_and_verify_proof J raw [''EdDSA'', ''RS256'', ''ES256''] = Inr
      \<lparr>dp_jkt = b64_encode tp, dp_htm = ''POST'', dp_htu = ?target, dp_iat = ?i, dp_jti = ?jti, dp_ath = ath_for tok, dp_nonce = []\<rparr>"
    using example_proof_parses [OF sig tp(2) assms(2) raw] by simp
  have "example_token J ks tp ?t0 tok w'" if "w_clock w' = w_clock ?w3" "w_tick w' \<in> {w_tick ?w3, w_tick ?w3 + 5}"
    for w' :: "('s, 'e) world"
  proof -
    have "w_tick w' = w_tick w + 3 \<or> w_tick w' = w_tick w + 8" using that(2) by auto
    then show ?thesis
      by (elim disjE; intro swift_token [OF iss ks assms(3) _ tp(3) mint(2) [unfolded tp(1)]])
        (use that(1) in simp_all)
  qed
  note toks = this
  have two: "fst (two_calls J ?mw n tok raw ?w3)
    = (write_body (''hello, DPoP-authenticated caller'' @ [CHR 0x0A]) new_response,
       default_error_handler (uprint J) example_resource example_meta
         (AuthError (errWrongScheme [''ES256'', ''RS256'', ''EdDSA''])) new_response)"
    using swift_window [OF assms(3)] by (intro both_calls [OF assms(2) _ toks p]) (simp_all add: format_int_def add.commute [of 4])
  obtain w4 where "two_calls J ?mw n tok raw ?w3 = ((write_body (''hello, DPoP-authenticated caller'' @ [CHR 0x0A]) new_response,
       default_error_handler (uprint J) example_resource example_meta
         (AuthError (errWrongScheme [''ES256'', ''RS256'', ''EdDSA''])) new_response), w4)"
    using two by (cases "two_calls J ?mw n tok raw ?w3") simp
  then have "dpop_example J L seed1 seed2 n w = (Inr (write_body (''hello, DPoP-authenticated caller'' @ [CHR 0x0A]) new_response,
       default_error_handler (uprint J) example_resource example_meta
         (AuthError (errWrongScheme [''ES256'', ''RS256'', ''EdDSA''])) new_response), w4)"
    by (simp only: dpop_example_def sk ck bind_res_simps sum.case prod.case rb mt raw Let_def)
  then show ?thesis
    by (intro exI conjI, assumption)
      (simp_all only: wrong_scheme_answer example_challenge response_sel, simp_all add: new_response_def)
qed

text \<open>
  A library for the witness: its two keys, a signature of a proof that is the body with a mark, and one
  token.
\<close>

definition dx_builder :: builder where
  "dx_builder = bound_builder (b64_encode ''pub'') demo_now"

definition dx_token :: string where
  "dx_token = b64_encode ''{}'' @ ''.'' @ b64_encode (json_print (JObj (payload_members dx_builder))) @ ''.'' @ b64_encode ''s''"

definition dx_jose :: "(string, unit) jose" where
  "dx_jose = demo_jose\<lparr>
     jws_parse := (\<lambda>raw.
       if raw = dx_token then Inr [\<lparr>hdr_kid = Some ''kid-as'', hdr_alg = Some ''RS256'', hdr_typ = None, hdr_jwk = None\<rparr>]
       else Inr [\<lparr>hdr_kid = None, hdr_alg = Some ''ES256'', hdr_typ = Some ''dpop+jwt'', hdr_jwk = Some ''pub''\<rparr>]),
     jws_verify := (\<lambda>raw alg key. Inr (tl raw)),
     jwk_private := (\<lambda>k. Inr (k \<noteq> ''pub'')),
     jwt_parse := (\<lambda>raw ks iss skew t.
       if iss = example_issuer \<and> t - skew < the (tok_expiration (token_of dx_builder))
       then Inr (token_of dx_builder) else Inl ''invalid'')\<rparr>"

definition dx_lib :: "(string, unit, string) token_lib" where
  "dx_lib = \<lparr>sl_pem_decode = (\<lambda>_. None), sl_pkcs8 = (\<lambda>_. None), sl_pkcs1 = (\<lambda>_. None), sl_ec = (\<lambda>_. None),
     sl_import = Inr, sl_parse_key = Inr, sl_public_of = (\<lambda>_. Inr ''pub''),
     sl_key_type = (\<lambda>_. KeyEC (Some ''P-256'')),
     sl_jws_sign = (\<lambda>body alg priv typ pub.
       if alg = ''ES256'' \<and> typ = ''dpop+jwt'' \<and> pub = ''pub'' then Inr (CHR ''!'' # body) else Inl ''unsupported''),
     sl_jwt_build = (\<lambda>_. Inr ()), sl_jwt_sign = (\<lambda>_ _ _. Inl ''unsupported''),
     tl_rsa_key = Inr, tl_ec_key = Inr, tl_set_kid = (\<lambda>_ k. k), tl_set_alg = (\<lambda>_ k. k), tl_new_set = (),
     tl_add_key = (\<lambda>_ _. Inr ()), tl_set_json = (\<lambda>_. Inr ''{}''), tl_build = (\<lambda>_. Inr ()),
     tl_sign_jwt = (\<lambda>b alg _. if b = dx_builder \<and> alg = ''RS256'' then Inr dx_token else Inl ''unsupported''),
     tl_sign_hmac = (\<lambda>_ _. Inl ''unsupported''), tl_sign_raw = (\<lambda>_ _ _. Inl ''unsupported''),
     tl_export = Inr, tl_marshal_pkcs8 = Inr, tl_pem = (\<lambda>_ b. b)\<rparr>"

definition dx_wire :: wire where
  "dx_wire = \<lparr>wire_host = ''127.0.0.1:4711'', wire_addr = ''127.0.0.1:50000'',
     wire_added = [(''User-Agent'', ''Go-http-client/1.1''), (''Accept-Encoding'', ''gzip'')]\<rparr>"

lemma dx_wire_ok: "wire_ok dx_wire"
proof -
  have "url_parse ''https://127.0.0.1:4711/mcp'' \<noteq> None" "ascii ''127.0.0.1:4711''"
    "canonical_key ''User-Agent'' = ''User-Agent''" "canonical_key ''Accept-Encoding'' = ''Accept-Encoding''"
    by code_simp+
  then show ?thesis by (simp add: wire_ok_def dx_wire_def)
qed

lemma dx_compact: "compact_token dx_builder dx_token"
  unfolding compact_token_def dx_token_def
  by (intro exI conjI, rule refl) (simp_all add: dx_builder_def payload_members_def bound_builder_def new_builder_def)

lemma dx_head: "dx_token \<noteq> CHR ''!'' # s"
proof -
  have "b64_encode ''{}'' = CHR ''e'' # tl (b64_encode ''{}'')" by code_simp
  then obtain t where "dx_token = CHR ''e'' # t" unfolding dx_token_def by (metis append_Cons)
  moreover have "CHR ''e'' \<noteq> CHR ''!''" by simp
  ultimately show ?thesis by (metis list.inject)
qed

lemma dx_issues: "issues dx_jose dx_lib priv jwks"
proof -
  have "header_kid_alg dx_jose dx_token = Inr (''kid-as'', ''RS256'')"
    by (simp add: header_kid_alg_def dx_jose_def)
  moreover have "tok_expiration (token_of dx_builder) \<noteq> None" "jb_issuer dx_builder = Some example_issuer"
    by (simp_all add: token_of_def dx_builder_def bound_builder_def)
  moreover have "tl_sign_jwt dx_lib b ''RS256'' priv = Inr tok \<longleftrightarrow> b = dx_builder \<and> tok = dx_token" for b tok
    by (auto simp: dx_lib_def)
  moreover have "jwk_parse dx_jose jwks = Inr ()" by (simp add: dx_jose_def demo_jose_def)
  moreover have "jwt_parse dx_jose dx_token () example_issuer skew t = Inr (token_of dx_builder)"
    if "t - skew < the (tok_expiration (token_of dx_builder))" for skew t
    using that by (simp add: dx_jose_def)
  ultimately show ?thesis using dx_compact unfolding issues_def by auto
qed

lemma dx_signs:
  "signs_for dx_jose dx_lib \<lparr>sg_kid = [], sg_alg = ''ES256'', sg_private = ''client'', sg_public = ''pub''\<rparr>"
  unfolding signs_for_def by (auto simp: dx_lib_def dx_jose_def dx_head [symmetric] split: if_splits)

lemma dx_example: "example_jose dx_jose dx_lib ''as'' ''client'' demo_now"
proof -
  have "server_keys dx_lib ''as'' = Inr (''as'', ''{}'')"
    "client_keys dx_jose dx_lib ''client'' = Inr (''client'', ''pub'', b64_encode ''pub'')"
    by (simp_all add: server_keys_def client_keys_def dx_lib_def dx_jose_def demo_jose_def)
  moreover have "\<exists>raw. sl_jws_sign dx_lib body ''ES256'' ''client'' ''dpop+jwt'' ''pub'' = Inr raw" for body
    by (simp add: dx_lib_def)
  moreover have "tl_build dx_lib (bound_builder (b64_encode ''pub'') demo_now) = Inr ()"
    "tl_sign_jwt dx_lib (bound_builder (b64_encode ''pub'') demo_now) ''RS256'' ''as'' = Inr dx_token"
    by (simp_all add: dx_lib_def dx_builder_def)
  moreover have "\<forall>a \<in> {''RS256'', ''ES256'', ''EdDSA''}. jwa_lookup dx_jose a = Some False"
    by (simp add: dx_jose_def demo_jose_def)
  moreover have "b64_encode ''pub'' \<noteq> []" by (simp add: b64_encode_Nil_iff)
  ultimately show ?thesis unfolding example_jose_def using dx_issues dx_signs by blast
qed

theorem dpop_example_answers_witness:
  "\<exists>r1 r2 w'. dpop_example dx_jose dx_lib ''as'' ''client'' dx_wire demo_world = (Inr (r1, r2), w')
    \<and> resp_status r1 = Some 200 \<and> resp_status r2 = Some 401"
proof -
  have "wire_ok dx_wire" by (rule dx_wire_ok)
  moreover have "swift demo_now demo_world"
    by (simp add: swift_def demo_now_def minutes_def nanos_def unix_to_internal_def)
  ultimately show ?thesis
    using dpop_example_answers [of dx_jose dx_lib "''as''" "''client''" demo_world dx_wire demo_now] dx_example
    by (simp only: demo_at_sel) blast
qed

end
