(* ===== verification/RedisReplay.thy ===== *)
theory RedisReplay
  imports DpopExample
begin

text \<open>
  The replay cache of examples/dpop-redis: several instances of a resource server record each jti in one
  Redis, with SET NX and a time to live. The command is a parameter, a function of the key, the time to
  live and the caller's state, which here holds what Redis holds.
\<close>

section \<open>The cache\<close>

type_synonym 'e set_nx = "string \<Rightarrow> duration \<Rightarrow> 'e \<Rightarrow> bool result \<times> 'e"

definition redis_key :: "string \<Rightarrow> string" where
  "redis_key jti = ''dpop:jti:'' @ jti"

text \<open>\<open>redisReplay.Seen\<close>\<close>

definition redis_seen :: "'e set_nx \<Rightarrow> string \<Rightarrow> instant \<Rightarrow> ('s, 'e) world \<Rightarrow> bool result \<times> ('s, 'e) world" where
  "redis_seen set_nx jti exp w =
     (let (t, w1) = now w; left = time_sub exp t; ttl = (if left \<le> 0 then second else left);
          (r, e) = set_nx (redis_key jti) ttl (w_ext w1)
      in (case r of Inl err \<Rightarrow> Inl (''redis replay check: '' @ err) | Inr ok \<Rightarrow> Inr (\<not> ok), w1\<lparr>w_ext := e\<rparr>))"

text \<open>\<open>main\<close>: the ping, two uses of one jti and what they are checked against.\<close>

definition seen_bit :: "bool result \<Rightarrow> bool" where
  "seen_bit r = (case r of Inl _ \<Rightarrow> False | Inr b \<Rightarrow> b)"

definition redis_example ::
  "('e \<Rightarrow> string option) \<Rightarrow> 'e set_nx \<Rightarrow> ('s, 'e) world \<Rightarrow> (bool \<times> bool) result \<times> ('s, 'e) world" where
  "redis_example ping set_nx w =
     (case ping (w_ext w) of
        Some e \<Rightarrow> (Inl (''Redis not reachable at localhost:6379: '' @ e
           @ CHR 0x0A # ''(start one with: docker run -p 6379:6379 redis)''), w)
      | None \<Rightarrow>
          (let (t, w1) = now w; exp = time_add t (minutes 1);
               (first, w2) = redis_seen set_nx ''demo-jti'' exp w1;
               (replay, w3) = redis_seen set_nx ''demo-jti'' exp w2
           in (if seen_bit first \<or> \<not> seen_bit replay then Inl ''redisReplay contract violated''
               else Inr (seen_bit first, seen_bit replay), w3)))"

section \<open>What Redis is relied on for\<close>

text \<open>
  \<open>held\<close> are the keys that have not expired. SET NX sets a key exactly when it is not there, and after
  the command it is.
\<close>

definition set_nx_sound :: "'e set_nx \<Rightarrow> ('e \<Rightarrow> string set) \<Rightarrow> bool" where
  "set_nx_sound set_nx held \<longleftrightarrow>
     (\<forall>k ttl e ok e'. set_nx k ttl e = (Inr ok, e') \<longrightarrow> ok = (k \<notin> held e) \<and> k \<in> held e')"

text \<open>A middleware with this cache, no validator, and no nonces but the library's.\<close>

definition redis_backed :: "('k, 's) jose \<Rightarrow> 'e set_nx \<Rightarrow> ('s, 'e) bearer_mw \<Rightarrow> bool" where
  "redis_backed J set_nx mw \<longleftrightarrow>
     (\<exists>opts. configure J opts = Inr mw \<and> bo_dpop opts \<noteq> DPoPOff \<and> bo_dpop_replay opts = Some (redis_seen set_nx)
        \<and> bo_claim_validator opts = None
        \<and> (bo_dpop_nonce opts = None \<or> (\<exists>s. bo_dpop_nonce opts = Some (new_dpop_nonce_source s))))"

lemma redis_backed_parts:
  assumes "redis_backed J set_nx mw"
  shows "key_source (mw_keys mw)" and "mw_replay mw = redis_seen set_nx" and "mw_claim_val mw = None"
    and "mw_nonce mw = None \<or> (\<exists>s. mw_nonce mw = Some (new_dpop_nonce_source s))"
proof -
  obtain opts where o: "configure J opts = Inr mw" "bo_dpop opts \<noteq> DPoPOff" "bo_dpop_replay opts = Some (redis_seen set_nx)"
    "bo_claim_validator opts = None" "bo_dpop_nonce opts = None \<or> (\<exists>s. bo_dpop_nonce opts = Some (new_dpop_nonce_source s))"
    using assms unfolding redis_backed_def by blast
  obtain ks d where ks: "resolve_key_source J (bo_keys_jwks opts) (bo_jwks_uri opts) (bo_jwks_cache_ttl opts) = Inr ks"
    and d: "build_dpop_runtime J opts = Inr d"
    and mw: "mw_keys mw = ks" "mw_replay mw = dr_replay d" "mw_nonce mw = bo_dpop_nonce opts"
      "mw_claim_val mw = bo_claim_validator opts"
    using configure_InrD [OF o(1)] by blast
  have "dr_replay d = redis_seen set_nx" using d o(2,3) by (auto simp: build_dpop_runtime_def Let_def)
  then show "mw_replay mw = redis_seen set_nx" using mw(2) by simp
  show "key_source (mw_keys mw)" using resolve_key_source_quiet [OF ks] mw(1) by simp
  show "mw_claim_val mw = None" using o(4) mw(4) by simp
  show "mw_nonce mw = None \<or> (\<exists>s. mw_nonce mw = Some (new_dpop_nonce_source s))" using o(5) mw(3) by simp
qed

lemma emit_ext: "w_ext (emit mw r ev c w) = w_ext w"
  by (simp add: emit_def emit_event_def Let_def now_def)

lemma redis_seen_new:
  assumes "redis_seen set_nx jti exp w = (Inr False, w')"
  shows "\<exists>ttl. set_nx (redis_key jti) ttl (w_ext w) = (Inr True, w_ext w')
    \<and> time_sub exp (w_clock w (w_tick w)) \<le> ttl \<and> 0 < ttl"
proof -
  let ?left = "time_sub exp (w_clock w (w_tick w))"
  let ?ttl = "if ?left \<le> 0 then second else ?left"
  obtain r e where x: "set_nx (redis_key jti) ?ttl (w_ext w) = (r, e)" by fastforce
  then have "r = Inr True" "w_ext w' = e"
    using assms by (auto simp: redis_seen_def now_def Let_def split: sum.splits)
  with x have "set_nx (redis_key jti) ?ttl (w_ext w) = (Inr True, w_ext w')" by simp
  moreover have "?left \<le> ?ttl" "0 < ?ttl" by (simp_all add: nanos_def)
  ultimately show ?thesis by blast
qed

text \<open>An admission is one SET NX that set the key, with a time to live up to the recorded expiry.\<close>

lemma redis_admission:
  assumes b: "redis_backed J set_nx mw" and g: "guard J mw r rsp w = (Some c, rsp', w')"
    and s: "extract_token r = Some (''DPoP'', raw)" and p: "proof_of J mw r p"
  shows "\<exists>i ttl. set_nx (redis_key (dp_jti p)) ttl (w_ext w) = (Inr True, w_ext w')
    \<and> w_tick w \<le> i \<and> time_sub (expiry_of mw p) (w_clock w i) \<le> ttl \<and> 0 < ttl"
proof -
  note parts = redis_backed_parts [OF b]
  obtain w1 e w2 where v: "verify J (verifier_of mw) raw w = (Inr c, w1)" and e: "validator_ok mw c (w_ext w1) e"
    and o: "sender_ok J mw r raw c ''DPoP'' (w1\<lparr>w_ext := e\<rparr>) w2" and w': "w' = allow_events mw r c ''DPoP'' w2"
    using g s unfolding guard_Some admits_def by auto
  have q: "quiet w w1" "w_ext w1 = w_ext w" using key_source.verify_quiet [OF parts(1) v] by blast+
  have "e = w_ext w1" using e parts(3) by (simp add: validator_ok_def)
  then obtain rp p' where "proof_ok J mw r raw c rp p' w1 w2" using o by (auto simp: sender_ok_def)
  then obtain w3 where h: "header_values (req_header r) ''DPoP'' = [rp]" "proves J (mw_dpop_algs mw) rp p'"
    and n: "nonce_ok mw r p' (w1\<lparr>w_tick := Suc (w_tick w1)\<rparr>) w3" and j: "jti_ok mw p' w3 w2"
    unfolding proof_ok_def by blast
  have "proof_of J mw r p'" using h by (simp add: proof_of_def)
  then have p': "p' = p" using p by (rule proof_of_unique)
  have n3: "w_ext w3 = w_ext w1" "w_clock w3 = w_clock w1" "w_tick w1 \<le> w_tick w3"
    using n parts(4) by (auto simp: nonce_ok_def new_dpop_nonce_source_def hmac_valid_def now_def Let_def split: if_splits)
  have w2: "w_ext w' = w_ext w2" by (simp add: w' allow_events_def emit_ext Let_def)
  have "\<exists>ttl. set_nx (redis_key (dp_jti p)) ttl (w_ext w3) = (Inr True, w_ext w2)
      \<and> time_sub (expiry_of mw p) (w_clock w3 (w_tick w3)) \<le> ttl \<and> 0 < ttl"
    using j unfolding jti_ok_def parts(2) p' expiry_of_def by (rule redis_seen_new)
  then show ?thesis using q n3 w2 by (metis quiet_def later_def order_trans)
qed

section \<open>One use, on any instance\<close>

text \<open>
  C15. With the Redis cache of examples/dpop-redis shared by any instances, an admitted proof has put its
  jti into Redis with a time to live that reaches the recorded expiry, and as long as Redis holds it no
  request with that jti is admitted by any of the instances.
\<close>

theorem redis_no_replay:
  assumes "set_nx_sound set_nx held" and "redis_backed J set_nx mw1" and "redis_backed J set_nx mw2"
    and "guard J mw1 r1 rsp1 w1 = (Some c1, rsp1', w1')"
    and "extract_token r1 = Some (''DPoP'', raw1)" and "proof_of J mw1 r1 p1"
  shows "(\<exists>i ttl. set_nx (redis_key (dp_jti p1)) ttl (w_ext w1) = (Inr True, w_ext w1')
        \<and> w_tick w1 \<le> i \<and> time_sub (expiry_of mw1 p1) (w_clock w1 i) \<le> ttl \<and> 0 < ttl)
    \<and> redis_key (dp_jti p1) \<in> held (w_ext w1')
    \<and> (\<forall>w2 r2 rsp2 raw2 p2. redis_key (dp_jti p1) \<in> held (w_ext w2) \<and> extract_token r2 = Some (''DPoP'', raw2)
        \<and> proof_of J mw2 r2 p2 \<and> dp_jti p2 = dp_jti p1 \<longrightarrow> fst (guard J mw2 r2 rsp2 w2) = None)"
proof -
  obtain i ttl where one: "set_nx (redis_key (dp_jti p1)) ttl (w_ext w1) = (Inr True, w_ext w1')"
    "w_tick w1 \<le> i \<and> time_sub (expiry_of mw1 p1) (w_clock w1 i) \<le> ttl \<and> 0 < ttl"
    using redis_admission [OF assms(2,4-6)] by blast
  moreover have "redis_key (dp_jti p1) \<in> held (w_ext w1')"
    using assms(1) one(1) unfolding set_nx_sound_def by blast
  moreover have "fst (guard J mw2 r2 rsp2 w2) = None"
    if "redis_key (dp_jti p1) \<in> held (w_ext w2)" "extract_token r2 = Some (''DPoP'', raw2)"
      "proof_of J mw2 r2 p2" "dp_jti p2 = dp_jti p1" for w2 r2 rsp2 raw2 p2
  proof (rule ccontr)
    assume "fst (guard J mw2 r2 rsp2 w2) \<noteq> None"
    then obtain c x where "guard J mw2 r2 rsp2 w2 = (Some c, x)" by (cases "guard J mw2 r2 rsp2 w2") auto
    then obtain y z where "guard J mw2 r2 rsp2 w2 = (Some c, y, z)" by (cases x) auto
    from redis_admission [OF assms(3) this that(2,3)] that(1,4) assms(1)
    show False unfolding set_nx_sound_def by metis
  qed
  ultimately show ?thesis by blast
qed

text \<open>A Redis that is the list of its keys, and the middleware of the example with it.\<close>

definition list_set_nx :: "string list set_nx" where
  "list_set_nx k ttl e = (Inr (k \<notin> set e), k # e)"

definition dx_world :: "(unit, string list) world" where
  "dx_world = \<lparr>w_clock = (\<lambda>_. demo_now), w_tick = 0, w_net = (\<lambda>_. TransportError ''down''), w_gets = [],
     w_audit = [], w_keys = empty_key_cache, w_mem = new_mem_replay, w_ext = []\<rparr>"

abbreviation dx_mw :: "(unit, string list) bearer_mw" where
  "dx_mw \<equiv> example_server (redis_seen list_set_nx) dx_jose ()"

lemma dx_backed: "redis_backed dx_jose list_set_nx dx_mw"
proof -
  have "\<forall>a \<in> {''RS256'', ''ES256'', ''EdDSA''}. jwa_lookup dx_jose a = Some False" "jwk_parse dx_jose ''{}'' = Inr ()"
    by (simp_all add: dx_jose_def demo_jose_def)
  from example_configure_with [OF this, of "Some (redis_seen list_set_nx)"]
  show ?thesis unfolding redis_backed_def
    by (intro exI [of _ "example_opts ''{}''\<lparr>bo_dpop_replay := Some (redis_seen list_set_nx)\<rparr>"])
      (simp add: example_opts_def)
qed

abbreviation dx_request :: "string \<Rightarrow> request" where
  "dx_request raw \<equiv> post_mcp dx_wire [(''Authorization'', ''DPoP '' @ dx_token), (''DPoP'', raw)]"

lemma dx_admitted:
  "\<exists>raw c rsp' w' p. guard dx_jose dx_mw (dx_request raw) new_response dx_world = (Some c, rsp', w')
    \<and> proof_of dx_jose dx_mw (dx_request raw) p"
proof -
  let ?target = "''https://'' @ wire_host dx_wire @ ''/mcp''" and ?i = "time_unix (unix_seconds demo_now)"
    and ?j = "format_int (unix_nanos demo_now)"
  obtain raw v where mp: "make_proof dx_lib ''client'' ''pub'' ''POST'' ?target (example_ath dx_token) dx_world = (Inr raw, v)"
    by (simp add: make_proof_def now_def dx_lib_def del: json_print.simps)
  have tp: "jwk_thumbprint dx_jose ''pub'' = Inr ''pub''" by (simp add: dx_jose_def demo_jose_def)
  have p: "parse_and_verify_proof dx_jose raw [''EdDSA'', ''RS256'', ''ES256''] = Inr
      \<lparr>dp_jkt = b64_encode ''pub'', dp_htm = ''POST'', dp_htu = ?target, dp_iat = ?i, dp_jti = ?j,
       dp_ath = ath_for dx_token, dp_nonce = []\<rparr>" (is "_ = Inr ?p")
    using example_proof_parses [OF dx_signs tp dx_wire_ok mp] by (simp add: dx_world_def)
  have "swift demo_now dx_world"
    by (simp add: swift_def dx_world_def demo_now_def minutes_def nanos_def unix_to_internal_def)
  then have t: "example_token dx_jose () ''pub'' demo_now dx_token dx_world"
    using swift_token [OF dx_issues, of "''{}''" "()" demo_now dx_world 0 "''pub''" "''as''" dx_token dx_world]
    by (simp add: dx_world_def dx_jose_def demo_jose_def dx_lib_def dx_builder_def)
  have w: "time_add demo_now (- (60 * second)) \<le> ?i" "?i \<le> time_add demo_now (60 * second)"
    using swift_window [OF \<open>swift demo_now dx_world\<close>] by (simp_all add: dx_world_def)
  have j: "?j \<noteq> []" by (simp add: format_int_def)
  have "\<exists>w'. jti_ok dx_mw ?p (dx_world\<lparr>w_tick := w_tick dx_world + 2\<rparr>) w'"
    by (simp add: jti_ok_def example_server_def redis_seen_def list_set_nx_def now_def dx_world_def Let_def)
  then obtain w' where jt: "jti_ok dx_mw ?p (dx_world\<lparr>w_tick := w_tick dx_world + 2\<rparr>) w'" by blast
  have clk: "w_clock dx_world (Suc (w_tick dx_world)) = demo_now" by (simp add: dx_world_def)
  have "admits dx_jose dx_mw (dx_request raw) ''DPoP'' dx_token (example_caller ''pub'' demo_now dx_token) dx_world w'"
    by (rule example_admits [OF dx_wire_ok t jt p j, unfolded clk, OF w])
  then have "\<exists>w'. guard dx_jose dx_mw (dx_request raw) new_response dx_world
      = (Some (example_caller ''pub'' demo_now dx_token), new_response, w')"
    unfolding guard_Some by blast
  moreover have "proof_of dx_jose dx_mw (dx_request raw) ?p"
    using p post_headers(2) [OF dx_wire_ok]
    by (simp add: proof_of_def parse_and_verify_proof_Inr [symmetric] example_server_def)
  ultimately show ?thesis by blast
qed

text \<open>The example's own check passes exactly because of it: the first use is new, the second is not.\<close>

lemma redis_example_passes:
  assumes "set_nx_sound set_nx held" and "\<And>k t e. \<exists>b e'. set_nx k t e = (Inr b, e')"
    and "ping (w_ext w) = None" and "redis_key ''demo-jti'' \<notin> held (w_ext w)"
  shows "fst (redis_example ping set_nx w) = Inr (False, True)"
proof -
  have ans: "\<exists>e'. redis_seen set_nx j x v = (Inr (redis_key j \<in> held (w_ext v)), v\<lparr>w_tick := Suc (w_tick v), w_ext := e'\<rparr>)
      \<and> redis_key j \<in> held e'" for j x and v :: "('b, 'a) world"
  proof -
    let ?left = "time_sub x (w_clock v (w_tick v))"
    obtain b e' where b: "set_nx (redis_key j) (if ?left \<le> 0 then second else ?left) (w_ext v) = (Inr b, e')"
      using assms(2) by blast
    then have "b = (redis_key j \<notin> held (w_ext v))" "redis_key j \<in> held e'"
      using assms(1) unfolding set_nx_sound_def by blast+
    then show ?thesis using b by (intro exI [of _ e'] conjI) (simp_all add: redis_seen_def now_def Let_def)
  qed
  let ?w1 = "w\<lparr>w_tick := Suc (w_tick w)\<rparr>" and ?x = "time_add (w_clock w (w_tick w)) (minutes 1)"
  obtain e1 where one: "redis_seen set_nx ''demo-jti'' ?x ?w1 = (Inr False, ?w1\<lparr>w_tick := Suc (w_tick ?w1), w_ext := e1\<rparr>)"
    "redis_key ''demo-jti'' \<in> held e1"
    using ans [of "''demo-jti''" ?x ?w1] assms(4) by auto
  obtain e2 where "redis_seen set_nx ''demo-jti'' ?x (?w1\<lparr>w_tick := Suc (w_tick ?w1), w_ext := e1\<rparr>)
      = (Inr True, ?w1\<lparr>w_tick := Suc (Suc (w_tick ?w1)), w_ext := e2\<rparr>)"
    using ans [of "''demo-jti''" ?x "?w1\<lparr>w_tick := Suc (w_tick ?w1), w_ext := e1\<rparr>"] one(2) by auto
  then show ?thesis
    using one assms(3) by (simp add: redis_example_def now_def seen_bit_def)
qed

theorem redis_no_replay_witness:
  "\<exists>raw w' p. redis_key (dp_jti p) \<in> set (w_ext w') \<and> proof_of dx_jose dx_mw (dx_request raw) p
    \<and> fst (guard dx_jose dx_mw (dx_request raw) new_response w') = None"
proof -
  have s: "set_nx_sound list_set_nx set" by (auto simp: set_nx_sound_def list_set_nx_def)
  obtain raw c rsp' w' p where g: "guard dx_jose dx_mw (dx_request raw) new_response dx_world = (Some c, rsp', w')"
    and p: "proof_of dx_jose dx_mw (dx_request raw) p"
    using dx_admitted by blast
  note x = post_extract(1) [OF dx_wire_ok dx_compact, of raw]
  note all = redis_no_replay [OF s dx_backed dx_backed g x p, THEN conjunct2]
  have "fst (guard dx_jose dx_mw (dx_request raw) new_response w') = None"
    by (rule all [THEN conjunct2, rule_format]) (intro conjI, rule all [THEN conjunct1], rule x, rule p, rule refl)
  then show ?thesis using all [THEN conjunct1] p by blast
qed

end
