(* ===== verification/Consumers.thy ===== *)
theory Consumers
  imports ExchangeDemo Metadata
begin

text \<open>
  What the module offers to its users around the middleware: the claims in a request's context
  (claims.go), the emitters of audit events (audit.go), and the programs of examples/ that wire a
  resource server or a token exchange together. The other examples are in DpopExample and RedisReplay.
\<close>

section \<open>Claims in the context (claims.go)\<close>

text \<open>A context, as far as the module reads it: the value under its own key.\<close>

record go_context =
  ctx_claims :: "claims option"

definition context_with_claims :: "go_context \<Rightarrow> claims \<Rightarrow> go_context" where
  "context_with_claims ctx c = ctx\<lparr>ctx_claims := Some c\<rparr>"

text \<open>\<open>ClaimsFromContext\<close>: the claims and the flag; \<open>None\<close> is the nil pointer.\<close>

definition claims_from_context :: "go_context \<Rightarrow> claims option \<times> bool" where
  "claims_from_context ctx = (ctx_claims ctx, ctx_claims ctx \<noteq> None)"

section \<open>Emitters (audit.go)\<close>

text \<open>An emitter is what its \<open>Emit\<close> does to the state of its user.\<close>

type_synonym 'e emitter = "event \<Rightarrow> 'e \<Rightarrow> 'e"

definition noop_emitter :: "'e emitter" where
  "noop_emitter ev e = e"

definition func_emitter :: "(event \<Rightarrow> 'e \<Rightarrow> 'e) \<Rightarrow> 'e emitter" where
  "func_emitter f ev e = f ev e"

text \<open>An attribute of a log record, \<open>slog.String\<close> or \<open>slog.Any\<close> of a list of strings.\<close>

datatype log_attr = LogString string string | LogAny string "string list"

definition log_attrs :: "event \<Rightarrow> log_attr list" where
  "log_attrs ev =
     [LogString ''kind'' (ev_kind ev), LogString ''outcome'' (ev_outcome ev), LogString ''subject'' (ev_subject ev),
      LogString ''issuer'' (ev_issuer ev), LogAny ''audience'' (ev_audience ev), LogAny ''scope'' (ev_scope ev),
      LogString ''resource'' (ev_resource ev), LogString ''reason'' (ev_reason ev), LogString ''error'' (ev_error ev)]"

text \<open>\<open>LogEmitter\<close>: the given logger, or the default one. A logger takes a message and attributes.\<close>

definition log_emitter ::
  "(string \<Rightarrow> log_attr list \<Rightarrow> 'e \<Rightarrow> 'e) \<Rightarrow> (string \<Rightarrow> log_attr list \<Rightarrow> 'e \<Rightarrow> 'e) option \<Rightarrow> 'e emitter" where
  "log_emitter dflt logger ev e =
     (case logger of None \<Rightarrow> dflt | Some l \<Rightarrow> l) ''aoa.audit'' (log_attrs ev) e"

section \<open>Validation with the default options (metadata.go)\<close>

definition validate_strict :: "metadata \<Rightarrow> unit result" where
  "validate_strict m = validate_metadata False m"

section \<open>A resource server on net/http (examples/bearer-nethttp)\<close>

definition local_resource :: string where "local_resource = ''http://localhost:8080''"

definition idp :: string where "idp = ''https://idp.example.com''"

definition local_opts :: "string list \<Rightarrow> ('s, 'e) bearer_opts" where
  "local_opts scopes = \<lparr>
     bo_jwks_uri = idp @ ''/.well-known/jwks.json'', bo_keys_jwks = None, bo_issuer = idp,
     bo_audience = [], bo_resource = local_resource, bo_realm = [],
     bo_required_scopes = scopes, bo_clock_skew = 0, bo_jwks_cache_ttl = 0,
     bo_allowed_algorithms = [], bo_dpop = DPoPOff, bo_claim_validator = None,
     bo_error_handler = None, bo_token_lookup = 0, bo_dpop_signing_algs = [],
     bo_dpop_proof_max_age = 0, bo_dpop_replay = None, bo_dpop_nonce = None,
     bo_trust_forwarded_headers = False\<rparr>"

text \<open>The protected handler: it answers with the subject of the claims in the context.\<close>

definition authorized :: "('s, 'e) next_handler" where
  "authorized c r rsp w =
     (write_body (''authorized: '' @ (case fst (claims_from_context (context_with_claims \<lparr>ctx_claims = None\<rparr> c)) of
        Some cl \<Rightarrow> cl_subject cl | None \<Rightarrow> [])) rsp, w)"

text \<open>
  A program ends at start with the error it logs, or serves: the handlers by their paths, each from
  a request, a response and the world. What \<open>http.ServeMux\<close> answers for other paths is its own.
\<close>

type_synonym ('s, 'e) mux = "(string \<times> (request \<Rightarrow> response \<Rightarrow> ('s, 'e) world \<Rightarrow> response \<times> ('s, 'e) world)) list"

definition serve_mux ::
  "('s, 'e) mux \<Rightarrow> (request \<Rightarrow> response \<Rightarrow> ('s, 'e) world \<Rightarrow> response \<times> ('s, 'e) world)
     \<Rightarrow> request \<Rightarrow> response \<Rightarrow> ('s, 'e) world \<Rightarrow> response \<times> ('s, 'e) world" where
  "serve_mux m other r rsp w = (case map_of m (req_path r) of Some h \<Rightarrow> h r rsp w | None \<Rightarrow> other r rsp w)"

definition bearer_nethttp :: "('k, 's) jose \<Rightarrow> ('s, 'e) world \<Rightarrow> (string \<times> string + ('s, 'e) mux) \<times> ('s, 'e) world" where
  "bearer_nethttp J w =
     (case new_metadata_handler (empty_metadata\<lparr>md_resource := local_resource, md_authorization_servers := [idp],
             md_scopes_supported := [''mcp:read'']\<rparr>)
           \<lparr>ho_allow_insecure_localhost = True, ho_cache_control = [], ho_enable_cors = False\<rparr> of
        Inl e \<Rightarrow> (Inl (''metadata handler'', e), w)
      | Inr prm \<Rightarrow>
          (let path = (case metadata_path_for local_resource of Inl _ \<Rightarrow> [] | Inr p \<Rightarrow> p) in
           (case require_bearer J (local_opts [''mcp:read'']) w of
              (Inl e, w1) \<Rightarrow> (Inl (''require bearer'', e), w1)
            | (Inr mw, w1) \<Rightarrow>
                (Inr [(path, \<lambda>r rsp v. (serve_metadata prm r rsp, v)), (''/mcp'', handler J mw authorized)], w1))))"

section \<open>A resource server on chi (examples/bearer-chi)\<close>

text \<open>The routes of the router, by method and pattern.\<close>

definition bearer_chi ::
  "('k, 's) jose \<Rightarrow> ('s, 'e) world
     \<Rightarrow> (string \<times> string + ((string \<times> string) \<times> (request \<Rightarrow> response \<Rightarrow> ('s, 'e) world \<Rightarrow> response \<times> ('s, 'e) world)) list)
        \<times> ('s, 'e) world" where
  "bearer_chi J w =
     (case require_bearer J (local_opts []) w of
        (Inl e, w1) \<Rightarrow> (Inl (''require bearer'', e), w1)
      | (Inr mw, w1) \<Rightarrow> (Inr [((''GET'', ''/mcp''), handler J mw authorized)], w1))"

section \<open>Metadata servers (examples/metadata-nethttp, examples/metadata-chi)\<close>

definition metadata_nethttp :: "string \<times> string + (string \<times> metadata_handler)" where
  "metadata_nethttp =
     (case new_metadata_handler (empty_metadata\<lparr>md_resource := local_resource, md_authorization_servers := [idp],
             md_scopes_supported := [''mcp:read'', ''mcp:write''], md_bearer_methods_supported := [''header'']\<rparr>)
           \<lparr>ho_allow_insecure_localhost = True, ho_cache_control = [], ho_enable_cors = True\<rparr> of
        Inl e \<Rightarrow> Inl (''metadata handler'', e)
      | Inr h \<Rightarrow>
          (case metadata_path_for local_resource of
             Inl e \<Rightarrow> Inl (''path'', e)
           | Inr path \<Rightarrow> Inr (path, h)))"

definition metadata_chi :: "string \<times> string + (string \<times> routes)" where
  "metadata_chi =
     (case mount (empty_metadata\<lparr>md_resource := local_resource, md_authorization_servers := [idp],
             md_scopes_supported := [''mcp:read'', ''mcp:write'']\<rparr>)
           \<lparr>ho_allow_insecure_localhost = True, ho_cache_control = [], ho_enable_cors = True\<rparr> [] of
        (Inl e, _) \<Rightarrow> Inl (''mount'', e)
      | (Inr _, rt) \<Rightarrow>
          (case metadata_path_for local_resource of
             Inl e \<Rightarrow> Inl (''path'', e)
           | Inr path \<Rightarrow> Inr (path, rt)))"

section \<open>Token exchange (examples/token-exchange, examples/token-exchange-dpop)\<close>

text \<open>The environment is a function; an unset variable is the empty string.\<close>

definition env_or :: "(string \<Rightarrow> string) \<Rightarrow> string \<Rightarrow> string \<Rightarrow> string" where
  "env_or env k d = (let v = env k in if v \<noteq> [] then v else d)"

definition demo_endpoint :: string where
  "demo_endpoint = ''http://localhost:8080/realms/demo/protocol/openid-connect/token''"

definition gateway_config :: "(string \<Rightarrow> string) \<Rightarrow> 'k dpop_key option \<Rightarrow> ('k, 'p) exchange_config" where
  "gateway_config env key = \<lparr>xc_token_endpoint = env_or env ''TOKEN_ENDPOINT'' demo_endpoint, xc_issuer = [],
     xc_client_auth = Some (SecretAuth (env_or env ''CLIENT_ID'' ''mcp-gateway'') (env ''CLIENT_SECRET'') True),
     xc_http_client = None, xc_dpop_key = key\<rparr>"

definition tool_request :: "(string \<Rightarrow> string) \<Rightarrow> string list \<Rightarrow> exchange_request" where
  "tool_request env scope = \<lparr>xr_subject_token = env ''SUBJECT_TOKEN'', xr_subject_token_type = TokenTypeAccessToken,
     xr_actor_token = [], xr_actor_token_type = [], xr_resource = [],
     xr_audience = [env_or env ''DOWNSTREAM_AUDIENCE'' ''https://tool.example.com''], xr_scope = scope,
     xr_requested_token_type = []\<rparr>"

definition run_exchange ::
  "('k, 's) jose \<Rightarrow> ('k, 'r) signing_lib \<Rightarrow> 'p http_client \<Rightarrow> ('k, 'p) exchange_config \<Rightarrow> exchange_request
     \<Rightarrow> 'p client_world \<Rightarrow> exchange_result result \<times> 'p client_world" where
  "run_exchange J L dflt cfg req w =
     (case new_token_exchanger dflt cfg of
        Inl e \<Rightarrow> (Inl (''new exchanger: '' @ e), w)
      | Inr x \<Rightarrow>
          (case exchange J L x req w of
             (Inl f, w1) \<Rightarrow> (Inl (''exchange: '' @ failure_text f), w1)
           | (Inr res, w1) \<Rightarrow> (Inr res, w1)))"

definition token_exchange_example ::
  "('k, 's) jose \<Rightarrow> ('k, 'r) signing_lib \<Rightarrow> 'p http_client \<Rightarrow> (string \<Rightarrow> string) \<Rightarrow> 'p client_world
     \<Rightarrow> exchange_result result \<times> 'p client_world" where
  "token_exchange_example J L dflt env w =
     (if env ''SUBJECT_TOKEN'' = []
      then (Inl ''set SUBJECT_TOKEN to a user access token (README shows the x/oauth2 authorization_code step)'', w)
      else run_exchange J L dflt (gateway_config env None) (tool_request env [''tool:invoke'']) w)"

text \<open>The files of the second example are a function of their names.\<close>

definition token_exchange_dpop_example ::
  "('k, 's) jose \<Rightarrow> ('k, 'r) signing_lib \<Rightarrow> 'p http_client \<Rightarrow> (string \<Rightarrow> string) \<Rightarrow> (string \<Rightarrow> bytes result)
     \<Rightarrow> 'p client_world \<Rightarrow> exchange_result result \<times> 'p client_world" where
  "token_exchange_dpop_example J L dflt env files w =
     (case files (env_or env ''DPOP_KEY'' ''dpop_key.pem'') of
        Inl e \<Rightarrow> (Inl (''read DPoP key (generate an EC P-256 PKCS#8 PEM): '' @ e), w)
      | Inr pem \<Rightarrow>
          (case new_dpop_key J L pem of
             Inl e \<Rightarrow> (Inl (''dpop key: '' @ e), w)
           | Inr k \<Rightarrow> run_exchange J L dflt (gateway_config env (Some k)) (tool_request env []) w))"

section \<open>Facts\<close>

lemma claims_in_context: "claims_from_context (context_with_claims ctx c) = (Some c, True)"
  by (simp add: claims_from_context_def context_with_claims_def)

lemma authorized_names: "fst (authorized c r rsp w) = write_body (''authorized: '' @ cl_subject c) rsp"
  by (simp add: authorized_def claims_in_context)

text \<open>Whatever the environment, the configuration of the token exchange examples is accepted.\<close>

lemma gateway_accepted:
  "new_token_exchanger dflt (gateway_config env key) = Inr
     \<lparr>tx_endpoint = env_or env ''TOKEN_ENDPOINT'' demo_endpoint, tx_issuer = [],
      tx_auth = SecretAuth (env_or env ''CLIENT_ID'' ''mcp-gateway'') (env ''CLIENT_SECRET'') True,
      tx_client = dflt, tx_dpop = key\<rparr>"
proof -
  have "env_or env ''TOKEN_ENDPOINT'' demo_endpoint \<noteq> []" by (simp add: env_or_def Let_def demo_endpoint_def)
  then show ?thesis by (simp add: new_token_exchanger_def gateway_config_def)
qed

text \<open>So it is one exchange: its result, or its error behind a prefix.\<close>

lemma run_exchange_gateway:
  "run_exchange J L dflt (gateway_config env key) req w
     = map_prod (map_sum (\<lambda>f. ''exchange: '' @ failure_text f) id) id
         (exchange J L \<lparr>tx_endpoint = env_or env ''TOKEN_ENDPOINT'' demo_endpoint, tx_issuer = [],
            tx_auth = SecretAuth (env_or env ''CLIENT_ID'' ''mcp-gateway'') (env ''CLIENT_SECRET'') True,
            tx_client = dflt, tx_dpop = key\<rparr> req w)"
  unfolding run_exchange_def gateway_accepted
  by (cases "exchange J L \<lparr>tx_endpoint = env_or env ''TOKEN_ENDPOINT'' demo_endpoint, tx_issuer = [],
      tx_auth = SecretAuth (env_or env ''CLIENT_ID'' ''mcp-gateway'') (env ''CLIENT_SECRET'') True,
      tx_client = dflt, tx_dpop = key\<rparr> req w") (auto split: sum.split)

text \<open>The local resource is a valid one, once insecure localhost is allowed.\<close>

lemma local_path: "metadata_path_for local_resource = Inr ''/.well-known/oauth-protected-resource''"
  by code_simp

lemma local_not_strict: "validate_strict (empty_metadata\<lparr>md_resource := local_resource\<rparr>)
    = Inl ''resource scheme must be https per RFC 9728 par.1.2''"
  by code_simp

lemma local_valid:
  assumes "md_resource m = local_resource" and "md_authorization_servers m = [idp]"
  shows "validate_metadata True m = Inr ()"
proof -
  have "validate_metadata True (empty_metadata\<lparr>md_resource := local_resource, md_authorization_servers := [idp]\<rparr>) = Inr ()"
    by code_simp
  then show ?thesis using assms unfolding validate_metadata_Inr by (simp add: empty_metadata_def)
qed

lemma local_handler:
  assumes "md_resource m = local_resource" and "md_authorization_servers m = [idp]" and "md_extra m = []"
  shows "new_metadata_handler m \<lparr>ho_allow_insecure_localhost = True, ho_cache_control = [], ho_enable_cors = cors\<rparr>
    = Inr \<lparr>mh_body = json_print (JObj (typed_fields m)), mh_cache_control = default_cache_control, mh_cors = cors\<rparr>"
  using local_valid [OF assms(1,2)] assms(3)
  by (simp add: new_metadata_handler_def marshal_metadata_def Let_def del: json_print.simps)

text \<open>Both metadata examples serve at the well-known path.\<close>

lemma metadata_examples:
  "\<exists>h. metadata_nethttp = Inr (''/.well-known/oauth-protected-resource'', h) \<and> mh_cors h"
  "\<exists>rt h. metadata_chi = Inr (''/.well-known/oauth-protected-resource'', rt)
     \<and> map fst rt = map (\<lambda>m. (m, ''/.well-known/oauth-protected-resource'')) [''OPTIONS'', ''HEAD'', ''GET'']"
  by (simp_all add: metadata_nethttp_def metadata_chi_def mount_def local_handler local_path empty_metadata_def)

section \<open>What the net/http example answers\<close>

lemma local_configure:
  assumes "\<forall>a \<in> {''RS256'', ''ES256'', ''EdDSA''}. jwa_lookup J a = Some False"
  shows "\<exists>mw. configure J (local_opts scopes) = Inr mw \<and> mw_dpop_mode mw = DPoPOff
    \<and> mw_on_error mw = (\<lambda>_. default_error_handler (uprint J) local_resource
        ''http://localhost:8080/.well-known/oauth-protected-resource'')"
proof -
  have m: "resource_metadata_url local_resource ''/.well-known/oauth-protected-resource''
      = ''http://localhost:8080/.well-known/oauth-protected-resource''"
    by code_simp
  have r: "local_resource \<noteq> []" "idp \<noteq> []" by (simp_all add: local_resource_def idp_def)
  have algs: "\<exists>a. parse_algs J [] = Inr a" using assms by (simp add: parse_algs_def)
  have d: "derive_challenge_params (local_opts scopes)
      = (local_resource, ''http://localhost:8080/.well-known/oauth-protected-resource'')"
    using r(1) by (simp add: derive_challenge_params_def local_opts_def local_path m)
  show ?thesis
    using algs unfolding configure_def d
    by (auto simp: validate_bearer_opts_def resolve_key_source_def build_dpop_runtime_def local_opts_def r)
qed

lemma no_token_answer:
  assumes "mw_dpop_mode mw = DPoPOff" and "mw_on_error mw = (\<lambda>_. default_error_handler up realm meta)"
    and "extract_token r = None"
  shows "resp_status (fst (handler J mw nxt r new_response w)) = Some 401"
    and "header_values (resp_header (fst (handler J mw nxt r new_response w))) ''WWW-Authenticate''
      = [build_challenge up errNoToken realm meta]"
proof -
  have "fst (handler J mw nxt r new_response w) = default_error_handler up realm meta (AuthError errNoToken) new_response"
    by (simp add: handler_def guard_def authenticate_def no_token_error_def deny_def assms)
  moreover have "ae_status errNoToken = 401" "\<not> ae_with_bearer errNoToken"
    by (simp_all add: errNoToken_def zero_auth_error_def)
  ultimately show "resp_status (fst (handler J mw nxt r new_response w)) = Some 401"
    "header_values (resp_header (fst (handler J mw nxt r new_response w))) ''WWW-Authenticate''
      = [build_challenge up errNoToken realm meta]"
    by (simp_all add: default_answer)
qed

text \<open>
  The example starts; a request without a token is told, at /mcp, where the metadata is, and there the
  same server answers with the document.
\<close>

lemma nethttp_example_serves:
  fixes w :: "('s, 'e) world"
  assumes "\<forall>a \<in> {''RS256'', ''ES256'', ''EdDSA''}. jwa_lookup J a = Some False"
  shows "\<exists>m w'. bearer_nethttp J w = (Inr m, w')
    \<and> (\<forall>r v other. req_path r = ''/mcp'' \<and> extract_token r = None \<longrightarrow>
         resp_status (fst (serve_mux m other r new_response v)) = Some 401
         \<and> header_values (resp_header (fst (serve_mux m other r new_response v))) ''WWW-Authenticate'' =
             [build_challenge (uprint J) errNoToken local_resource ''http://localhost:8080/.well-known/oauth-protected-resource''])
    \<and> (\<forall>r v other. req_path r = ''/.well-known/oauth-protected-resource'' \<and> req_method r = ''GET'' \<longrightarrow>
         resp_status (fst (serve_mux m other r new_response v)) = Some 200
         \<and> (\<exists>ms. json_parse (resp_body (fst (serve_mux m other r new_response v))) = Some (JObj ms)
              \<and> map_of ms ''resource'' = Some (JStr local_resource)
              \<and> map_of ms ''authorization_servers'' = Some (JArr [JStr idp])))"
proof -
  let ?md = "empty_metadata\<lparr>md_resource := local_resource, md_authorization_servers := [idp], md_scopes_supported := [''mcp:read'']\<rparr>"
  let ?h = "\<lparr>mh_body = json_print (JObj (typed_fields ?md)), mh_cache_control = default_cache_control, mh_cors = False\<rparr>"
  let ?path = "''/.well-known/oauth-protected-resource''"
  obtain mw :: "('s, 'e) bearer_mw" where mw: "configure J (local_opts [''mcp:read'']) = Inr mw" "mw_dpop_mode mw = DPoPOff"
    "mw_on_error mw = (\<lambda>_. default_error_handler (uprint J) local_resource ''http://localhost:8080/.well-known/oauth-protected-resource'')"
    using local_configure [OF assms] by blast
  let ?m = "[(?path, \<lambda>r rsp v. (serve_metadata ?h r rsp, v)), (''/mcp'', handler J mw authorized)]"
  obtain w' where run: "bearer_nethttp J w = (Inr ?m, w')"
    using mw(1) by (simp add: bearer_nethttp_def local_handler empty_metadata_def local_path require_bearer_def del: json_print.simps)
  have mcp: "serve_mux ?m other r new_response v = handler J mw authorized r new_response v" if "req_path r = ''/mcp''" for r :: request and v :: "('s, 'e) world" and other
    using that by (simp add: serve_mux_def)
  have meta: "serve_mux ?m other r new_response v = (serve_metadata ?h r new_response, v)" if "req_path r = ?path" for r :: request and v :: "('s, 'e) world" and other
    using that by (simp add: serve_mux_def)
  have ok: "json_ok (JObj (typed_fields ?md))" by code_simp
  have fields: "map_of (typed_fields ?md) ''resource'' = Some (JStr local_resource)"
    "map_of (typed_fields ?md) ''authorization_servers'' = Some (JArr [JStr idp])"
    by (simp_all add: typed_fields_def strings_field_def empty_metadata_def)
  have doc: "resp_status (serve_metadata ?h r new_response) = Some 200"
    "resp_body (serve_metadata ?h r new_response) = json_print (JObj (typed_fields ?md))"
    if "req_method r = ''GET''" for r
    using that by (simp_all add: serve_metadata_def set_headers_def Let_def new_response_def del: json_print.simps)
  show ?thesis
  proof (intro exI [of _ ?m] exI [of _ w'] conjI allI impI; (elim conjE)?)
    show "bearer_nethttp J w = (Inr ?m, w')" by (rule run)
  next
    fix r :: request and v :: "('s, 'e) world" and other
    assume "req_path r = ''/mcp''" "extract_token r = None"
    then show "resp_status (fst (serve_mux ?m other r new_response v)) = Some 401"
      "header_values (resp_header (fst (serve_mux ?m other r new_response v))) ''WWW-Authenticate'' =
         [build_challenge (uprint J) errNoToken local_resource ''http://localhost:8080/.well-known/oauth-protected-resource'']"
      by (simp_all only: mcp no_token_answer [OF mw(2,3)])
  next
    fix r :: request and v :: "('s, 'e) world" and other
    assume r: "req_path r = ?path" "req_method r = ''GET''"
    then show "resp_status (fst (serve_mux ?m other r new_response v)) = Some 200" by (simp only: meta fst_conv doc)
    show "\<exists>ms. json_parse (resp_body (fst (serve_mux ?m other r new_response v))) = Some (JObj ms)
        \<and> map_of ms ''resource'' = Some (JStr local_resource)
        \<and> map_of ms ''authorization_servers'' = Some (JArr [JStr idp])"
      unfolding meta [OF r(1)] fst_conv doc(2) [OF r(2)] typed_parse [OF ok]
      by (intro exI [of _ "typed_fields ?md"] conjI refl fields)
  qed
qed

end
