(* ===== verification/RequestsConc.thy ===== *)
theory RequestsConc
  imports Sessions Demo KeysConc
begin

text \<open>
  Concurrent requests through one middleware with the in-memory replay cache. What a request does
  before the replay check does not involve the cache; it runs here in any world at all, so whatever
  the other requests do to the key source and the clock is covered. \<open>Seen\<close> then reads the clock
  and, in a second step, enters its mutex. An interleaving orders these steps in any way.
\<close>

section \<open>The handler, cut at the replay check\<close>

text \<open>\<open>verifyProof\<close> up to \<open>checkReplay\<close>.\<close>

definition checked_proof ::
  "('k, 's) jose \<Rightarrow> ('s, 'e) bearer_mw \<Rightarrow> request \<Rightarrow> string \<Rightarrow> claims \<Rightarrow> ('s, 'e) world
     \<Rightarrow> (auth_error + dpop_proof) \<times> ('s, 'e) world" where
  "checked_proof J mw r tok c w =
     (if bound_key_thumbprint c = []
      then (Inl (errInvalidDPoPProof ''access token is not DPoP-bound''), w)
      else
        (case header_values (req_header r) ''DPoP'' of
           [raw] \<Rightarrow>
             (case parse_and_verify_proof J raw (mw_dpop_algs mw) of
                Inl e \<Rightarrow> (Inl (errInvalidDPoPProof e), w)
              | Inr p \<Rightarrow>
                  (case check_proof_claims mw r tok c p w of
                     (Some ae, w1) \<Rightarrow> (Inl ae, w1)
                   | (None, w1) \<Rightarrow>
                       (case check_nonce mw r p w1 of
                          (Some ae, w2) \<Rightarrow> (Inl ae, w2)
                        | (None, w2) \<Rightarrow> (Inr p, w2))))
         | _ \<Rightarrow> (Inl (errInvalidDPoPProof ''expected exactly one DPoP header''), w)))"

datatype verdict = Denied | Cleared claims | Proved claims dpop_proof

definition before_replay ::
  "('k, 's) jose \<Rightarrow> ('s, 'e) bearer_mw \<Rightarrow> request \<Rightarrow> ('s, 'e) world \<Rightarrow> verdict \<times> ('s, 'e) world" where
  "before_replay J mw r w =
     (case authenticate J mw r new_response w of
        (None, _, w1) \<Rightarrow> (Denied, w1)
      | (Some (c, raw, scheme), _, w1) \<Rightarrow>
          if mw_dpop_mode mw = DPoPOff
          then (if bound_key_thumbprint c \<noteq> [] then Denied else Cleared c, w1)
          else if scheme \<noteq> ''DPoP''
          then (case gate_bearer mw r c of Some _ \<Rightarrow> Denied | None \<Rightarrow> Cleared c, w1)
          else
            (case checked_proof J mw r raw c w1 of
               (Inl _, w2) \<Rightarrow> (Denied, w2)
             | (Inr p, w2) \<Rightarrow> (Proved c p, w2)))"

lemma verify_proof_cut:
  "verify_proof J mw r tok c w =
     (case checked_proof J mw r tok c w of
        (Inl ae, w1) \<Rightarrow> (Some ae, w1)
      | (Inr p, w1) \<Rightarrow> check_replay mw p w1)"
  by (simp add: verify_proof_def checked_proof_def split: list.split sum.split prod.split option.split)

lemma emit_mem [simp]: "w_mem (emit mw r ev c w) = w_mem w"
  by (simp add: emit_def Let_def now_def split: option.split)

lemma deny_memD: "deny mw r ae ev c rsp w = (rsp', w') \<Longrightarrow> w_mem w' = w_mem w"
  by (auto simp: deny_def Let_def)

text \<open>The handler is its first part and then the replay check; what follows leaves the cache alone.\<close>

lemma guard_cut:
  assumes "before_replay J mw r w = (v, w1)" and "guard J mw r new_response w = (a, rsp, w')"
  shows "case v of
      Denied \<Rightarrow> a = None \<and> w_mem w' = w_mem w1
    | Cleared c \<Rightarrow> a = Some c \<and> w_mem w' = w_mem w1
    | Proved c p \<Rightarrow> a = (if fst (check_replay mw p w1) = None then Some c else None)
        \<and> w_mem w' = w_mem (snd (check_replay mw p w1))"
proof -
  obtain au rsp1 u where au: "authenticate J mw r new_response w = (au, rsp1, u)" by (metis prod_cases3)
  show ?thesis
  proof (cases au)
    case None
    with assms au show ?thesis by (simp add: before_replay_def guard_def)
  next
    case (Some x)
    obtain c raw scheme where x: "x = (c, raw, scheme)" by (metis prod_cases3)
    obtain d u2 where d: "checked_proof J mw r raw c u = (d, u2)" by fastforce
    consider "mw_dpop_mode mw = DPoPOff" | "mw_dpop_mode mw \<noteq> DPoPOff" "scheme \<noteq> ''DPoP''"
      | "mw_dpop_mode mw \<noteq> DPoPOff" "scheme = ''DPoP''" by blast
    then show ?thesis
    proof cases
      case 1
      with assms au Some x show ?thesis
        by (auto simp: before_replay_def guard_def enforce_dpop_def split: if_splits prod.splits dest: deny_memD)
    next
      case 2
      with assms au Some x show ?thesis
        by (auto simp: before_replay_def guard_def enforce_dpop_def verify_dpop_def
            split: option.splits prod.splits dest: deny_memD)
    next
      case 3
      obtain e u3 where e: "case d of Inl ae \<Rightarrow> e = Some ae \<and> u3 = u2 | Inr p \<Rightarrow> check_replay mw p u2 = (e, u3)"
        by (cases d) (auto intro: prod.exhaust)
      have v: "verify_dpop J mw r raw c scheme u = (e, u3)"
        using 3 d e by (simp add: verify_dpop_def verify_proof_cut split: sum.splits)
      from assms au Some x 3 d e v show ?thesis
        by (cases d; cases e)
          (auto simp: before_replay_def guard_def enforce_dpop_def split: prod.splits dest: deny_memD)
    qed
  qed
qed

lemma before_replay_Proved:
  assumes "before_replay J mw r w = (Proved c p, w1)"
  shows "proof_of J mw r p"
  using assms
  by (auto simp: before_replay_def checked_proof_def proof_of_def parse_and_verify_proof_Inr [symmetric]
      split: prod.splits option.splits if_splits sum.splits list.splits)

section \<open>State and steps\<close>

datatype req_phase =
  Arrived request
| Holding request claims dpop_proof
| Dated request claims dpop_proof instant
| Turned_away request
| Replayed request dpop_proof
| Let_in request claims "dpop_proof option"

text \<open>The cache and the requests; and the instants \<open>Seen\<close> has worked with, which no step reads.\<close>

record req_state =
  rs_mem :: mem_replay
  rs_requests :: "req_phase list"
  rs_readings :: "instant list"

definition set_request :: "nat \<Rightarrow> req_phase \<Rightarrow> req_state \<Rightarrow> req_state" where
  "set_request i q s = s\<lparr>rs_requests := (rs_requests s)[i := q]\<rparr>"

definition check_request ::
  "('k, 's) jose \<Rightarrow> ('s, 'e) bearer_mw \<Rightarrow> nat \<Rightarrow> request \<Rightarrow> ('s, 'e) world \<Rightarrow> req_state \<Rightarrow> req_state" where
  "check_request J mw i r w s =
     set_request i (case fst (before_replay J mw r w) of
         Denied \<Rightarrow> Turned_away r
       | Cleared c \<Rightarrow> Let_in r c None
       | Proved c p \<Rightarrow> Holding r c p) s"

text \<open>The part of \<open>Seen\<close> under the mutex, and what \<open>checkReplay\<close> makes of its answer.\<close>

definition decide_request ::
  "('s, 'e) bearer_mw \<Rightarrow> nat \<Rightarrow> request \<Rightarrow> claims \<Rightarrow> dpop_proof \<Rightarrow> instant \<Rightarrow> req_state \<Rightarrow> req_state" where
  "decide_request mw i r c p t s =
     (let (seen, m) = seen_at t (dp_jti p) (expiry_of mw p) (rs_mem s)
      in set_request i (if seen then Replayed r p else Let_in r c (Some p))
           (s\<lparr>rs_mem := m, rs_readings := t # rs_readings s\<rparr>))"

inductive req_step ::
  "('k, 's) jose \<Rightarrow> ('s, 'e) bearer_mw \<Rightarrow> req_state \<Rightarrow> nat \<Rightarrow> req_state \<Rightarrow> bool"
  for J :: "('k, 's) jose" and mw :: "('s, 'e) bearer_mw" where
  begin_request: "i < length (rs_requests s) \<Longrightarrow> rs_requests s ! i = Arrived r \<Longrightarrow>
    req_step J mw s i (check_request J mw i r w s)"
| read_clock: "i < length (rs_requests s) \<Longrightarrow> rs_requests s ! i = Holding r c p \<Longrightarrow>
    req_step J mw s i (set_request i (Dated r c p t) s)"
| under_mutex: "i < length (rs_requests s) \<Longrightarrow> rs_requests s ! i = Dated r c p t \<Longrightarrow>
    req_step J mw s i (decide_request mw i r c p t s)"

inductive_cases req_stepE: "req_step J mw s i s'"

inductive req_run :: "('k, 's) jose \<Rightarrow> ('s, 'e) bearer_mw \<Rightarrow> req_state \<Rightarrow> nat \<Rightarrow> req_state \<Rightarrow> bool"
  for J :: "('k, 's) jose" and mw :: "('s, 'e) bearer_mw" and s0 :: req_state where
  req_refl: "req_run J mw s0 0 s0"
| req_next: "req_run J mw s0 n s \<Longrightarrow> req_step J mw s i s' \<Longrightarrow> req_run J mw s0 (Suc n) s'"

text \<open>A new middleware, and the requests that reach it.\<close>

definition arriving :: "request list \<Rightarrow> req_state" where
  "arriving rs = \<lparr>rs_mem = new_mem_replay, rs_requests = map Arrived rs, rs_readings = []\<rparr>"

lemma set_request_sel [simp]:
  "rs_mem (set_request i q s) = rs_mem s" "rs_readings (set_request i q s) = rs_readings s"
  "rs_requests (set_request i q s) = (rs_requests s)[i := q]"
  by (simp_all add: set_request_def)

section \<open>The invariant\<close>

text \<open>Request number \<open>i\<close> was admitted with proof \<open>p\<close>; the expiry of \<open>p\<close> has been reached.\<close>

definition let_in :: "req_state \<Rightarrow> nat \<Rightarrow> dpop_proof \<Rightarrow> bool" where
  "let_in s i p \<longleftrightarrow> i < length (rs_requests s) \<and> (\<exists>r c. rs_requests s ! i = Let_in r c (Some p))"

definition expired :: "('s, 'e) bearer_mw \<Rightarrow> req_state \<Rightarrow> dpop_proof \<Rightarrow> bool" where
  "expired mw s p \<longleftrightarrow> (\<exists>t \<in> set (rs_readings s). expiry_of mw p \<le> t)"

definition recorded :: "('s, 'e) bearer_mw \<Rightarrow> req_state \<Rightarrow> dpop_proof \<Rightarrow> bool" where
  "recorded mw s p \<longleftrightarrow> mr_seen (rs_mem s) (dp_jti p) = Some (expiry_of mw p)"

fun phase_ok :: "('k, 's) jose \<Rightarrow> ('s, 'e) bearer_mw \<Rightarrow> req_phase \<Rightarrow> bool" where
  "phase_ok J mw (Holding r c p) \<longleftrightarrow> proof_of J mw r p"
| "phase_ok J mw (Dated r c p t) \<longleftrightarrow> proof_of J mw r p"
| "phase_ok J mw (Replayed r p) \<longleftrightarrow> proof_of J mw r p"
| "phase_ok J mw (Let_in r c (Some p)) \<longleftrightarrow> proof_of J mw r p"
| "phase_ok J mw _ \<longleftrightarrow> True"

definition replay_inv :: "('s, 'e) bearer_mw \<Rightarrow> req_state \<Rightarrow> bool" where
  "replay_inv mw s \<longleftrightarrow>
     (\<forall>i p. let_in s i p \<longrightarrow> recorded mw s p \<or> expired mw s p)
     \<and> (\<forall>i k p q. i \<noteq> k \<longrightarrow> let_in s i p \<longrightarrow> let_in s k q \<longrightarrow> dp_jti p = dp_jti q \<longrightarrow> expired mw s p \<or> expired mw s q)
     \<and> (\<forall>j. mr_seen (rs_mem s) j \<noteq> None \<longrightarrow> (\<exists>i p. let_in s i p \<and> dp_jti p = j))
     \<and> (\<forall>r p. Replayed r p \<in> set (rs_requests s) \<longrightarrow> (\<exists>i q. let_in s i q \<and> dp_jti q = dp_jti p))"

lemma let_in_set_request:
  "let_in (set_request i q s) k p \<longleftrightarrow>
     (if k = i \<and> i < length (rs_requests s) then \<exists>r c. q = Let_in r c (Some p) else let_in s k p)"
  by (auto simp: let_in_def nth_list_update)

text \<open>A step of a request that is not yet before the cache, or never comes there.\<close>

lemma replay_inv_phase:
  assumes inv: "replay_inv mw s" and i: "i < length (rs_requests s)"
    and old: "\<forall>r c p. rs_requests s ! i \<noteq> Let_in r c (Some p)"
    and new: "\<forall>r c p. q \<noteq> Let_in r c (Some p)" "\<forall>r p. q \<noteq> Replayed r p"
  shows "replay_inv mw (set_request i q s)"
proof -
  have same: "let_in (set_request i q s) k p \<longleftrightarrow> let_in s k p" for k p
    unfolding let_in_set_request using old new(1) by (auto simp: let_in_def)
  moreover have "Replayed r p \<in> set (rs_requests s)" if "Replayed r p \<in> set ((rs_requests s)[i := q])" for r p
    using that new(2) set_update_subset_insert [of "rs_requests s" i q] by auto
  ultimately show ?thesis
    using inv unfolding replay_inv_def recorded_def expired_def set_request_sel same by blast
qed

text \<open>The call of the cache at \<open>t\<close>: what it does to the requests admitted before.\<close>

lemma expired_more: "expired mw s p \<Longrightarrow> rs_readings s' = t # rs_readings s \<Longrightarrow> expired mw s' p"
  by (auto simp: expired_def)

lemma still_kept:
  assumes inv: "replay_inv mw s" and r: "rs_readings s' = t # rs_readings s"
    and m: "rs_mem s' = snd (seen_at t j e (rs_mem s))" and k: "let_in s k q"
  shows "recorded mw s' q \<or> expired mw s' q"
proof (cases "expired mw s' q")
  case False
  then have "t < expiry_of mw q" using r by (auto simp: expired_def)
  moreover have "recorded mw s q" using inv k False expired_more [OF _ r] unfolding replay_inv_def by blast
  ultimately show ?thesis unfolding recorded_def m by (blast intro: mem.keeps)
qed simp

lemma still_apart:
  assumes "replay_inv mw s" and "rs_readings s' = t # rs_readings s" and "i \<noteq> k"
    and "let_in s i p" and "let_in s k q" and "dp_jti p = dp_jti q"
  shows "expired mw s' p \<or> expired mw s' q"
  using assms expired_more unfolding replay_inv_def by metis

lemma replay_inv_replayed:
  assumes inv: "replay_inv mw s" and i: "i < length (rs_requests s)" and at: "rs_requests s ! i = Dated r c p t"
    and seen: "seen_at t (dp_jti p) (expiry_of mw p) (rs_mem s) = (True, m)"
  shows "replay_inv mw (decide_request mw i r c p t s)"
proof -
  define s' where "s' = decide_request mw i r c p t s"
  have s': "rs_mem s' = m" "rs_readings s' = t # rs_readings s"
    "rs_requests s' = (rs_requests s)[i := Replayed r p]"
    using seen by (simp_all add: s'_def decide_request_def)
  have mm: "rs_mem s' = snd (seen_at t (dp_jti p) (expiry_of mw p) (rs_mem s))" using seen s'(1) by simp
  have same: "let_in s' k q \<longleftrightarrow> let_in s k q" for k q
    using at by (cases "k = i") (auto simp: let_in_def s')
  have kept: "recorded mw s' q \<or> expired mw s' q" if "let_in s k q" for k q
    using inv s'(2) mm that by (rule still_kept)
  have less: "mr_seen (rs_mem s) j \<noteq> None" if "mr_seen m j \<noteq> None" for j
    using that seen_at_True [OF seen] sweep_None by metis
  have "mr_seen (rs_mem s) (dp_jti p) \<noteq> None" using seen fst_seen_at by (metis fst_conv option.simps(3))
  then have who: "\<exists>k q. let_in s k q \<and> dp_jti q = dp_jti p" using inv unfolding replay_inv_def by blast
  have rep: "\<exists>k q. let_in s k q \<and> dp_jti q = dp_jti p'" if "Replayed r' p' \<in> set (rs_requests s')" for r' p'
  proof -
    have "Replayed r' p' \<in> set (rs_requests s) \<or> p' = p"
      using that set_update_subset_insert [of "rs_requests s" i "Replayed r p"] unfolding s'(3) by blast
    then show ?thesis using who inv unfolding replay_inv_def by blast
  qed
  have from_s: "\<exists>k q. let_in s k q \<and> dp_jti q = j" if "mr_seen m j \<noteq> None" for j
    using less [OF that] inv unfolding replay_inv_def by blast
  show ?thesis
    unfolding s'_def [symmetric] replay_inv_def same s'(1)
    using kept still_apart [OF inv s'(2)] from_s rep by blast
qed

lemma replay_inv_admitted:
  assumes inv: "replay_inv mw s" and i: "i < length (rs_requests s)" and at: "rs_requests s ! i = Dated r c p t"
    and seen: "seen_at t (dp_jti p) (expiry_of mw p) (rs_mem s) = (False, m)"
  shows "replay_inv mw (decide_request mw i r c p t s)"
proof -
  define s' where "s' = decide_request mw i r c p t s"
  have s': "rs_mem s' = m" "rs_readings s' = t # rs_readings s"
    "rs_requests s' = (rs_requests s)[i := Let_in r c (Some p)]"
    using seen by (simp_all add: s'_def decide_request_def)
  have mm: "rs_mem s' = snd (seen_at t (dp_jti p) (expiry_of mw p) (rs_mem s))" using seen s'(1) by simp
  have ins: "let_in s' k q \<longleftrightarrow> (k = i \<and> q = p \<or> k \<noteq> i \<and> let_in s k q)" for k q
    using i by (cases "k = i") (auto simp: let_in_def s')
  have old: "k \<noteq> i" if "let_in s k q" for k q using at that by (auto simp: let_in_def)
  have new: "recorded mw s' p" using mem.records [OF seen] by (simp add: s' recorded_def)
  have kept: "recorded mw s' q \<or> expired mw s' q" if "let_in s k q" for k q
    using inv s'(2) mm that by (rule still_kept)
  have over: "expired mw s' q" if "let_in s k q" "dp_jti q = dp_jti p" for k q
  proof (cases "recorded mw s q")
    case True
    then have "\<not> t < expiry_of mw q" using that seen fst_seen_at unfolding recorded_def by (metis fst_conv)
    then show ?thesis by (auto simp: s' expired_def)
  next
    case False
    with that inv show ?thesis unfolding replay_inv_def using expired_more s'(2) by blast
  qed
  have apart: "expired mw s' q \<or> expired mw s' q'"
    if "k \<noteq> l" "let_in s' k q" "let_in s' l q'" "dp_jti q = dp_jti q'" for k l q q'
    using that over still_apart [OF inv s'(2)] unfolding ins by metis
  have still: "\<exists>k q. let_in s' k q \<and> dp_jti q = j" if "\<exists>k q. let_in s k q \<and> dp_jti q = j" for j
    using that old unfolding ins by blast
  have from_s: "\<exists>k q. let_in s' k q \<and> dp_jti q = j" if "mr_seen m j \<noteq> None" for j
  proof (cases "j = dp_jti p")
    case True
    then show ?thesis by (metis ins)
  next
    case False
    then have "mr_seen (rs_mem s) j \<noteq> None" using that seen_at_False [OF seen] sweep_None [of "rs_mem s" j t]
      by (auto dest: sweep_Some)
    then show ?thesis using inv still unfolding replay_inv_def by blast
  qed
  have rep: "\<exists>k q. let_in s' k q \<and> dp_jti q = dp_jti p'" if "Replayed r' p' \<in> set (rs_requests s')" for r' p'
  proof -
    have "Replayed r' p' \<in> set (rs_requests s)"
      using that set_update_subset_insert [of "rs_requests s" i "Let_in r c (Some p)"] unfolding s'(3) by blast
    then show ?thesis using inv still unfolding replay_inv_def by blast
  qed
  have here: "recorded mw s' q \<or> expired mw s' q" if "let_in s' k q" for k q
    using that new kept unfolding ins by blast
  show ?thesis
    unfolding s'_def [symmetric] replay_inv_def s'(1)
    using here apart from_s rep by blast
qed

lemma replay_inv_step:
  assumes inv: "replay_inv mw s" and step: "req_step J mw s i s'"
  shows "replay_inv mw s'"
  using step
proof cases
  case (begin_request r w)
  show ?thesis
  proof (cases "fst (before_replay J mw r w)")
    case (Cleared c)
    with begin_request replay_inv_phase [OF inv, of i "Let_in r c None"] show ?thesis
      by (simp add: check_request_def)
  qed (use begin_request replay_inv_phase [OF inv] in \<open>simp_all add: check_request_def\<close>)
next
  case (read_clock r c p t)
  with replay_inv_phase [OF inv, of i] show ?thesis by simp
next
  case (under_mutex r c p t)
  obtain b m where "seen_at t (dp_jti p) (expiry_of mw p) (rs_mem s) = (b, m)" by fastforce
  with under_mutex inv show ?thesis
    by (cases b) (simp_all add: replay_inv_replayed replay_inv_admitted)
qed

lemma phase_ok_step:
  assumes all: "\<forall>q \<in> set (rs_requests s). phase_ok J mw q" and step: "req_step J mw s i s'"
  shows "\<forall>q \<in> set (rs_requests s'). phase_ok J mw q"
proof -
  have "\<exists>q. rs_requests s' = (rs_requests s)[i := q] \<and> phase_ok J mw q"
    using step
  proof cases
    case (begin_request r w)
    obtain v w1 where v: "before_replay J mw r w = (v, w1)" by fastforce
    then show ?thesis
      using begin_request before_replay_Proved [of J mw r w] by (cases v) (auto simp: check_request_def)
  next
    case (read_clock r c p t)
    then have "phase_ok J mw (Holding r c p)" using all by (metis nth_mem)
    with read_clock show ?thesis by auto
  next
    case (under_mutex r c p t)
    then have "phase_ok J mw (Dated r c p t)" using all by (metis nth_mem)
    with under_mutex show ?thesis by (auto simp: decide_request_def Let_def split: prod.split)
  qed
  then show ?thesis using callers_ok_update [OF all] by metis
qed

lemma replay_inv_arriving: "replay_inv mw (arriving rs)"
  by (auto simp: replay_inv_def let_in_def arriving_def new_mem_replay_def)

lemma req_run_inv: "req_run J mw (arriving rs) n s \<Longrightarrow> replay_inv mw s"
proof (induction rule: req_run.induct)
  case req_refl
  show ?case by (rule replay_inv_arriving)
next
  case (req_next n s i s')
  then show ?case by (blast intro: replay_inv_step)
qed

lemma req_run_phases: "req_run J mw (arriving rs) n s \<Longrightarrow> \<forall>q \<in> set (rs_requests s). phase_ok J mw q"
proof (induction rule: req_run.induct)
  case req_refl
  show ?case by (simp add: arriving_def)
next
  case (req_next n s i s')
  then show ?case by (blast dest: phase_ok_step)
qed

section \<open>Runs end\<close>

fun phase_left :: "req_phase \<Rightarrow> nat" where
  "phase_left (Arrived r) = 3"
| "phase_left (Holding r c p) = 2"
| "phase_left (Dated r c p t) = 1"
| "phase_left _ = 0"

definition req_left :: "req_state \<Rightarrow> nat" where
  "req_left s = sum_list (map phase_left (rs_requests s))"

definition settled :: "req_phase \<Rightarrow> bool" where
  "settled q \<longleftrightarrow> phase_left q = 0"

lemma req_step_phase:
  assumes "req_step J mw s i s'"
  shows "i < length (rs_requests s)
    \<and> (\<exists>q. rs_requests s' = (rs_requests s)[i := q] \<and> phase_left q < phase_left (rs_requests s ! i))"
  using assms
  by cases (auto simp: check_request_def decide_request_def Let_def split: verdict.split prod.split)

lemma req_left_step: "req_step J mw s i s' \<Longrightarrow> req_left s' < req_left s"
  unfolding req_left_def using req_step_phase sum_list_less_update [of _ "rs_requests s" _ phase_left] by metis

lemma req_run_left: "req_run J mw s0 n s \<Longrightarrow> n + req_left s \<le> req_left s0"
  by (induction rule: req_run.induct) (auto dest: req_left_step)

lemma req_left_arriving: "req_left (arriving rs) = 3 * length rs"
  by (simp add: req_left_def arriving_def sum_list_triv comp_def)

lemma req_moves:
  assumes i: "i < length (rs_requests s)" and "\<not> settled (rs_requests s ! i)"
  shows "\<exists>s'. req_step J mw s i s'"
proof (cases "rs_requests s ! i")
  case (Arrived r)
  show ?thesis by (rule exI, rule req_step.begin_request [OF i Arrived])
next
  case (Holding r c p)
  show ?thesis by (rule exI, rule req_step.read_clock [OF i Holding])
next
  case (Dated r c p t)
  show ?thesis by (rule exI, rule req_step.under_mutex [OF i Dated])
qed (use assms in \<open>simp_all add: settled_def\<close>)

section \<open>One request alone\<close>

text \<open>The sequential handler is the run of a request that no other overtakes.\<close>

lemma req_one: "req_step J mw s0 i s \<Longrightarrow> req_run J mw s0 1 s"
  using req_run.req_next [OF req_run.req_refl] by fastforce

lemma req_snoc: "req_run J mw s0 n s \<Longrightarrow> req_step J mw s i s' \<Longrightarrow> m = Suc n \<Longrightarrow> req_run J mw s0 m s'"
  using req_run.req_next by fast

lemma check_replay_mem:
  assumes "mw_replay mw = mem_seen"
    and "seen_at (w_clock w (w_tick w)) (dp_jti p) (expiry_of mw p) (w_mem w) = (b, m)"
  shows "(fst (check_replay mw p w) = None) = (\<not> b) \<and> w_mem (snd (check_replay mw p w)) = m"
  using assms by (auto simp: check_replay_def mem_seen_def now_def expiry_of_def split: bool.split)

lemma request_alone:
  assumes i: "i < length (rs_requests s)" and at: "rs_requests s ! i = Arrived r"
    and b: "before_replay J mw r w = (v, w1)" and g: "guard J mw r new_response w = (a, rsp, w')"
    and m: "rs_mem s = w_mem w1" and mw: "mw_replay mw = mem_seen"
  shows "\<exists>n s' q. req_run J mw s n s' \<and> n \<le> 3 \<and> rs_requests s' = (rs_requests s)[i := q]
    \<and> rs_mem s' = w_mem w'
    \<and> (case a of None \<Rightarrow> q = Turned_away r \<or> (\<exists>p. q = Replayed r p) | Some c \<Rightarrow> \<exists>op. q = Let_in r c op)"
proof -
  have r1: "req_run J mw s 1 (check_request J mw i r w s)" by (rule req_one, rule req_step.begin_request [OF i at])
  note cut = guard_cut [OF b g]
  have fin: ?thesis if "req_run J mw s n s'" "n \<le> 3" "rs_requests s' = (rs_requests s)[i := q]"
    "rs_mem s' = w_mem w'"
    "case a of None \<Rightarrow> q = Turned_away r \<or> (\<exists>p. q = Replayed r p) | Some c \<Rightarrow> \<exists>op. q = Let_in r c op" for n s' q
    using that by blast
  show ?thesis
  proof (cases v)
    case Denied
    with cut m b show ?thesis by (intro fin [OF r1, of "Turned_away r"]) (simp_all add: check_request_def)
  next
    case (Cleared c)
    with cut m b show ?thesis by (intro fin [OF r1, of "Let_in r c None"]) (simp_all add: check_request_def)
  next
    case (Proved c p)
    define t where "t = w_clock w1 (w_tick w1)"
    obtain seen mm where sn: "seen_at t (dp_jti p) (expiry_of mw p) (w_mem w1) = (seen, mm)" by fastforce
    define s1 s2 s3 where "s1 = check_request J mw i r w s" and "s2 = set_request i (Dated r c p t) s1"
      and "s3 = decide_request mw i r c p t s2"
    have s1: "rs_requests s1 = (rs_requests s)[i := Holding r c p]" "rs_mem s1 = w_mem w1"
      using Proved b m by (simp_all add: s1_def check_request_def)
    have "req_step J mw s1 i s2" unfolding s2_def by (rule req_step.read_clock) (simp_all add: s1 i)
    with r1 have r2: "req_run J mw s 2 s2" unfolding s1_def [symmetric] by (rule req_snoc) simp
    have "req_step J mw s2 i s3" unfolding s3_def by (rule req_step.under_mutex) (simp_all add: s1 s2_def i)
    with r2 have r3: "req_run J mw s 3 s3" by (rule req_snoc) simp
    have s3: "rs_requests s3 = (rs_requests s)[i := if seen then Replayed r p else Let_in r c (Some p)]" "rs_mem s3 = mm"
      using sn s1 by (simp_all add: s3_def s2_def decide_request_def)
    have "a = (if seen then None else Some c)" "w_mem w' = mm"
      using cut Proved check_replay_mem [OF mw sn [unfolded t_def]] by auto
    with s3 show ?thesis by (intro fin [OF r3 _ s3(1)]) simp_all
  qed
qed

lemma guard_Proved:
  assumes g: "guard J mw r new_response w = (Some c, rsp, w')"
    and x: "extract_token r = Some (''DPoP'', raw)" and p: "proof_of J mw r p"
  shows "\<exists>w1. before_replay J mw r w = (Proved c p, w1)"
proof -
  obtain v w1 where v: "before_replay J mw r w = (v, w1)" by fastforce
  have "v \<noteq> Cleared d" for d
    using v x by (auto simp: before_replay_def authenticate_Some split: prod.splits option.splits if_splits sum.splits)
  with guard_cut [OF v g] obtain q where "v = Proved c q" by (cases v) (auto split: if_splits)
  then show ?thesis using before_replay_Proved proof_of_unique v p by metis
qed

section \<open>Property\<close>

text \<open>
  C11. Concurrent requests: in every interleaving of requests to a new middleware with the in-memory
  replay cache, a run takes at most three steps for each request and is never stuck before all are
  settled; the proof of an admitted request is the one it carries; a request is turned away as a replay
  only when another one with the same jti has been admitted; and two requests with one jti are both
  admitted only when \<open>Seen\<close> has read from the clock an instant at which one of the proofs had expired.
\<close>

theorem requests_interleaved:
  assumes "req_run J mw (arriving rs) n s"
  shows "n \<le> 3 * length rs
    \<and> ((\<exists>i s'. req_step J mw s i s') \<or> (\<forall>q \<in> set (rs_requests s). settled q))
    \<and> (\<forall>r c p. Let_in r c (Some p) \<in> set (rs_requests s) \<longrightarrow> proof_of J mw r p)
    \<and> (\<forall>r p. Replayed r p \<in> set (rs_requests s) \<longrightarrow> (\<exists>k q. let_in s k q \<and> dp_jti q = dp_jti p))
    \<and> (\<forall>i k p q. i \<noteq> k \<and> let_in s i p \<and> let_in s k q \<and> dp_jti p = dp_jti q \<longrightarrow>
         (\<exists>t \<in> set (rs_readings s). expiry_of mw p \<le> t \<or> expiry_of mw q \<le> t))"
proof -
  have inv: "replay_inv mw s" using assms by (rule req_run_inv)
  have "n \<le> 3 * length rs" using req_run_left [OF assms] req_left_arriving by (metis add_leE)
  moreover have "(\<exists>i s'. req_step J mw s i s') \<or> (\<forall>q \<in> set (rs_requests s). settled q)"
    using req_moves by (metis in_set_conv_nth)
  moreover have "proof_of J mw r p" if "Let_in r c (Some p) \<in> set (rs_requests s)" for r c p
    using req_run_phases [OF assms] that by force
  moreover have "\<exists>t \<in> set (rs_readings s). expiry_of mw p \<le> t \<or> expiry_of mw q \<le> t"
    if "i \<noteq> k \<and> let_in s i p \<and> let_in s k q \<and> dp_jti p = dp_jti q" for i k p q
    using inv that unfolding replay_inv_def expired_def by blast
  ultimately show ?thesis using inv unfolding replay_inv_def by blast
qed

text \<open>Two copies of one request: both are checked and read the clock before either enters the mutex.\<close>

definition demo_race :: "mem_replay \<Rightarrow> req_state" where
  "demo_race m = \<lparr>rs_mem = m,
     rs_requests = [Replayed (dpop_request demo_bound) demo_proof,
       Let_in (dpop_request demo_bound) (demo_claims ''YWJj'') (Some demo_proof)],
     rs_readings = [demo_now, demo_now]\<rparr>"

lemma demo_jti: "dp_jti demo_proof = ''j1''" "demo_now < expiry_of (demo_mw DPoPRequired) demo_proof"
  using demo_time_add(1) [of demo_now]
  by (simp_all add: demo_proof_def expiry_of_def demo_mw_def demo_window_def nanos_def)

lemma demo_race_run:
  "\<exists>m. req_run demo_jose (demo_mw DPoPRequired) (arriving [dpop_request demo_bound, dpop_request demo_bound]) 6
     (demo_race m)"
proof -
  let ?mw = "demo_mw DPoPRequired" and ?r = "dpop_request demo_bound" and ?c = "demo_claims ''YWJj''"
    and ?m0 = "new_mem_replay" and ?e = "expiry_of (demo_mw DPoPRequired) demo_proof"
  let ?s = "\<lambda>m qs ts. \<lparr>rs_mem = m, rs_requests = qs, rs_readings = ts\<rparr>"
  let ?h = "Holding ?r ?c demo_proof" and ?d = "Dated ?r ?c demo_proof demo_now"
  let ?step = "req_step demo_jose ?mw" and ?run = "req_run demo_jose ?mw (arriving [?r, ?r])"
  have win: "demo_window demo_now" by (simp add: demo_window_def nanos_def)
  obtain w' where g: "guard demo_jose ?mw ?r new_response demo_world = (Some ?c, new_response, w')"
    using demo_guard_dpop [OF _ win demo_unseen] by blast
  have pr: "proof_of demo_jose ?mw ?r demo_proof"
    using demo_proves [of DPoPRequired] by (auto simp: proof_of_def demo_headers)
  obtain w1 where b: "before_replay demo_jose ?mw ?r demo_world = (Proved ?c demo_proof, w1)"
    using guard_Proved [OF g demo_extract(3) pr] by blast
  have "?step (arriving [?r, ?r]) 0 (?s ?m0 [?h, Arrived ?r] [])"
    using req_step.begin_request [of 0 "arriving [?r, ?r]" ?r demo_jose ?mw demo_world]
    by (simp add: check_request_def set_request_def arriving_def b)
  then have "?run 1 (?s ?m0 [?h, Arrived ?r] [])" by (rule req_one)
  moreover have "?step (?s ?m0 [?h, Arrived ?r] []) 1 (?s ?m0 [?h, ?h] [])"
    using req_step.begin_request [of 1 "?s ?m0 [?h, Arrived ?r] []" ?r demo_jose ?mw demo_world]
    by (simp add: check_request_def set_request_def b)
  ultimately have "?run 2 (?s ?m0 [?h, ?h] [])" by (rule req_snoc) simp
  moreover have "?step (?s ?m0 [?h, ?h] []) 0 (?s ?m0 [?d, ?h] [])"
    using req_step.read_clock [of 0 "?s ?m0 [?h, ?h] []" ?r ?c demo_proof demo_jose ?mw demo_now]
    by (simp add: set_request_def)
  ultimately have "?run 3 (?s ?m0 [?d, ?h] [])" by (rule req_snoc) simp
  moreover have "?step (?s ?m0 [?d, ?h] []) 1 (?s ?m0 [?d, ?d] [])"
    using req_step.read_clock [of 1 "?s ?m0 [?d, ?h] []" ?r ?c demo_proof demo_jose ?mw demo_now]
    by (simp add: set_request_def)
  ultimately have r4: "?run 4 (?s ?m0 [?d, ?d] [])" by (rule req_snoc) simp
  obtain m where m: "seen_at demo_now (dp_jti demo_proof) ?e ?m0 = (False, m)"
    using demo_unseen [of demo_now] by (metis demo_jti(1) prod.collapse)
  have "?step (?s ?m0 [?d, ?d] []) 1 (?s m [?d, Let_in ?r ?c (Some demo_proof)] [demo_now])"
    using req_step.under_mutex [of 1 "?s ?m0 [?d, ?d] []" ?r ?c demo_proof demo_now demo_jose ?mw]
    by (simp add: decide_request_def set_request_def m)
  with r4 have r5: "?run 5 (?s m [?d, Let_in ?r ?c (Some demo_proof)] [demo_now])" by (rule req_snoc) simp
  have "demo_now < ?e" by (rule demo_jti(2))
  then have "fst (seen_at demo_now (dp_jti demo_proof) ?e m)" using mem.records [OF m] by (rule mem.replayed [rotated])
  then obtain m' where m': "seen_at demo_now (dp_jti demo_proof) ?e m = (True, m')" by (metis prod.collapse)
  have "?step (?s m [?d, Let_in ?r ?c (Some demo_proof)] [demo_now]) 0 (demo_race m')"
    using req_step.under_mutex [of 0 "?s m [?d, Let_in ?r ?c (Some demo_proof)] [demo_now]" ?r ?c demo_proof demo_now demo_jose ?mw]
    by (simp add: decide_request_def set_request_def m' demo_race_def)
  with r5 have "?run 6 (demo_race m')" by (rule req_snoc) simp
  then show ?thesis by blast
qed

theorem requests_interleaved_witness:
  "6 \<le> 3 * length [dpop_request demo_bound, dpop_request demo_bound]
    \<and> (\<exists>m k q. let_in (demo_race m) k q \<and> dp_jti q = dp_jti demo_proof)"
proof -
  obtain m where "req_run demo_jose (demo_mw DPoPRequired)
      (arriving [dpop_request demo_bound, dpop_request demo_bound]) 6 (demo_race m)"
    using demo_race_run by blast
  note all = requests_interleaved [OF this]
  moreover have "Replayed (dpop_request demo_bound) demo_proof \<in> set (rs_requests (demo_race m))"
    by (simp add: demo_race_def)
  ultimately show ?thesis by blast
qed

end
