(* ===== verification/SystemConc.thy ===== *)
theory SystemConc
  imports RequestsConc KeysClaims
begin

text \<open>
  The middleware with a remote key source and the in-memory replay cache, under concurrent requests:
  the interleavings of theory KeysConc and of theory RequestsConc in one system. A request that needs
  the keys of the authorization server is one caller of the key source; what the source answers is
  what its token is verified with.
\<close>

section \<open>A request and the key source\<close>

text \<open>The key id that \<open>verify\<close> looks up for a request; \<open>None\<close> when it is refused before that.\<close>

definition wanted_kid :: "('k, 's) jose \<Rightarrow> ('s, 'e) bearer_mw \<Rightarrow> request \<Rightarrow> string option" where
  "wanted_kid J mw r =
     (case extract_token r of
        None \<Rightarrow> None
      | Some (scheme, raw) \<Rightarrow>
          if scheme = ''DPoP'' \<and> mw_dpop_mode mw = DPoPOff then None
          else
            (case header_kid_alg J raw of
               Inl _ \<Rightarrow> None
             | Inr (kid, alg) \<Rightarrow> if alg \<in> set (mw_algs mw) then Some kid else None))"

text \<open>The key source as one caller has seen it: it answered \<open>res\<close>.\<close>

definition told :: "'s result \<Rightarrow> ('s, 'e) key_lookup" where
  "told res kid w = (res, w)"

text \<open>What \<open>setForKID\<close> returned, when that is an error or a set; it is never a nil set alone.\<close>

fun key_answer :: "'s option result \<Rightarrow> 's result option" where
  "key_answer (Inl e) = Some (Inl e)"
| "key_answer (Inr (Some ks)) = Some (Inr ks)"
| "key_answer (Inr None) = None"

lemma before_replay_unwanted:
  assumes "wanted_kid J mw r = None"
  shows "fst (before_replay J mw r w) = Denied"
proof -
  have "fst (authenticate J mw r new_response w) = None"
    using assms by (auto simp: wanted_kid_def authenticate_def verify_def split: option.splits sum.splits if_splits)
  then show ?thesis by (auto simp: before_replay_def split: prod.splits)
qed

text \<open>Another key source changes no other field, and so no other check.\<close>

lemma other_keys:
  fixes mw :: "('s, 'e) bearer_mw"
  shows "mw_issuer (mw\<lparr>mw_keys := l\<rparr>) = mw_issuer mw" "mw_audiences (mw\<lparr>mw_keys := l\<rparr>) = mw_audiences mw"
    "mw_resource (mw\<lparr>mw_keys := l\<rparr>) = mw_resource mw" "mw_required_scope (mw\<lparr>mw_keys := l\<rparr>) = mw_required_scope mw"
    "mw_skew (mw\<lparr>mw_keys := l\<rparr>) = mw_skew mw" "mw_algs (mw\<lparr>mw_keys := l\<rparr>) = mw_algs mw"
    "mw_claim_val (mw\<lparr>mw_keys := l\<rparr>) = mw_claim_val mw" "mw_on_error (mw\<lparr>mw_keys := l\<rparr>) = mw_on_error mw"
    "mw_dpop_mode (mw\<lparr>mw_keys := l\<rparr>) = mw_dpop_mode mw" "mw_dpop_algs (mw\<lparr>mw_keys := l\<rparr>) = mw_dpop_algs mw"
    "mw_dpop_algs_list (mw\<lparr>mw_keys := l\<rparr>) = mw_dpop_algs_list mw"
    "mw_proof_max_age (mw\<lparr>mw_keys := l\<rparr>) = mw_proof_max_age mw" "mw_replay (mw\<lparr>mw_keys := l\<rparr>) = mw_replay mw"
    "mw_nonce (mw\<lparr>mw_keys := l\<rparr>) = mw_nonce mw" "mw_trust_fwd (mw\<lparr>mw_keys := l\<rparr>) = mw_trust_fwd mw"
  by simp_all

lemma same_checks:
  "deny (mw\<lparr>mw_keys := l\<rparr>) = deny mw" "no_token_error (mw\<lparr>mw_keys := l\<rparr>) = no_token_error mw"
  "gate_bearer (mw\<lparr>mw_keys := l\<rparr>) = gate_bearer mw" "checked_proof J (mw\<lparr>mw_keys := l\<rparr>) = checked_proof J mw"
  "expiry_of (mw\<lparr>mw_keys := l\<rparr>) = expiry_of mw" "proof_of J (mw\<lparr>mw_keys := l\<rparr>) = proof_of J mw"
  unfolding fun_eq_iff deny_def emit_def no_token_error_def gate_bearer_def checked_proof_def
    check_proof_claims_def check_nonce_def expiry_of_def proof_of_def other_keys by (rule allI refl)+

text \<open>Where the keys are wanted, the source is asked first, and nothing else of it matters.\<close>

lemma verify_told:
  assumes "header_kid_alg J raw = Inr (kid, alg)" and "mw_keys mw kid w = (res, w1)"
    and "alg \<in> set (mw_algs mw)"
  shows "verify J (verifier_of mw) raw w = verify J (verifier_of (mw\<lparr>mw_keys := told res\<rparr>)) raw w1"
  using assms by (simp add: verify_def told_def split: sum.split prod.split)

lemma authenticate_told:
  assumes "wanted_kid J mw r = Some kid" and "mw_keys mw kid w = (res, w1)"
  shows "authenticate J mw r rsp w = authenticate J (mw\<lparr>mw_keys := told res\<rparr>) r rsp w1"
proof -
  obtain scheme raw alg where x: "extract_token r = Some (scheme, raw)"
    "\<not> (scheme = ''DPoP'' \<and> mw_dpop_mode mw = DPoPOff)"
    "header_kid_alg J raw = Inr (kid, alg)" "alg \<in> set (mw_algs mw)"
    using assms(1) by (auto simp: wanted_kid_def split: option.splits sum.splits if_splits)
  note v = verify_told [where mw = mw, OF x(3) assms(2) x(4), unfolded other_keys]
  show ?thesis
    unfolding authenticate_def x(1) option.case prod.case v other_keys same_checks if_not_P [OF x(2)] ..
qed

lemma before_replay_told:
  assumes "wanted_kid J mw r = Some kid" and "mw_keys mw kid w = (res, w1)"
  shows "before_replay J mw r w = before_replay J (mw\<lparr>mw_keys := told res\<rparr>) r w1"
  unfolding before_replay_def authenticate_told [OF assms] other_keys same_checks ..

text \<open>
  Claims that a key set of this list vouches for and that pass the checks of the middleware; a bound token
  among them was presented as DPoP.
\<close>

definition vouched :: "('k, 's) jose \<Rightarrow> ('s, 'e) bearer_mw \<Rightarrow> 's result list \<Rightarrow> request \<Rightarrow> claims \<Rightarrow> bool" where
  "vouched J mw outs r c \<longleftrightarrow>
     (\<exists>scheme raw ks t tok. extract_token r = Some (scheme, raw) \<and> Inr ks \<in> set outs
        \<and> jwt_parse J raw ks (mw_issuer mw) (mw_skew mw) t = Inr tok \<and> c = new_claims tok raw
        \<and> claims_ok mw c \<and> (bound_key_thumbprint c \<noteq> [] \<longrightarrow> scheme = ''DPoP''))"

lemma vouched_more: "vouched J mw outs r c \<Longrightarrow> set outs \<subseteq> set outs' \<Longrightarrow> vouched J mw outs' r c"
  unfolding vouched_def by blast

lemma told_vouched:
  assumes b: "before_replay J (mw\<lparr>mw_keys := told res\<rparr>) r w = (v, w1)"
    and v: "v = Cleared c \<or> v = Proved c p" and outs: "\<And>ks. res = Inr ks \<Longrightarrow> Inr ks \<in> set outs"
  shows "vouched J mw outs r c"
proof -
  let ?mw = "mw\<lparr>mw_keys := told res\<rparr>"
  obtain raw scheme rsp u where au: "authenticate J ?mw r new_response w = (Some (c, raw, scheme), rsp, u)"
    and dp: "bound_key_thumbprint c \<noteq> [] \<longrightarrow> scheme = ''DPoP''"
    using b v by (auto simp: before_replay_def gate_bearer_def split: prod.splits option.splits if_splits sum.splits)
  from au have co: "claims_ok mw c" unfolding authenticate_Some claims_ok_def other_keys by blast
  from au obtain w2 where x: "extract_token r = Some (scheme, raw)"
    and ve: "verify J (verifier_of ?mw) raw w = (Inr c, w2)"
    unfolding authenticate_Some by blast
  from verify_Inr_D [OF ve] obtain ks t tok where "res = Inr ks"
    "jwt_parse J raw ks (mw_issuer mw) (mw_skew mw) t = Inr tok" "c = new_claims tok raw"
    by (auto simp: verified_at_def told_def)
  with x outs co dp show ?thesis unfolding vouched_def by blast
qed

section \<open>State and steps\<close>

text \<open>Request \<open>i\<close> is caller \<open>i\<close> of the key source.\<close>

record 's sys_state =
  sy_keys :: "'s key_state"
  sy_reqs :: req_state

inductive sys_step ::
  "('k, 's) jose \<Rightarrow> ('s, 'e) bearer_mw \<Rightarrow> duration \<Rightarrow> 's sys_state \<Rightarrow> nat \<Rightarrow> 's sys_state \<Rightarrow> bool"
  for J :: "('k, 's) jose" and mw :: "('s, 'e) bearer_mw" and ttl :: duration where
  look_up: "i < length (rs_requests (sy_reqs s)) \<Longrightarrow> rs_requests (sy_reqs s) ! i = Arrived r \<Longrightarrow>
    wanted_kid J mw r \<noteq> None \<Longrightarrow> key_step (jwk_lookup J) ttl (sy_keys s) i k \<Longrightarrow>
    sys_step J mw ttl s i (s\<lparr>sy_keys := k\<rparr>)"
| refuse: "i < length (rs_requests (sy_reqs s)) \<Longrightarrow> rs_requests (sy_reqs s) ! i = Arrived r \<Longrightarrow>
    wanted_kid J mw r = None \<Longrightarrow>
    sys_step J mw ttl s i (s\<lparr>sy_reqs := check_request J mw i r w (sy_reqs s)\<rparr>)"
| answered: "i < length (rs_requests (sy_reqs s)) \<Longrightarrow> rs_requests (sy_reqs s) ! i = Arrived r \<Longrightarrow>
    kt_callers (sy_keys s) ! i = Done a \<Longrightarrow> key_answer a = Some res \<Longrightarrow>
    sys_step J mw ttl s i (s\<lparr>sy_reqs := check_request J (mw\<lparr>mw_keys := told res\<rparr>) i r w (sy_reqs s)\<rparr>)"
| proceed: "req_step J mw (sy_reqs s) i q \<Longrightarrow> (\<And>r. rs_requests (sy_reqs s) ! i \<noteq> Arrived r) \<Longrightarrow>
    sys_step J mw ttl s i (s\<lparr>sy_reqs := q\<rparr>)"

inductive_cases sys_stepE: "sys_step J mw ttl s i s'"

inductive sys_run ::
  "('k, 's) jose \<Rightarrow> ('s, 'e) bearer_mw \<Rightarrow> duration \<Rightarrow> 's sys_state \<Rightarrow> nat \<Rightarrow> 's sys_state \<Rightarrow> bool"
  for J :: "('k, 's) jose" and mw :: "('s, 'e) bearer_mw" and ttl :: duration and s0 :: "'s sys_state" where
  sys_refl: "sys_run J mw ttl s0 0 s0"
| sys_next: "sys_run J mw ttl s0 n s \<Longrightarrow> sys_step J mw ttl s i s' \<Longrightarrow> sys_run J mw ttl s0 (Suc n) s'"

text \<open>A new middleware with a new key source; the caller of a request that wants no key never moves.\<close>

definition starting :: "('k, 's) jose \<Rightarrow> ('s, 'e) bearer_mw \<Rightarrow> request list \<Rightarrow> 's sys_state" where
  "starting J mw rs = \<lparr>sy_keys = init_keys (map (\<lambda>r. or_zero [] (wanted_kid J mw r)) rs), sy_reqs = arriving rs\<rparr>"

section \<open>The invariant\<close>

text \<open>A caller that has moved and has no answer yet is that of a request still waiting for it.\<close>

definition caller_fits :: "('k, 's) jose \<Rightarrow> ('s, 'e) bearer_mw \<Rightarrow> req_phase \<Rightarrow> 's caller \<Rightarrow> bool" where
  "caller_fits J mw q c \<longleftrightarrow>
     (\<exists>r. q = Arrived r \<and> wanted_kid J mw r \<noteq> None) \<or> (\<exists>a. c = Done a) \<or> (\<exists>kid. c = Start kid)"

definition lookups_ok :: "('k, 's) jose \<Rightarrow> ('s, 'e) bearer_mw \<Rightarrow> 's sys_state \<Rightarrow> bool" where
  "lookups_ok J mw s \<longleftrightarrow> list_all2 (caller_fits J mw) (rs_requests (sy_reqs s)) (kt_callers (sy_keys s))"

fun phase_vouched :: "('k, 's) jose \<Rightarrow> ('s, 'e) bearer_mw \<Rightarrow> 's result list \<Rightarrow> req_phase \<Rightarrow> bool" where
  "phase_vouched J mw outs (Holding r c p) \<longleftrightarrow> vouched J mw outs r c"
| "phase_vouched J mw outs (Dated r c p t) \<longleftrightarrow> vouched J mw outs r c"
| "phase_vouched J mw outs (Let_in r c op) \<longleftrightarrow> vouched J mw outs r c"
| "phase_vouched J mw outs _ \<longleftrightarrow> True"

definition sys_inv :: "('k, 's) jose \<Rightarrow> ('s, 'e) bearer_mw \<Rightarrow> 's sys_state \<Rightarrow> bool" where
  "sys_inv J mw s \<longleftrightarrow>
     flight_inv (sy_keys s) \<and> wake_inv (sy_keys s) \<and> outcome_inv (sy_keys s)
     \<and> lookups_ok J mw s \<and> replay_inv mw (sy_reqs s)
     \<and> (\<forall>q \<in> set (rs_requests (sy_reqs s)). phase_ok J mw q)
     \<and> (\<forall>q \<in> set (rs_requests (sy_reqs s)). phase_vouched J mw (kt_outcomes (sy_keys s)) q)"

lemma phase_vouched_more:
  "phase_vouched J mw outs q \<Longrightarrow> set outs \<subseteq> set outs' \<Longrightarrow> phase_vouched J mw outs' q"
  by (cases q) (auto intro: vouched_more)

lemma outcomes_grow: "key_step has ttl k i k' \<Longrightarrow> set (kt_outcomes k) \<subseteq> set (kt_outcomes k')"
  by (erule key_stepE) (auto simp: enter_refresh_def split: option.splits)

lemma other_caller: "key_step has ttl k i k' \<Longrightarrow> \<exists>c. kt_callers k' = (kt_callers k)[i := c]"
  by (erule key_stepE) (auto simp: enter_refresh_def split: option.splits)

lemma key_answer_from:
  assumes "answer_from outs a"
  shows "\<exists>res. key_answer a = Some res \<and> (\<forall>ks. res = Inr ks \<longrightarrow> Inr ks \<in> set outs)"
  using assms by (auto simp: answer_from_def)

lemma replay_inv_keys: "replay_inv (mw\<lparr>mw_keys := l\<rparr>) = replay_inv mw"
  unfolding fun_eq_iff replay_inv_def recorded_def expired_def same_checks by (rule allI refl)+

lemma phase_ok_keys: "phase_ok J (mw\<lparr>mw_keys := l\<rparr>) q = phase_ok J mw q"
  by (induction J mw q rule: phase_ok.induct) (simp_all add: same_checks)

lemma lookups_okD:
  "lookups_ok J mw s \<Longrightarrow> i < length (rs_requests (sy_reqs s)) \<Longrightarrow>
     i < length (kt_callers (sy_keys s)) \<and> caller_fits J mw (rs_requests (sy_reqs s) ! i) (kt_callers (sy_keys s) ! i)"
  by (simp add: lookups_ok_def list_all2_conv_all_nth)

lemma lookups_ok_caller:
  assumes "lookups_ok J mw s" and "rs_requests (sy_reqs s) ! i = Arrived r" and "wanted_kid J mw r \<noteq> None"
    and "kt_callers k = (kt_callers (sy_keys s))[i := c]"
  shows "lookups_ok J mw (s\<lparr>sy_keys := k\<rparr>)"
proof -
  have "caller_fits J mw (rs_requests (sy_reqs s) ! i) c" using assms(2,3) by (simp add: caller_fits_def)
  then have "list_all2 (caller_fits J mw) ((rs_requests (sy_reqs s))[i := rs_requests (sy_reqs s) ! i]) (kt_callers k)"
    using assms(1) unfolding assms(4) lookups_ok_def by (intro list_all2_update_cong)
  then show ?thesis by (simp add: lookups_ok_def)
qed

lemma lookups_ok_request:
  assumes "lookups_ok J mw s" and "rs_requests q = (rs_requests (sy_reqs s))[i := p]"
    and "caller_fits J mw p (kt_callers (sy_keys s) ! i)"
  shows "lookups_ok J mw (s\<lparr>sy_reqs := q\<rparr>)"
  using assms list_all2_update_cong [of "caller_fits J mw" "rs_requests (sy_reqs s)" "kt_callers (sy_keys s)"
      p "kt_callers (sy_keys s) ! i" i]
  by (simp add: lookups_ok_def)

text \<open>The step at which a request leaves the key source, whatever the source told it.\<close>

lemma sys_inv_check:
  assumes inv: "sys_inv J mw s" and i: "i < length (rs_requests (sy_reqs s))"
    and at: "rs_requests (sy_reqs s) ! i = Arrived r"
    and idle: "(\<exists>a. kt_callers (sy_keys s) ! i = Done a) \<or> (\<exists>kid. kt_callers (sy_keys s) ! i = Start kid)"
    and vouch: "\<And>v w1 c p. before_replay J (mw\<lparr>mw_keys := l\<rparr>) r w = (v, w1) \<Longrightarrow> v = Cleared c \<or> v = Proved c p \<Longrightarrow>
      vouched J mw (kt_outcomes (sy_keys s)) r c"
  shows "sys_inv J mw (s\<lparr>sy_reqs := check_request J (mw\<lparr>mw_keys := l\<rparr>) i r w (sy_reqs s)\<rparr>)"
proof -
  let ?mw = "mw\<lparr>mw_keys := l\<rparr>" and ?q = "sy_reqs s"
  have step: "req_step J ?mw ?q i (check_request J ?mw i r w ?q)" by (rule req_step.begin_request [OF i at])
  obtain v w1 where v: "before_replay J ?mw r w = (v, w1)" by fastforce
  define ph where "ph = (case v of Denied \<Rightarrow> Turned_away r | Cleared c \<Rightarrow> Let_in r c None | Proved c p \<Rightarrow> Holding r c p)"
  have rq: "rs_requests (check_request J ?mw i r w ?q) = (rs_requests ?q)[i := ph]"
    by (simp add: check_request_def v ph_def)
  have "phase_vouched J mw (kt_outcomes (sy_keys s)) ph" using vouch [OF v] by (cases v) (auto simp: ph_def)
  moreover have "\<forall>q \<in> set (rs_requests ?q). phase_vouched J mw (kt_outcomes (sy_keys s)) q"
    using inv by (simp add: sys_inv_def)
  ultimately have "\<forall>q \<in> set ((rs_requests ?q)[i := ph]). phase_vouched J mw (kt_outcomes (sy_keys s)) q"
    by (intro callers_ok_update)
  moreover have "replay_inv mw (check_request J ?mw i r w ?q)"
    using replay_inv_step [OF _ step] inv unfolding sys_inv_def replay_inv_keys by blast
  moreover have "\<forall>q \<in> set (rs_requests (check_request J ?mw i r w ?q)). phase_ok J mw q"
    using phase_ok_step [OF _ step] inv unfolding sys_inv_def phase_ok_keys by blast
  moreover have "lookups_ok J mw (s\<lparr>sy_reqs := check_request J ?mw i r w ?q\<rparr>)"
    using lookups_ok_request [OF _ rq] inv idle unfolding sys_inv_def caller_fits_def by blast
  ultimately show ?thesis using inv by (simp add: sys_inv_def rq)
qed

lemma sys_inv_step:
  assumes inv: "sys_inv J mw s" and step: "sys_step J mw ttl s i s'"
  shows "sys_inv J mw s'"
  using step
proof cases
  case (look_up r k)
  have "lookups_ok J mw s'"
    using inv lookups_ok_caller [OF _ look_up(3,4)] other_caller [OF look_up(5)] look_up(1) unfolding sys_inv_def by blast
  moreover have "\<forall>q \<in> set (rs_requests (sy_reqs s)). phase_vouched J mw (kt_outcomes k) q"
    using inv outcomes_grow [OF look_up(5)] phase_vouched_more unfolding sys_inv_def by blast
  ultimately show ?thesis
    using inv look_up flight_inv_step [OF _ look_up(5)] wake_inv_step [OF _ _ look_up(5)] outcome_inv_step [OF _ look_up(5)]
    by (simp add: sys_inv_def)
next
  case (refuse r w)
  have same: "mw\<lparr>mw_keys := mw_keys mw\<rparr> = mw" by simp
  have idle: "(\<exists>a. kt_callers (sy_keys s) ! i = Done a) \<or> (\<exists>kid. kt_callers (sy_keys s) ! i = Start kid)"
    using inv lookups_okD [OF _ refuse(2)] refuse(3,4) unfolding sys_inv_def caller_fits_def by fastforce
  have no: "v \<noteq> Cleared c \<and> v \<noteq> Proved c p" if "before_replay J mw r w = (v, w1)" for v w1 c p
    using before_replay_unwanted [OF refuse(4), of w] that by auto
  show ?thesis
    unfolding refuse(1)
    by (rule sys_inv_check [OF inv refuse(2,3) idle, of "mw_keys mw" w, unfolded same]) (use no in blast)
next
  case (answered r a res w)
  have "i < length (kt_callers (sy_keys s))" using inv lookups_okD [OF _ answered(2)] unfolding sys_inv_def by blast
  then have "caller_ok (kt_outcomes (sy_keys s)) (Done a)"
    using inv answered(4) unfolding sys_inv_def outcome_inv_def by (metis nth_mem)
  then have "\<And>ks. res = Inr ks \<Longrightarrow> Inr ks \<in> set (kt_outcomes (sy_keys s))"
    using key_answer_from answered(5) by fastforce
  then show ?thesis
    using sys_inv_check [OF inv answered(2,3), of "told res" w] told_vouched answered(1,4) by blast
next
  case (proceed q)
  have ph: "\<exists>p. rs_requests q = (rs_requests (sy_reqs s))[i := p]
      \<and> phase_vouched J mw (kt_outcomes (sy_keys s)) p \<and> (\<forall>r. p \<noteq> Arrived r)"
    using proceed(2)
  proof cases
    case (read_clock r c p t)
    then have "phase_vouched J mw (kt_outcomes (sy_keys s)) (Holding r c p)"
      using inv unfolding sys_inv_def by (metis nth_mem)
    with read_clock show ?thesis by auto
  next
    case (under_mutex r c p t)
    then have "phase_vouched J mw (kt_outcomes (sy_keys s)) (Dated r c p t)"
      using inv unfolding sys_inv_def by (metis nth_mem)
    with under_mutex show ?thesis by (auto simp: decide_request_def Let_def split: prod.split)
  qed (use proceed(3) in auto)
  then obtain p where p: "rs_requests q = (rs_requests (sy_reqs s))[i := p]"
    "phase_vouched J mw (kt_outcomes (sy_keys s)) p" by blast
  have "\<forall>x \<in> set (rs_requests (sy_reqs s)). phase_vouched J mw (kt_outcomes (sy_keys s)) x"
    using inv by (simp add: sys_inv_def)
  then have "\<forall>x \<in> set (rs_requests q). phase_vouched J mw (kt_outcomes (sy_keys s)) x"
    unfolding p(1) using p(2) by (intro callers_ok_update)
  moreover have "i < length (rs_requests (sy_reqs s))" using proceed(2) req_step_phase by blast
  then have "(\<exists>a. kt_callers (sy_keys s) ! i = Done a) \<or> (\<exists>kid. kt_callers (sy_keys s) ! i = Start kid)"
    using inv lookups_okD proceed(3) unfolding sys_inv_def caller_fits_def by blast
  then have "lookups_ok J mw s'"
    using inv lookups_ok_request [OF _ p(1)] proceed(1) unfolding sys_inv_def caller_fits_def by blast
  moreover have "replay_inv mw q" "\<forall>x \<in> set (rs_requests q). phase_ok J mw x"
    using inv replay_inv_step [OF _ proceed(2)] phase_ok_step [OF _ proceed(2)] unfolding sys_inv_def by blast+
  ultimately show ?thesis using inv proceed(1) by (simp add: sys_inv_def)
qed

lemma sys_inv_starting: "sys_inv J mw (starting J mw rs)"
proof -
  have "lookups_ok J mw (starting J mw rs)"
    by (simp add: lookups_ok_def starting_def arriving_def init_keys_def caller_fits_def list_all2_conv_all_nth)
  then show ?thesis
    using flight_inv_init wake_inv_init outcome_inv_init replay_inv_arriving
    by (auto simp: sys_inv_def starting_def) (auto simp: arriving_def)
qed

lemma sys_run_inv: "sys_run J mw ttl (starting J mw rs) n s \<Longrightarrow> sys_inv J mw s"
proof (induction rule: sys_run.induct)
  case sys_refl
  show ?case by (rule sys_inv_starting)
next
  case (sys_next n s i s')
  then show ?case by (blast intro: sys_inv_step)
qed

section \<open>Runs end\<close>

definition sys_left :: "'s sys_state \<Rightarrow> nat" where
  "sys_left s = work_left (sy_keys s) + req_left (sy_reqs s)"

lemma check_left:
  "i < length (rs_requests q) \<Longrightarrow> rs_requests q ! i = Arrived r \<Longrightarrow> req_left (check_request J mw i r w q) < req_left q"
  by (rule req_left_step, rule req_step.begin_request)

lemma sys_left_step: "sys_step J mw ttl s i s' \<Longrightarrow> sys_left s' < sys_left s"
  by (erule sys_stepE) (auto simp: sys_left_def dest: work_left_step req_left_step intro: check_left)

lemma sys_run_left: "sys_run J mw ttl s0 n s \<Longrightarrow> n + sys_left s \<le> sys_left s0"
  by (induction rule: sys_run.induct) (auto dest: sys_left_step)

lemma sys_left_starting: "sys_left (starting J mw rs) = 8 * length rs"
  by (simp add: sys_left_def starting_def work_left_init req_left_arriving)

text \<open>A request that is not settled can move, or waits for the fetch of another that can.\<close>

lemma sys_moves:
  assumes inv: "sys_inv J mw s" and i: "i < length (rs_requests (sy_reqs s))"
    and ns: "\<not> settled (rs_requests (sy_reqs s) ! i)"
  shows "\<exists>j s'. sys_step J mw ttl s j s'"
proof (cases "\<exists>r. rs_requests (sy_reqs s) ! i = Arrived r")
  case False
  obtain q where "req_step J mw (sy_reqs s) i q" using req_moves [OF i ns] by blast
  then show ?thesis using False sys_step.proceed by blast
next
  case True
  then obtain r where r: "rs_requests (sy_reqs s) ! i = Arrived r" by blast
  have lk: "lookups_ok J mw s" and wk: "wake_inv (sy_keys s)" and oc: "outcome_inv (sy_keys s)"
    using inv by (simp_all add: sys_inv_def)
  have ic: "i < length (kt_callers (sy_keys s))" using lookups_okD [OF lk i] by simp
  consider "wanted_kid J mw r = None" | a where "kt_callers (sy_keys s) ! i = Done a"
    | "wanted_kid J mw r \<noteq> None" "\<forall>a. kt_callers (sy_keys s) ! i \<noteq> Done a" by blast
  then show ?thesis
  proof cases
    case 1
    then show ?thesis using sys_step.refuse [OF i r] by blast
  next
    case (2 a)
    then have "caller_ok (kt_outcomes (sy_keys s)) (Done a)"
      using oc ic unfolding outcome_inv_def by (metis nth_mem)
    then obtain res where "key_answer a = Some res" using key_answer_from by fastforce
    then show ?thesis using sys_step.answered [OF i r 2] by blast
  next
    case 3
    obtain j k where j: "key_step (jwk_lookup J) ttl (sy_keys s) j k" "j < length (kt_callers (sy_keys s))"
      "j = i \<or> (\<exists>ch. owns ch (kt_callers (sy_keys s) ! j))"
      using stuck_mover [OF wk ic 3(2)] by blast
    have jr: "j < length (rs_requests (sy_reqs s))" using j(2) lk by (simp add: lookups_ok_def list_all2_lengthD)
    have "\<exists>r'. rs_requests (sy_reqs s) ! j = Arrived r' \<and> wanted_kid J mw r' \<noteq> None"
      using j(3)
    proof
      assume "j = i"
      with r 3(1) show ?thesis by simp
    next
      assume "\<exists>ch. owns ch (kt_callers (sy_keys s) ! j)"
      with lookups_okD [OF lk jr] show ?thesis by (auto simp: caller_fits_def)
    qed
    then show ?thesis using sys_step.look_up [OF jr _ _ j(1)] by blast
  qed
qed

section \<open>One request alone\<close>

text \<open>
  In a run that leaves the other callers where they were only the one caller has moved, since every
  step brings its caller closer to its answer; the same holds of requests.
\<close>

lemma key_step_closer:
  assumes "key_step has ttl k j k'"
  shows "j < length (kt_callers k)
    \<and> (\<exists>c. kt_callers k' = (kt_callers k)[j := c] \<and> steps_left c < steps_left (kt_callers k ! j))"
  using assms
  by cases (auto simp: check_keys_def enter_refresh_def split: option.split)

lemma key_run_closer:
  assumes "key_run has ttl k0 n k"
  shows "length (kt_callers k) = length (kt_callers k0)
    \<and> (\<forall>l < length (kt_callers k0). steps_left (kt_callers k ! l) \<le> steps_left (kt_callers k0 ! l))"
  using assms
proof (induction rule: key_run.induct)
  case (run_step n k i k')
  from key_step_closer [OF run_step.hyps(2)] obtain c where "i < length (kt_callers k)"
    "kt_callers k' = (kt_callers k)[i := c]" "steps_left c < steps_left (kt_callers k ! i)" by blast
  with run_step.IH show ?case by (auto simp: nth_list_update)
qed simp

lemma lift_lookup:
  assumes "key_run (jwk_lookup J) ttl (sy_keys s0) n k"
    and "\<forall>l < length (kt_callers (sy_keys s0)). l \<noteq> i \<longrightarrow>
      steps_left (kt_callers k ! l) = steps_left (kt_callers (sy_keys s0) ! l)"
    and r: "i < length (rs_requests (sy_reqs s0))" "rs_requests (sy_reqs s0) ! i = Arrived r" "wanted_kid J mw r \<noteq> None"
  shows "sys_run J mw ttl s0 n (s0\<lparr>sy_keys := k\<rparr>)"
  using assms(1,2)
proof (induction rule: key_run.induct)
  case run_refl
  have "s0\<lparr>sy_keys := sy_keys s0\<rparr> = s0" by simp
  then show ?case using sys_run.sys_refl by metis
next
  case (run_step n k j k')
  let ?l = "\<lambda>k l. steps_left (kt_callers k ! l)"
  from key_step_closer [OF run_step.hyps(2)] obtain c where c: "j < length (kt_callers k)"
    "kt_callers k' = (kt_callers k)[j := c]" "steps_left c < ?l k j" by blast
  note cl = key_run_closer [OF run_step.hyps(1)]
  have ji: "j = i"
  proof (rule ccontr)
    assume "j \<noteq> i"
    then have "?l k' j = ?l (sy_keys s0) j" using run_step.prems c(1) cl by simp
    with c cl show False by (simp add: not_le [symmetric])
  qed
  have "sys_run J mw ttl s0 n (s0\<lparr>sy_keys := k\<rparr>)"
    using run_step.prems c(2) ji by (intro run_step.IH) simp
  moreover have "sys_step J mw ttl (s0\<lparr>sy_keys := k\<rparr>) i (s0\<lparr>sy_keys := k, sy_keys := k'\<rparr>)"
    using run_step.hyps(2) r unfolding ji by (intro sys_step.look_up) simp_all
  ultimately show ?case using sys_run.sys_next by fastforce
qed

lemma req_run_closer:
  assumes "req_run J mw q0 n q"
  shows "length (rs_requests q) = length (rs_requests q0)
    \<and> (\<forall>l < length (rs_requests q0). phase_left (rs_requests q ! l) \<le> phase_left (rs_requests q0 ! l))"
  using assms
proof (induction rule: req_run.induct)
  case (req_next n q i q')
  from req_step_phase [OF req_next.hyps(2)] obtain c where "i < length (rs_requests q)"
    "rs_requests q' = (rs_requests q)[i := c]" "phase_left c < phase_left (rs_requests q ! i)" by blast
  with req_next.IH show ?case by (auto simp: nth_list_update)
qed simp

text \<open>A step of a request that was told \<open>res\<close>, as a step of the system.\<close>

lemma lift_req_step:
  assumes "req_step J (mw\<lparr>mw_keys := told res\<rparr>) (sy_reqs s) i q"
    and "kt_callers (sy_keys s) ! i = Done a" and "key_answer a = Some res"
  shows "sys_step J mw ttl s i (s\<lparr>sy_reqs := q\<rparr>)"
  using assms(1)
proof cases
  case (begin_request r w)
  show ?thesis unfolding begin_request(1) by (rule sys_step.answered [OF begin_request(2,3) assms(2,3)])
next
  case (read_clock r c p t)
  then show ?thesis using req_step.read_clock [of i "sy_reqs s" r c p J mw t] by (intro sys_step.proceed) simp_all
next
  case (under_mutex r c p t)
  have "decide_request (mw\<lparr>mw_keys := told res\<rparr>) i r c p t (sy_reqs s) = decide_request mw i r c p t (sy_reqs s)"
    unfolding decide_request_def same_checks ..
  then show ?thesis
    using under_mutex req_step.under_mutex [of i "sy_reqs s" r c p t J mw] by (intro sys_step.proceed) simp_all
qed

lemma lift_request:
  assumes "req_run J (mw\<lparr>mw_keys := told res\<rparr>) (sy_reqs s0) n q"
    and "\<forall>l < length (rs_requests (sy_reqs s0)). l \<noteq> i \<longrightarrow>
      phase_left (rs_requests q ! l) = phase_left (rs_requests (sy_reqs s0) ! l)"
    and a: "kt_callers (sy_keys s0) ! i = Done a" "key_answer a = Some res"
  shows "sys_run J mw ttl s0 n (s0\<lparr>sy_reqs := q\<rparr>)"
  using assms(1,2)
proof (induction rule: req_run.induct)
  case req_refl
  have "s0\<lparr>sy_reqs := sy_reqs s0\<rparr> = s0" by simp
  then show ?case using sys_run.sys_refl by metis
next
  case (req_next n q j q')
  from req_step_phase [OF req_next.hyps(2)] obtain c where c: "j < length (rs_requests q)"
    "rs_requests q' = (rs_requests q)[j := c]" "phase_left c < phase_left (rs_requests q ! j)" by blast
  note cl = req_run_closer [OF req_next.hyps(1)]
  have ji: "j = i"
  proof (rule ccontr)
    assume "j \<noteq> i"
    then have "phase_left (rs_requests q' ! j) = phase_left (rs_requests (sy_reqs s0) ! j)"
      using req_next.prems c(1) cl by simp
    with c cl show False by (simp add: not_le [symmetric])
  qed
  have "sys_run J mw ttl s0 n (s0\<lparr>sy_reqs := q\<rparr>)"
    using req_next.prems c(2) ji by (intro req_next.IH) simp
  moreover have "sys_step J mw ttl (s0\<lparr>sy_reqs := q\<rparr>) i (s0\<lparr>sy_reqs := q, sy_reqs := q'\<rparr>)"
    using req_next.hyps(2) a unfolding ji by (intro lift_req_step [where a = a and res = res]) simp_all
  ultimately show ?case using sys_run.sys_next by fastforce
qed

lemma sys_run_trans: "sys_run J mw ttl s1 m s2 \<Longrightarrow> sys_run J mw ttl s0 n s1 \<Longrightarrow> sys_run J mw ttl s0 (n + m) s2"
  by (induction rule: sys_run.induct) (auto intro: sys_run.sys_next)

lemma guard_told:
  assumes "wanted_kid J mw r = Some kid" and "mw_keys mw kid w = (res, w1)"
  shows "guard J mw r rsp w = guard J (mw\<lparr>mw_keys := told res\<rparr>) r rsp w1"
proof -
  have same: "enforce_dpop J (mw\<lparr>mw_keys := told res\<rparr>) = enforce_dpop J mw" "emit (mw\<lparr>mw_keys := told res\<rparr>) = emit mw"
    unfolding fun_eq_iff enforce_dpop_def verify_dpop_def verify_proof_def check_proof_claims_def check_nonce_def
      check_replay_def emit_def other_keys same_checks by (rule allI refl)+
  show ?thesis unfolding guard_def authenticate_told [OF assms] same ..
qed

text \<open>
  The sequential handler with \<open>remote_lookup\<close> is the run of a request that no other overtakes, in a
  system with no fetch in flight.
\<close>

lemma system_alone:
  assumes keys: "mw_keys mw = remote_lookup J uri ttl" and mem: "mw_replay mw = mem_seen"
    and i: "i < length (rs_requests (sy_reqs s))" and at: "rs_requests (sy_reqs s) ! i = Arrived r"
    and w: "wanted_kid J mw r = Some kid"
    and c: "i < length (kt_callers (sy_keys s))" "kt_callers (sy_keys s) ! i = Start kid"
    and free: "kt_fetching (sy_keys s) = None" and cache: "keys_of (sy_keys s) = w_keys w"
    and b: "before_replay J mw r w = (v, w1)" and g: "guard J mw r new_response w = (a, rsp, w')"
    and m: "rs_mem (sy_reqs s) = w_mem w1"
  shows "\<exists>n s' q. sys_run J mw ttl s n s' \<and> n \<le> 8 \<and> rs_requests (sy_reqs s') = (rs_requests (sy_reqs s))[i := q]
    \<and> rs_mem (sy_reqs s') = w_mem w'
    \<and> (case a of None \<Rightarrow> q = Turned_away r \<or> (\<exists>p. q = Replayed r p) | Some cl \<Rightarrow> \<exists>op. q = Let_in r cl op)"
proof -
  obtain res wl where res: "remote_lookup J uri ttl kid w = (res, wl)" by fastforce
  obtain n k where k: "key_run (jwk_lookup J) ttl (sy_keys s) n k" "n \<le> 5"
    "kt_callers k = (kt_callers (sy_keys s))[i := returned res]"
    using lookup_sim [OF c(1) free c(2) cache res] by blast
  define s1 where "s1 = s\<lparr>sy_keys := k\<rparr>"
  have r1: "sys_run J mw ttl s n s1"
    unfolding s1_def by (rule lift_lookup [OF k(1) _ i at]) (simp_all add: k(3) w)
  let ?mw = "mw\<lparr>mw_keys := told res\<rparr>"
  have lk: "mw_keys mw kid w = (res, wl)" using keys res by simp
  have b': "before_replay J ?mw r wl = (v, w1)" using b before_replay_told [OF w lk] by simp
  have g': "guard J ?mw r new_response wl = (a, rsp, w')" using g guard_told [OF w lk] by simp
  obtain l q ph where q: "req_run J ?mw (sy_reqs s1) l q" "l \<le> 3" "rs_requests q = (rs_requests (sy_reqs s1))[i := ph]"
    "rs_mem q = w_mem w'"
    "case a of None \<Rightarrow> ph = Turned_away r \<or> (\<exists>p. ph = Replayed r p) | Some cl \<Rightarrow> \<exists>op. ph = Let_in r cl op"
    using request_alone [OF _ _ b' g', of i "sy_reqs s1"] i at m mem by (auto simp: s1_def)
  obtain an where an: "kt_callers (sy_keys s1) ! i = Done an" "key_answer an = Some res"
    using c(1) k(3) by (cases res) (simp_all add: s1_def returned_def)
  have "sys_run J mw ttl s1 l (s1\<lparr>sy_reqs := q\<rparr>)"
    by (rule lift_request [OF q(1) _ an]) (simp add: q(3))
  then have "sys_run J mw ttl s (n + l) (s1\<lparr>sy_reqs := q\<rparr>)" using r1 by (rule sys_run_trans)
  moreover have "n + l \<le> 8" "rs_requests (sy_reqs (s1\<lparr>sy_reqs := q\<rparr>)) = (rs_requests (sy_reqs s))[i := ph]"
    "rs_mem (sy_reqs (s1\<lparr>sy_reqs := q\<rparr>)) = w_mem w'"
    using k(2) q(2-4) by (simp_all add: s1_def)
  ultimately show ?thesis using q(5) by blast
qed

section \<open>Property\<close>

text \<open>
  C14. The middleware under concurrent requests, with a remote key source and the in-memory replay
  cache: in every interleaving a run takes at most eight steps for each request and is never stuck
  before all are settled, although requests wait for each other's fetch of the keys; the token of an
  admitted request was verified, for the configured issuer, with a key set that a fetch brought, has the
  audience and the scopes, and was presented as DPoP if it is bound; and two
  requests whose proofs have one jti are both admitted only when \<open>Seen\<close> has read an instant at which one
  of the proofs had expired.
\<close>

theorem system_interleaved:
  assumes "sys_run J mw ttl (starting J mw rs) n s"
  shows "n \<le> 8 * length rs
    \<and> ((\<exists>i s'. sys_step J mw ttl s i s') \<or> (\<forall>q \<in> set (rs_requests (sy_reqs s)). settled q))
    \<and> (\<forall>r c op. Let_in r c op \<in> set (rs_requests (sy_reqs s)) \<longrightarrow>
         (\<exists>scheme raw ks t tok. extract_token r = Some (scheme, raw) \<and> Inr ks \<in> set (kt_outcomes (sy_keys s))
            \<and> jwt_parse J raw ks (mw_issuer mw) (mw_skew mw) t = Inr tok \<and> c = new_claims tok raw
            \<and> claims_ok mw c \<and> (bound_key_thumbprint c \<noteq> [] \<longrightarrow> scheme = ''DPoP'')))
    \<and> (\<forall>i k p q. i \<noteq> k \<and> let_in (sy_reqs s) i p \<and> let_in (sy_reqs s) k q \<and> dp_jti p = dp_jti q \<longrightarrow>
         (\<exists>t \<in> set (rs_readings (sy_reqs s)). expiry_of mw p \<le> t \<or> expiry_of mw q \<le> t))"
proof -
  have inv: "sys_inv J mw s" using assms by (rule sys_run_inv)
  have "n \<le> 8 * length rs" using sys_run_left [OF assms] sys_left_starting by (metis add_leE)
  moreover have "(\<exists>i s'. sys_step J mw ttl s i s') \<or> (\<forall>q \<in> set (rs_requests (sy_reqs s)). settled q)"
    using sys_moves [OF inv] by (metis in_set_conv_nth)
  moreover have "vouched J mw (kt_outcomes (sy_keys s)) r c"
    if "Let_in r c op \<in> set (rs_requests (sy_reqs s))" for r c op
    using inv that unfolding sys_inv_def by force
  moreover have "\<exists>t \<in> set (rs_readings (sy_reqs s)). expiry_of mw p \<le> t \<or> expiry_of mw q \<le> t"
    if "i \<noteq> k \<and> let_in (sy_reqs s) i p \<and> let_in (sy_reqs s) k q \<and> dp_jti p = dp_jti q" for i k p q
    using inv that unfolding sys_inv_def replay_inv_def expired_def by blast
  ultimately show ?thesis unfolding vouched_def by blast
qed

text \<open>A first request, which fetches the keys and is admitted.\<close>

lemma demo_system_run:
  "\<exists>n s op. sys_run demo_jose (demo_mw DPoPRequired) 0 (starting demo_jose (demo_mw DPoPRequired) [dpop_request demo_bound]) n s
    \<and> Let_in (dpop_request demo_bound) (demo_claims ''YWJj'') op \<in> set (rs_requests (sy_reqs s))"
proof -
  let ?mw = "demo_mw DPoPRequired" and ?r = "dpop_request demo_bound" and ?J = demo_jose
  define s0 where "s0 = starting ?J ?mw [?r]"
  have wanted: "wanted_kid ?J ?mw ?r = Some ''k1''"
    by (simp add: wanted_kid_def demo_extract header_kid_alg_def) (simp add: demo_jose_def demo_mw_def)
  have keys: "sy_keys s0 = init_keys [''k1'']" and reqs: "sy_reqs s0 = arriving [?r]"
    by (simp_all add: s0_def starting_def wanted or_zero_def)
  have told: "?mw\<lparr>mw_keys := told (Inr ())\<rparr> = ?mw"
    by (simp add: demo_mw_def told_def static_lookup_def fun_eq_iff)
  let ?k = "set_caller 0 Refresh (init_keys [''k1''])"
  have "key_step (jwk_lookup ?J) 0 (init_keys [''k1'']) 0 ?k"
    using key_step.check [of 0 "init_keys [''k1'']" "''k1''" "jwk_lookup ?J" 0 zero_time]
    by (simp add: check_keys_def init_keys_def)
  moreover obtain k where "key_run (jwk_lookup ?J) 0 ?k 4 k" "kt_callers k = [returned (Inr ())]"
    using refresh_alone [of 0 ?k "jwk_lookup ?J" 0 "Inr ()" zero_time] by (auto simp: init_keys_def)
  ultimately have k: "key_run (jwk_lookup ?J) 0 (sy_keys s0) (Suc 4) k" "kt_callers k = [returned (Inr ())]"
    unfolding keys by (blast intro: run_prepend)+
  have r1: "sys_run ?J ?mw 0 s0 (Suc 4) (s0\<lparr>sy_keys := k\<rparr>)"
    by (rule lift_lookup [OF k(1), of 0 ?r]) (simp_all add: keys reqs arriving_def init_keys_def wanted)
  have win: "demo_window demo_now" by (simp add: demo_window_def nanos_def)
  obtain w' where g: "guard ?J ?mw ?r new_response demo_world = (Some (demo_claims ''YWJj''), new_response, w')"
    using demo_guard_dpop [OF _ win demo_unseen] by blast
  have pr: "proof_of ?J ?mw ?r demo_proof"
    using demo_proves [of DPoPRequired] by (auto simp: proof_of_def demo_headers)
  obtain w1 where b: "before_replay ?J ?mw ?r demo_world = (Proved (demo_claims ''YWJj'') demo_proof, w1)"
    using guard_Proved [OF g demo_extract(3) pr] by blast
  let ?q = "\<lambda>m p ts. \<lparr>rs_mem = m, rs_requests = [p], rs_readings = ts\<rparr>"
  let ?s = "\<lambda>q. s0\<lparr>sy_keys := k, sy_reqs := q\<rparr>"
  let ?c = "demo_claims ''YWJj''" and ?m0 = new_mem_replay
  have "sys_step ?J ?mw 0 (s0\<lparr>sy_keys := k\<rparr>) 0 (?s (?q ?m0 (Holding ?r ?c demo_proof) []))"
    using sys_step.answered [of 0 "s0\<lparr>sy_keys := k\<rparr>" ?r "Inr (Some ())" "Inr ()" ?J ?mw 0 demo_world]
    by (simp add: reqs arriving_def k(2) returned_def told check_request_def set_request_def b)
  with r1 have r2: "sys_run ?J ?mw 0 s0 6 (?s (?q ?m0 (Holding ?r ?c demo_proof) []))"
    using sys_run.sys_next by fastforce
  have "sys_step ?J ?mw 0 (?s (?q ?m0 (Holding ?r ?c demo_proof) [])) 0 (?s (?q ?m0 (Dated ?r ?c demo_proof demo_now) []))"
    using req_step.read_clock [of 0 "?q ?m0 (Holding ?r ?c demo_proof) []" ?r ?c demo_proof ?J ?mw demo_now]
      sys_step.proceed [of ?J ?mw "?s (?q ?m0 (Holding ?r ?c demo_proof) [])" 0] by (simp add: set_request_def)
  with r2 have r3: "sys_run ?J ?mw 0 s0 7 (?s (?q ?m0 (Dated ?r ?c demo_proof demo_now) []))"
    using sys_run.sys_next by fastforce
  obtain m where m: "seen_at demo_now (dp_jti demo_proof) (expiry_of ?mw demo_proof) ?m0 = (False, m)"
    using demo_unseen [of demo_now] by (metis demo_jti(1) prod.collapse)
  have "sys_step ?J ?mw 0 (?s (?q ?m0 (Dated ?r ?c demo_proof demo_now) [])) 0
      (?s (?q m (Let_in ?r ?c (Some demo_proof)) [demo_now]))"
    using req_step.under_mutex [of 0 "?q ?m0 (Dated ?r ?c demo_proof demo_now) []" ?r ?c demo_proof demo_now ?J ?mw]
      sys_step.proceed [of ?J ?mw "?s (?q ?m0 (Dated ?r ?c demo_proof demo_now) [])" 0]
    by (simp add: decide_request_def set_request_def m)
  with r3 have r4: "sys_run ?J ?mw 0 s0 8 (?s (?q m (Let_in ?r ?c (Some demo_proof)) [demo_now]))"
    using sys_run.sys_next by fastforce
  then show ?thesis
    unfolding s0_def by (intro exI [of _ 8] exI conjI) (assumption, simp)
qed

theorem system_interleaved_witness:
  "\<exists>scheme raw t tok. extract_token (dpop_request demo_bound) = Some (scheme, raw)
    \<and> jwt_parse demo_jose raw () (mw_issuer (demo_mw DPoPRequired)) (mw_skew (demo_mw DPoPRequired)) t = Inr tok
    \<and> demo_claims ''YWJj'' = new_claims tok raw"
proof -
  obtain n op and s :: "unit sys_state" where r: "sys_run demo_jose (demo_mw DPoPRequired) 0
      (starting demo_jose (demo_mw DPoPRequired) [dpop_request demo_bound]) n s"
    and l: "Let_in (dpop_request demo_bound) (demo_claims ''YWJj'') op \<in> set (rs_requests (sy_reqs s))"
    using demo_system_run by blast
  from system_interleaved [OF r, THEN conjunct2, THEN conjunct2, THEN conjunct1] l show ?thesis by fastforce
qed

end
