(* ===== verification/Modes.thy ===== *)
theory Modes
  imports Admission
begin

text \<open>
  The three DPoP modes in the order of their constants, and what a stricter one changes: it admits
  fewer requests with the Bearer scheme and more with the DPoP scheme, and nothing else.
\<close>

text \<open>The value of the constant, by \<open>iota\<close>.\<close>

primrec mode_level :: "dpop_mode \<Rightarrow> nat" where
  "mode_level DPoPOff = 0"
| "mode_level DPoPOptional = 1"
| "mode_level DPoPRequired = 2"

instantiation dpop_mode :: linorder
begin

definition less_eq_dpop_mode :: "dpop_mode \<Rightarrow> dpop_mode \<Rightarrow> bool" where
  "m \<le> m' \<longleftrightarrow> mode_level m \<le> mode_level m'"

definition less_dpop_mode :: "dpop_mode \<Rightarrow> dpop_mode \<Rightarrow> bool" where
  "m < m' \<longleftrightarrow> mode_level m < mode_level m'"

instance
proof
  fix m m' :: dpop_mode
  show "m \<le> m' \<Longrightarrow> m' \<le> m \<Longrightarrow> m = m'"
    by (cases m; cases m') (simp_all add: less_eq_dpop_mode_def)
qed (auto simp: less_eq_dpop_mode_def less_dpop_mode_def)

end

lemma mode_bounds [simp]: "DPoPOff \<le> m" "m \<le> DPoPRequired"
  by (cases m; simp add: less_eq_dpop_mode_def)+

text \<open>The mode is read by the sender check alone.\<close>

lemma sender_ok_bearer_mode:
  assumes "m \<le> m'" and "sender_ok J (mw\<lparr>mw_dpop_mode := m'\<rparr>) r tok c ''Bearer'' w w'"
  shows "sender_ok J (mw\<lparr>mw_dpop_mode := m\<rparr>) r tok c ''Bearer'' w w'"
  using assms by (cases m; cases m') (auto simp: sender_ok_def less_eq_dpop_mode_def)

lemma proof_ok_mode [simp]:
  "proof_ok J (mw\<lparr>mw_dpop_mode := m\<rparr>) r tok c raw p w w' = proof_ok J mw r tok c raw p w w'"
  by (simp add: proof_ok_def proof_fits_def nonce_ok_def jti_ok_def)

lemma sender_ok_dpop_mode:
  assumes "m \<le> m'" and "sender_ok J (mw\<lparr>mw_dpop_mode := m\<rparr>) r tok c ''DPoP'' w w'"
  shows "sender_ok J (mw\<lparr>mw_dpop_mode := m'\<rparr>) r tok c ''DPoP'' w w'"
  using assms by (cases m; cases m') (auto simp: sender_ok_def less_eq_dpop_mode_def)

lemma admits_mode:
  assumes "\<And>w1 w2. sender_ok J (mw\<lparr>mw_dpop_mode := m\<rparr>) r raw c s w1 w2
      \<Longrightarrow> sender_ok J (mw\<lparr>mw_dpop_mode := m'\<rparr>) r raw c s w1 w2"
    and "admits J (mw\<lparr>mw_dpop_mode := m\<rparr>) r s raw c w w'"
  shows "admits J (mw\<lparr>mw_dpop_mode := m'\<rparr>) r s raw c w w'"
  using assms unfolding admits_def by (auto simp: claims_ok_def validator_ok_def)

lemma allow_events_mode [simp]: "allow_events (mw\<lparr>mw_dpop_mode := m\<rparr>) r c s w = allow_events mw r c s w"
  by (simp add: allow_events_def emit_def)

text \<open>A Bearer request admitted in a mode is admitted alike in every laxer one.\<close>

lemma bearer_antitone:
  assumes "m \<le> m'" and "extract_token r = Some (''Bearer'', raw)"
    and "guard J (mw\<lparr>mw_dpop_mode := m'\<rparr>) r rsp w = (Some c, rsp', w')"
  shows "guard J (mw\<lparr>mw_dpop_mode := m\<rparr>) r rsp w = (Some c, rsp', w')"
proof -
  obtain w2 where "admits J (mw\<lparr>mw_dpop_mode := m'\<rparr>) r ''Bearer'' raw c w w2" "rsp' = rsp"
    "w' = allow_events mw r c ''Bearer'' w2"
    using assms(2,3) unfolding guard_Some by (auto simp: admits_def)
  moreover from this(1) have "admits J (mw\<lparr>mw_dpop_mode := m\<rparr>) r ''Bearer'' raw c w w2"
    by (rule admits_mode [rotated]) (rule sender_ok_bearer_mode [OF assms(1)])
  ultimately show ?thesis unfolding guard_Some by auto
qed

text \<open>A DPoP request admitted in a mode is admitted alike in every stricter one.\<close>

lemma dpop_monotone:
  assumes "m \<le> m'" and "extract_token r = Some (''DPoP'', raw)"
    and "guard J (mw\<lparr>mw_dpop_mode := m\<rparr>) r rsp w = (Some c, rsp', w')"
  shows "guard J (mw\<lparr>mw_dpop_mode := m'\<rparr>) r rsp w = (Some c, rsp', w')"
proof -
  obtain w2 where "admits J (mw\<lparr>mw_dpop_mode := m\<rparr>) r ''DPoP'' raw c w w2" "rsp' = rsp"
    "w' = allow_events mw r c ''DPoP'' w2"
    using assms(2,3) unfolding guard_Some by (auto simp: admits_def)
  moreover from this(1) have "admits J (mw\<lparr>mw_dpop_mode := m'\<rparr>) r ''DPoP'' raw c w w2"
    by (rule admits_mode [rotated]) (rule sender_ok_dpop_mode [OF assms(1)])
  ultimately show ?thesis unfolding guard_Some by auto
qed

end
