(* ===== verification/NoAlg.thy ===== *)
theory NoAlg
  imports TestSigner
begin

text \<open>
  \<open>PublicJWKSNoAlg\<close> of the tests (internal/jwktest): the key set of an authorization server that names no
  algorithm, made by decoding the set of a signer, deleting the member alg of every key and printing it
  again.
\<close>

section \<open>Key sets without alg\<close>

text \<open>
  \<open>json.Unmarshal\<close> of a value into \<open>any\<close>, as the value that \<open>json.Marshal\<close> prints again: an object is a
  map, whose last entry for a key counts and whose keys are printed in their order, and a number goes
  through a float. \<open>fl\<close> is that way of a literal, \<open>None\<close> when it is out of range: no member of a
  JWK is a number.
\<close>

definition last_wins :: "(string \<times> 'a) list \<Rightarrow> (string \<times> 'a) list" where
  "last_wins ms = fold (\<lambda>(k, v). AList.update k v) ms []"

fun any_value :: "(string \<Rightarrow> string option) \<Rightarrow> json \<Rightarrow> json option" where
  "any_value fl (JNum l) = map_option JNum (fl l)"
| "any_value fl (JArr vs) = map_option JArr (those (map (any_value fl) vs))"
| "any_value fl (JObj ms) =
     map_option (\<lambda>vs. JObj (sort_keys (last_wins (zip (map fst ms) vs)))) (those (map (\<lambda>(k, v). any_value fl v) ms))"
| "any_value fl v = Some v"

definition drop_alg :: "json \<Rightarrow> json" where
  "drop_alg v = (case v of JObj ms \<Rightarrow> JObj (AList.delete ''alg'' ms) | _ \<Rightarrow> v)"

definition drop_algs :: "json \<Rightarrow> json" where
  "drop_algs doc =
     (case doc of
        JObj ms \<Rightarrow>
          JObj (map (\<lambda>(k, v). (k, if k = ''keys'' then (case v of JArr ks \<Rightarrow> JArr (map drop_alg ks) | _ \<Rightarrow> v) else v)) ms)
      | _ \<Rightarrow> doc)"

text \<open>\<open>PublicJWKSNoAlg\<close>; only an object or null decodes into a map.\<close>

definition public_jwks_no_alg ::
  "(string \<Rightarrow> string option) \<Rightarrow> ('k, 's, 'r) token_lib \<Rightarrow> 'k signer \<Rightarrow> bytes result" where
  "public_jwks_no_alg fl L sg =
     bind_res (public_jwks L sg) (\<lambda>raw.
       case json_parse raw of
         None \<Rightarrow> Inl ''unmarshal jwks''
       | Some doc \<Rightarrow>
           if (case doc of JObj _ \<Rightarrow> True | JNull \<Rightarrow> True | _ \<Rightarrow> False)
           then (case any_value fl doc of
                   None \<Rightarrow> Inl ''unmarshal jwks''
                 | Some v \<Rightarrow> Inr (json_print (drop_algs v)))
           else Inl ''unmarshal jwks'')"

lemma last_wins_distinct: "distinct (map fst ms) \<Longrightarrow> last_wins ms = ms"
proof (induction ms rule: rev_induct)
  case (snoc m ms)
  obtain k v where m: "m = (k, v)" by (cases m)
  have "AList.update k v xs = xs @ [(k, v)]" if "k \<notin> fst ` set xs" for xs
    using that by (induction xs) auto
  with snoc m show ?case by (auto simp: last_wins_def)
qed (simp add: last_wins_def)

lemma any_strings:
  assumes "list_all (\<lambda>(k, v). \<exists>s. v = JStr s) ms"
  shows "those (map (\<lambda>(k, v). any_value fl v) ms) = Some (map snd ms)"
  using assms by (induction ms) auto

text \<open>
  The set of a signer whose public key has string members only reads back as the same set, with each
  member but alg.
\<close>

lemma no_alg_reads:
  assumes set: "public_jwks L sg = Inr (json_print (JObj [(''keys'', JArr [JObj ms])]))"
    and ms: "list_all (\<lambda>(k, v). \<exists>s. v = JStr s \<and> utf8 s) ms" "list_all (\<lambda>(k, v). utf8 k) ms" "distinct (map fst ms)"
  shows "\<exists>out key. public_jwks_no_alg fl L sg = Inr out \<and> json_parse out = Some (JObj [(''keys'', JArr [JObj key])])
    \<and> map_of key = (map_of ms)(''alg'' := None)"
proof -
  let ?doc = "JObj [(''keys'', JArr [JObj ms])]" and ?key = "AList.delete ''alg'' (sort_keys ms)"
  let ?out = "JObj [(''keys'', JArr [JObj ?key])]"
  have u: "utf8 ''keys''" by code_simp
  have flat: "\<forall>n \<in> set (map (\<lambda>(k, v). json_depth v) xs). n = 0" if "set xs \<subseteq> set ms" for xs
    using that ms(1) by (force simp: list_all_iff)
  have zero: "fold max ns 0 = 0" if "\<forall>n \<in> set ns. n = 0" for ns :: "nat list"
    using that by (induction ns) auto
  have sub: "set ?key \<subseteq> set ms" using set_sort_keys [of ms] by (auto simp: AList.delete_eq)
  have ok: "json_ok (JObj [(''keys'', JArr [JObj xs])])" "json_depth (JObj [(''keys'', JArr [JObj xs])]) \<le> max_nesting"
    if "set xs \<subseteq> set ms" for xs
  proof -
    show "json_ok (JObj [(''keys'', JArr [JObj xs])])" using that ms(1,2) u by (fastforce simp: list_all_iff)
    show "json_depth (JObj [(''keys'', JArr [JObj xs])]) \<le> max_nesting"
      using zero [OF flat [OF that]] by (simp add: max_nesting_def)
  qed
  have p: "json_parse (json_print ?doc) = Some ?doc" using ok [of ms] by (intro json_parse_print) simp_all
  have q: "json_parse (json_print ?out) = Some ?out" using ok [OF sub] by (intro json_parse_print) simp_all
  have strs: "list_all (\<lambda>(k, v). \<exists>s. v = JStr s) ms" using ms(1) by (auto simp: list_all_iff)
  have inner: "any_value fl (JObj ms) = Some (JObj (sort_keys ms))"
    using any_strings [OF strs] last_wins_distinct [OF ms(3)] by (simp add: zip_map_fst_snd)
  have one: "any_value fl v = Some x \<Longrightarrow> any_value fl (JArr [v]) = Some (JArr [x])"
    "any_value fl v = Some x \<Longrightarrow> any_value fl (JObj [(k, v)]) = Some (JObj [(k, x)])" for v x k
    by (simp_all add: last_wins_def sort_keys_def)
  have a: "any_value fl ?doc = Some (JObj [(''keys'', JArr [JObj (sort_keys ms)])])"
    by (intro one inner)
  have "public_jwks_no_alg fl L sg = Inr (json_print ?out)"
    unfolding public_jwks_no_alg_def set
    by (simp add: p a drop_algs_def drop_alg_def del: json_print.simps any_value.simps)
  moreover have "map_of ?key = (map_of ms)(''alg'' := None)"
    using map_of_sort_keys [OF ms(3)] by (simp add: delete_conv')
  ultimately show ?thesis using q by blast
qed

end
