(* ===== verification/KeysHistory.thy ===== *)
theory KeysHistory
  imports Sessions Demo
begin

text \<open>
  The remote key source over its life: a history of the lookups it has answered, in which anything may
  happen in between that does not touch the source, and what the answers are to be, stated over the
  history and the replies of the server alone, without the fields of the cache. The requests to a
  middleware make such a history (\<open>requests_history\<close>).
\<close>

section \<open>Histories\<close>

text \<open>
  One lookup: the key id, the number of the first reading of the clock it can have made and of the
  first one after it, the number of requests sent before and after it, and its answer.
\<close>

record 's lookup_entry =
  le_kid :: string
  le_begin :: nat
  le_end :: nat
  le_gets :: nat
  le_gets_after :: nat
  le_answer :: "'s result"

definition asked :: "'s lookup_entry \<Rightarrow> bool" where
  "asked e \<longleftrightarrow> le_gets e < le_gets_after e"

text \<open>The newest lookup comes first.\<close>

inductive key_history ::
  "('k, 's) jose \<Rightarrow> string \<Rightarrow> duration \<Rightarrow> ('s, 'e) world \<Rightarrow> 's lookup_entry list \<Rightarrow> ('s, 'e) world \<Rightarrow> bool"
  for J :: "('k, 's) jose" and uri :: string and ttl :: duration and w0 :: "('s, 'e) world" where
  new_source: "w_keys w0 = empty_key_cache \<Longrightarrow> w_gets w0 = [] \<Longrightarrow> key_history J uri ttl w0 [] w0"
| meanwhile: "key_history J uri ttl w0 es w \<Longrightarrow> w_clock w' = w_clock w \<Longrightarrow> w_tick w \<le> w_tick w' \<Longrightarrow>
    w_net w' = w_net w \<Longrightarrow> w_gets w' = w_gets w \<Longrightarrow> w_keys w' = w_keys w \<Longrightarrow> key_history J uri ttl w0 es w'"
| look_up: "key_history J uri ttl w0 es w \<Longrightarrow> remote_lookup J uri ttl kid w = (r, w') \<Longrightarrow>
    key_history J uri ttl w0
      (\<lparr>le_kid = kid, le_begin = w_tick w, le_end = w_tick w', le_gets = length (w_gets w),
        le_gets_after = length (w_gets w'), le_answer = r\<rparr> # es) w'"

section \<open>What the answers are to be\<close>

text \<open>
  The key set a reply brings: the body of a 200, cut off at a mebibyte, as the JOSE library reads it.
\<close>

definition key_reply :: "('k, 's) jose \<Rightarrow> http_reply \<Rightarrow> 's option" where
  "key_reply J reply =
     (case reply of
        Reply st (Inr body) \<Rightarrow>
          if st = 200 then (case jwk_parse J (take (1024 * 1024) body) of Inr ks \<Rightarrow> Some ks | Inl _ \<Rightarrow> None)
          else None
      | _ \<Rightarrow> None)"

definition brings :: "('k, 's) jose \<Rightarrow> http_reply \<Rightarrow> 's result \<Rightarrow> bool" where
  "brings J reply r \<longleftrightarrow> (case key_reply J reply of Some ks \<Rightarrow> r = Inr ks | None \<Rightarrow> \<exists>err. r = Inl err)"

text \<open>
  The newest key set of a history: what the server answered to the last request that brought one, and
  the last reading of the clock in that lookup, when it was stored.
\<close>

fun newest_set :: "('k, 's) jose \<Rightarrow> (nat \<Rightarrow> http_reply) \<Rightarrow> (nat \<Rightarrow> instant) \<Rightarrow> 's lookup_entry list \<Rightarrow> ('s \<times> instant) option" where
  "newest_set J net clk [] = None"
| "newest_set J net clk (e # es) =
     (case (if asked e then key_reply J (net (le_gets e)) else None) of
        Some ks \<Rightarrow> Some (ks, clk (le_end e - 1))
      | None \<Rightarrow> newest_set J net clk es)"

text \<open>The set that serves a key id at an instant: the newest one, if it has the key and is not too old.\<close>

definition serving_set ::
  "('k, 's) jose \<Rightarrow> duration \<Rightarrow> (nat \<Rightarrow> http_reply) \<Rightarrow> (nat \<Rightarrow> instant) \<Rightarrow> 's lookup_entry list \<Rightarrow> string \<Rightarrow> instant \<Rightarrow> 's option" where
  "serving_set J ttl net clk es kid t =
     (case newest_set J net clk es of
        Some (ks, t0) \<Rightarrow> if jwk_lookup J ks kid \<and> time_sub t t0 \<le> ttl then Some ks else None
      | None \<Rightarrow> None)"

text \<open>
  What a lookup does after the earlier ones: it is answered from the serving set of its key id at the
  instant it begins, without a request, or else by one request, with what the reply to that brings.
\<close>

definition as_promised ::
  "('k, 's) jose \<Rightarrow> duration \<Rightarrow> (nat \<Rightarrow> http_reply) \<Rightarrow> (nat \<Rightarrow> instant) \<Rightarrow> 's lookup_entry list \<Rightarrow> 's lookup_entry \<Rightarrow> bool" where
  "as_promised J ttl net clk earlier e \<longleftrightarrow>
     le_gets e = length (filter asked earlier)
     \<and> (case serving_set J ttl net clk earlier (le_kid e) (clk (le_begin e)) of
          Some ks \<Rightarrow> le_answer e = Inr ks \<and> le_gets_after e = le_gets e
        | None \<Rightarrow> le_gets_after e = Suc (le_gets e)
            \<and> brings J (net (le_gets e)) (le_answer e))"

section \<open>The cache is the newest set\<close>

lemma fetch_reply:
  assumes "fetch J uri w = (r, w')" and "url_parse uri \<noteq> None"
  shows "(case key_reply J (w_net w (length (w_gets w))) of Some ks \<Rightarrow> r = Inr ks | None \<Rightarrow> \<exists>e. r = Inl e)"
    and "w' = w\<lparr>w_gets := w_gets w @ [uri]\<rparr>"
  using assms
  by (auto simp: fetch_def http_get_def key_reply_def Let_def read_limited_def body_limit_def bind_res_def
      split: http_reply.splits sum.splits if_splits)

lemma refresh_reply:
  assumes "refresh J uri w = (r, w')" and "url_parse uri \<noteq> None"
  shows "(case key_reply J (w_net w (length (w_gets w))) of
      Some ks \<Rightarrow> r = Inr ks \<and> w_tick w' = Suc (w_tick w) \<and> kc_set (w_keys w') = Some ks
        \<and> kc_fetched_at (w_keys w') = w_clock w (w_tick w)
    | None \<Rightarrow> (\<exists>e. r = Inl e) \<and> kc_set (w_keys w') = kc_set (w_keys w)
        \<and> kc_fetched_at (w_keys w') = kc_fetched_at (w_keys w))"
    and "w_gets w' = w_gets w @ [uri]" "w_clock w' = w_clock w" "w_net w' = w_net w"
proof -
  obtain x w1 where x: "fetch J uri w = (x, w1)" by (cases "fetch J uri w")
  note f = fetch_reply [OF x assms(2)]
  show "(case key_reply J (w_net w (length (w_gets w))) of
      Some ks \<Rightarrow> r = Inr ks \<and> w_tick w' = Suc (w_tick w) \<and> kc_set (w_keys w') = Some ks
        \<and> kc_fetched_at (w_keys w') = w_clock w (w_tick w)
    | None \<Rightarrow> (\<exists>e. r = Inl e) \<and> kc_set (w_keys w') = kc_set (w_keys w)
        \<and> kc_fetched_at (w_keys w') = kc_fetched_at (w_keys w))"
    "w_gets w' = w_gets w @ [uri]" "w_clock w' = w_clock w" "w_net w' = w_net w"
    using assms(1) f by (auto simp: refresh_def x now_def split: option.splits sum.splits)
qed

text \<open>\<open>cached k n\<close>: the fields of the source hold the newest set.\<close>

definition cached :: "'s key_cache \<Rightarrow> ('s \<times> instant) option \<Rightarrow> bool" where
  "cached k n \<longleftrightarrow> (case n of None \<Rightarrow> kc_set k = None | Some (ks, t) \<Rightarrow> kc_set k = Some ks \<and> kc_fetched_at k = t)"

lemma lookup_serves:
  assumes "remote_lookup J uri ttl kid w = (r, w')" and "cached (w_keys w) (newest_set J net clk es)"
    and "serving_set J ttl net clk es kid (w_clock w (w_tick w)) = Some ks"
  shows "r = Inr ks \<and> w' = w\<lparr>w_tick := Suc (w_tick w)\<rparr>"
  using assms remote_lookup_fresh [of w ks J kid ttl uri]
  by (auto simp: serving_set_def cached_def split: option.splits if_splits)

lemma lookup_asks:
  assumes "remote_lookup J uri ttl kid w = (r, w')" and "cached (w_keys w) (newest_set J net clk es)"
    and "serving_set J ttl net clk es kid (w_clock w (w_tick w)) = None"
  shows "refresh J uri w = (r, w') \<or> refresh J uri (w\<lparr>w_tick := Suc (w_tick w)\<rparr>) = (r, w')"
  using assms
  by (auto simp: serving_set_def cached_def remote_lookup_def now_def split: option.splits if_splits)

lemma refresh_promised:
  assumes "refresh J uri v = (r, w')" and "url_parse uri \<noteq> None"
    and v: "w_net v = w_net w" "w_gets v = w_gets w" "w_clock v = w_clock w" "w_keys v = w_keys w"
    and e: "e = \<lparr>le_kid = kid, le_begin = w_tick w, le_end = w_tick w', le_gets = length (w_gets w),
        le_gets_after = length (w_gets w'), le_answer = r\<rparr>"
    and "cached (w_keys w) (newest_set J (w_net w) (w_clock w) es)"
  shows "asked e" "cached (w_keys w') (newest_set J (w_net w) (w_clock w) (e # es))"
    "brings J (w_net w (le_gets e)) (le_answer e)"
    "le_gets_after e = Suc (le_gets e)"
  using refresh_reply [OF assms(1,2)] assms(8) unfolding v e
  by (auto simp: asked_def cached_def brings_def split: option.splits)

lemma history_inv:
  assumes "key_history J uri ttl w0 es w" and u: "url_parse uri \<noteq> None"
  shows "w_clock w = w_clock w0 \<and> w_net w = w_net w0 \<and> w_gets w = replicate (length (filter asked es)) uri
    \<and> cached (w_keys w) (newest_set J (w_net w0) (w_clock w0) es)
    \<and> (\<forall>newer e earlier. es = newer @ e # earlier \<longrightarrow> as_promised J ttl (w_net w0) (w_clock w0) earlier e)"
  using assms(1)
proof induction
  case new_source
  then show ?case by (simp add: cached_def empty_key_cache_def)
next
  case (meanwhile es w w')
  then show ?case by simp
next
  case (look_up es w kid r w')
  let ?e = "\<lparr>le_kid = kid, le_begin = w_tick w, le_end = w_tick w', le_gets = length (w_gets w),
        le_gets_after = length (w_gets w'), le_answer = r\<rparr>"
  let ?net = "w_net w0" and ?clk = "w_clock w0"
  have same: "w_clock w = ?clk" "w_net w = ?net" "w_gets w = replicate (length (filter asked es)) uri"
    and c: "cached (w_keys w) (newest_set J ?net ?clk es)" using look_up.IH by simp_all
  have new: "w_clock w' = ?clk \<and> w_net w' = ?net \<and> w_gets w' = replicate (length (filter asked (?e # es))) uri
      \<and> cached (w_keys w') (newest_set J ?net ?clk (?e # es)) \<and> as_promised J ttl ?net ?clk es ?e"
  proof (cases "serving_set J ttl ?net ?clk es kid (w_clock w (w_tick w))")
    case (Some ks)
    with lookup_serves [OF look_up.hyps(2) c] have "r = Inr ks" "w' = w\<lparr>w_tick := Suc (w_tick w)\<rparr>" by blast+
    with Some same c show ?thesis by (simp add: asked_def as_promised_def)
  next
    case None
    then obtain v where v: "refresh J uri v = (r, w')" "w_net v = w_net w" "w_gets v = w_gets w"
      "w_clock v = w_clock w" "w_keys v = w_keys w"
      using lookup_asks [OF look_up.hyps(2) c] by force
    note p = refresh_promised [OF v(1) u v(2-5) refl, of es kid, unfolded same(1,2), OF c]
    have "w_gets w' = w_gets w @ [uri]" "w_clock w' = ?clk" "w_net w' = ?net"
      using refresh_reply(2-4) [OF v(1) u] v same by simp_all
    with p None same show ?thesis
      by (simp add: as_promised_def replicate_append_same del: newest_set.simps)
  qed
  moreover have "as_promised J ttl ?net ?clk earlier e" if "?e # es = newer @ e # earlier" for newer e earlier
    using that new look_up.IH by (cases newer) auto
  ultimately show ?case by blast
qed

section \<open>The requests to a middleware make a history\<close>

definition keeps :: "('s, 'e) world \<Rightarrow> ('s, 'e) world \<Rightarrow> bool" where
  "keeps w w' \<longleftrightarrow> w_clock w' = w_clock w \<and> w_tick w \<le> w_tick w' \<and> w_net w' = w_net w
     \<and> w_gets w' = w_gets w \<and> w_keys w' = w_keys w"

lemma keeps_refl [simp]: "keeps w w"
  by (simp add: keeps_def)

lemma keeps_trans: "keeps u v \<Longrightarrow> keeps v w \<Longrightarrow> keeps u w"
  by (simp add: keeps_def)

lemma keeps_emit: "keeps w (emit mw r ev c w)"
  by (simp add: keeps_def emit_def now_def Let_def emit_event_def split: option.split)

lemma keeps_deny: "deny mw r ae ev c rsp w = (rsp', w') \<Longrightarrow> keeps w w'"
  by (auto simp: deny_def Let_def keeps_emit)

lemma keeps_ext: "keeps w (w'\<lparr>w_ext := e\<rparr>) \<longleftrightarrow> keeps w w'" "keeps (w\<lparr>w_ext := e\<rparr>) w' \<longleftrightarrow> keeps w w'"
  by (simp_all add: keeps_def)

lemma keeps_parts:
  "mem_seen j x w = (b, w') \<Longrightarrow> keeps w w'"
  "ns_valid (new_dpop_nonce_source s) r n w = (ok, w') \<Longrightarrow> keeps w w'"
  "ns_current (new_dpop_nonce_source s) r w = (n, w') \<Longrightarrow> keeps w w'"
  by (auto simp: keeps_def mem_seen_def new_dpop_nonce_source_def hmac_valid_def hmac_current_def now_def Let_def
      split: prod.splits)

lemma authenticate_keeps:
  assumes "authenticate J mw r rsp w = (a, rsp', w')"
  shows "keeps w w' \<or> (\<exists>raw x w1. verify J (verifier_of mw) raw w = (x, w1) \<and> keeps w1 w')"
proof (cases "extract_token r")
  case None
  with assms show ?thesis by (auto simp: authenticate_def dest: keeps_deny)
next
  case (Some st)
  obtain scheme raw where st: "st = (scheme, raw)" by (cases st)
  obtain x w1 where v: "verify J (verifier_of mw) raw w = (x, w1)" by fastforce
  have "keeps w w' \<or> keeps w1 w'"
  proof (cases x)
    case (Inl ve)
    with assms Some st v show ?thesis
      by (cases "ve_kind ve") (auto simp: authenticate_def split: if_splits dest!: keeps_deny)
  next
    case (Inr c)
    with assms Some st v show ?thesis
      by (auto simp: authenticate_def keeps_ext split: if_splits option.splits prod.splits dest!: keeps_deny)
  qed
  with v show ?thesis by blast
qed

lemma verify_history:
  assumes h: "key_history J uri ttl w0 es w" and k: "tv_keys v = remote_lookup J uri ttl"
    and v: "verify J v raw w = (x, w')"
  shows "\<exists>es'. key_history J uri ttl w0 (es' @ es) w'"
proof -
  have "w' = w \<or> (\<exists>kid r w1. remote_lookup J uri ttl kid w = (r, w1) \<and> (w' = w1 \<or> w' = w1\<lparr>w_tick := Suc (w_tick w1)\<rparr>))"
    using v k by (auto simp: verify_def now_def Let_def split: sum.splits prod.splits if_splits)
  then consider "w' = w" | kid r w1 where "remote_lookup J uri ttl kid w = (r, w1)" "keeps w1 w'"
    by (auto simp: keeps_def)
  then show ?thesis
  proof cases
    case 1
    with h show ?thesis by (metis append_Nil)
  next
    case 2
    from key_history.look_up [OF h 2(1)]
    obtain e where "key_history J uri ttl w0 (e # es) w1" by blast
    then have "key_history J uri ttl w0 (e # es) w'"
      by (rule key_history.meanwhile) (use 2(2) in \<open>simp_all add: keeps_def\<close>)
    then show ?thesis by (intro exI [of _ "[e]"]) simp
  qed
qed

lemma enforce_keeps:
  assumes "mw_replay mw = mem_seen \<or> mw_replay mw = (\<lambda>_ _ w. (Inl ''nil'', w))"
    and n: "mw_nonce mw = None \<or> (\<exists>s. mw_nonce mw = Some (new_dpop_nonce_source s))"
    and e: "enforce_dpop J mw r raw c scheme rsp w = (ok, rsp', w')"
  shows "keeps w w'"
proof -
  have cl: "keeps u v" if "check_proof_claims mw r raw c p u = (a, v)" for p u a v
    using that by (auto simp: check_proof_claims_def now_def keeps_def split: if_splits)
  have cn: "keeps u v" if "check_nonce mw r p u = (a, v)" for p u a v
    using that n by (auto simp: check_nonce_def Let_def split: if_splits prod.splits dest!: keeps_parts intro: keeps_trans)
  have cr: "keeps u v" if "check_replay mw p u = (a, v)" for p u a v
    using that assms(1) by (auto simp: check_replay_def split: prod.splits sum.splits bool.splits dest!: keeps_parts)
  have vp: "keeps u v" if "verify_proof J mw r raw c u = (a, v)" for u a v
    using that unfolding verify_proof_def
    by (auto split: if_splits list.splits sum.splits prod.splits option.splits dest!: cl cn cr intro: keeps_trans)
  have vd: "keeps u v" if "verify_dpop J mw r raw c sch u = (a, v)" for sch u a v
    using that by (auto simp: verify_dpop_def split: if_splits dest: vp)
  show ?thesis
    using e unfolding enforce_dpop_def
    by (auto split: if_splits prod.splits option.splits dest!: vd keeps_deny intro: keeps_trans keeps_emit)
qed

text \<open>
  Requests through a middleware of the library's own parts with a remote key source, whose next handler
  leaves the network and the source alone: the lookups they make are a history.
\<close>

lemma guard_history:
  assumes "key_history J uri ttl w0 es w" and "mw_keys mw = remote_lookup J uri ttl"
    and parts: "mw_replay mw = mem_seen \<or> mw_replay mw = (\<lambda>_ _ w. (Inl ''nil'', w))"
      "mw_nonce mw = None \<or> (\<exists>s. mw_nonce mw = Some (new_dpop_nonce_source s))"
    and g: "guard J mw r rsp w = (a, rsp', w')"
  shows "\<exists>es'. key_history J uri ttl w0 (es' @ es) w'"
proof -
  obtain b rsp1 w1 where b: "authenticate J mw r rsp w = (b, rsp1, w1)" by (metis prod_cases3)
  have after: "keeps w1 w'"
    using g b unfolding guard_def
    by (auto split: option.splits prod.splits bool.splits dest!: enforce_keeps [OF parts] intro: keeps_trans keeps_emit)
  from authenticate_keeps [OF b] obtain es1 where h: "key_history J uri ttl w0 (es1 @ es) w1"
  proof (elim disjE exE conjE)
    assume "keeps w w1"
    then have "key_history J uri ttl w0 ([] @ es) w1"
      using key_history.meanwhile [OF assms(1)] by (simp add: keeps_def)
    then show ?thesis by (rule that)
  next
    fix raw x v
    assume v: "verify J (verifier_of mw) raw w = (x, v)" and k: "keeps v w1"
    obtain es1 where "key_history J uri ttl w0 (es1 @ es) v"
      using verify_history [OF assms(1) _ v] assms(2) by auto
    then have "key_history J uri ttl w0 (es1 @ es) w1"
      by (rule key_history.meanwhile) (use k in \<open>simp_all add: keeps_def\<close>)
    then show ?thesis by (rule that)
  qed
  from h have "key_history J uri ttl w0 (es1 @ es) w'"
    by (rule key_history.meanwhile) (use after in \<open>simp_all add: keeps_def\<close>)
  then show ?thesis by blast
qed

lemma requests_history:
  assumes "require_bearer J opts w = (Inr mw, w0)" and "w_gets w = []"
    and "mw_keys mw = remote_lookup J uri ttl"
    and "bo_dpop_replay opts = None"
    and "bo_dpop_nonce opts = None \<or> (\<exists>s. bo_dpop_nonce opts = Some (new_dpop_nonce_source s))"
    and "\<And>c r rsp w. keeps w (snd (nxt c r rsp w))"
  shows "\<exists>es. key_history J uri ttl w0 es (serve_all J mw nxt rs w0)"
proof -
  have w0: "w0 = w\<lparr>w_keys := empty_key_cache, w_mem := new_mem_replay\<rparr>" and cfg: "configure J opts = Inr mw"
    using assms(1) by (auto simp: require_bearer_def split: sum.splits)
  from cfg assms(4) have r: "mw_replay mw = mem_seen \<or> mw_replay mw = (\<lambda>_ _ w. (Inl ''nil'', w))"
    using configure_InrD [OF cfg] by (auto simp: build_dpop_runtime_def Let_def split: if_splits)
  from configure_InrD [OF cfg] assms(5) have n: "mw_nonce mw = None \<or> (\<exists>s. mw_nonce mw = Some (new_dpop_nonce_source s))"
    by auto
  have step: "\<exists>es'. key_history J uri ttl w0 es' (serve J mw nxt r v)" if hist: "key_history J uri ttl w0 es v" for es r v
  proof -
    obtain a rsp1 v1 where g: "guard J mw r new_response v = (a, rsp1, v1)" by (metis prod_cases3)
    then obtain es' where "key_history J uri ttl w0 (es' @ es) v1"
      using guard_history [OF hist assms(3) r n g] by blast
    moreover from this have "key_history J uri ttl w0 (es' @ es) (snd (nxt c r rsp1 v1))" for c
      by (rule key_history.meanwhile) (use assms(6) [of v1 c r rsp1] in \<open>simp_all add: keeps_def\<close>)
    ultimately show ?thesis using g by (auto simp: serve_def handler_def split: option.split)
  qed
  have "\<exists>es'. key_history J uri ttl w0 es' (fold (serve J mw nxt) rs v)" if "key_history J uri ttl w0 es v" for es v
    using that
  proof (induction rs arbitrary: es v)
    case (Cons r rs)
    then show ?case using step [OF Cons.prems] by (metis fold_simps(2))
  qed auto
  moreover have "key_history J uri ttl w0 [] w0"
    by (rule key_history.new_source) (simp_all add: w0 assms(2))
  ultimately show ?thesis unfolding serve_all_def by blast
qed

section \<open>Property\<close>

text \<open>
  C31. The key source over its life: whatever lookups came before and however much time passed between
  them, a lookup is answered from the newest key set that the server brought with a 200, without a
  request, exactly when that set has the key id and was stored at most the ttl before the lookup began;
  any other lookup sends one request, to the configured URI, and returns the set that its reply brings
  or an error, never an old set.
\<close>

theorem lookups_promised:
  assumes "key_history J uri ttl w0 (newer @ e # earlier) w" and "url_parse uri \<noteq> None"
  shows "as_promised J ttl (w_net w0) (w_clock w0) earlier e
    \<and> w_gets w = replicate (length (filter asked (newer @ e # earlier))) uri"
  using history_inv [OF assms] by blast

text \<open>A server that answers once, three lookups, and a minute between the first two and the third.\<close>

definition once_up :: "(unit, unit) world" where
  "once_up = demo_world\<lparr>w_net := (\<lambda>n. if n = 0 then Reply 200 (Inr ''keys'') else TransportError ''down''),
     w_clock := (\<lambda>n. demo_now + (if n < 2 then 0 else minutes 1))\<rparr>"

lemma once_up_lookups:
  defines "u \<equiv> ''https://as.example/jwks''"
  shows "\<exists>r. remote_lookup demo_jose u (30 * second) ''k1'' once_up = (r, once_up\<lparr>w_tick := 1, w_gets := [u],
      w_keys := \<lparr>kc_set = Some (), kc_fetched_at = demo_now, kc_last_err = None\<rparr>\<rparr>)"
proof -
  have "url_parse u \<noteq> None" unfolding u_def by code_simp
  then have "fetch demo_jose u once_up = (Inr (), once_up\<lparr>w_gets := [u]\<rparr>)"
    by (simp add: fetch_def http_get_def once_up_def read_limited_def demo_at_def) (simp add: demo_jose_def)
  then have "refresh demo_jose u once_up = (Inr (), once_up\<lparr>w_tick := 1, w_gets := [u],
      w_keys := \<lparr>kc_set = Some (), kc_fetched_at = demo_now, kc_last_err = None\<rparr>\<rparr>)"
    by (simp add: refresh_def now_def once_up_def demo_at_def)
  moreover have "kc_set (w_keys once_up) = None" by (simp add: once_up_def demo_at_def empty_key_cache_def)
  ultimately show ?thesis by (simp add: remote_lookup_def)
qed

lemma once_up_history:
  "\<exists>e1 e2 e3 w. key_history demo_jose ''https://as.example/jwks'' (30 * second) once_up [e3, e2, e1] w
    \<and> le_kid e1 = ''k1'' \<and> le_end e1 = 1 \<and> le_kid e2 = ''k1'' \<and> le_begin e2 = 1 \<and> 2 \<le> le_begin e3"
proof -
  let ?H = "key_history demo_jose ''https://as.example/jwks'' (30 * second) once_up"
  let ?look = "remote_lookup demo_jose ''https://as.example/jwks'' (30 * second) ''k1''"
  obtain r1 w1 where l1: "?look once_up = (r1, w1)" and t1: "w_tick w1 = 1" using once_up_lookups by force
  obtain r2 w2 where l2: "?look w1 = (r2, w2)" by fastforce
  let ?w2 = "w2\<lparr>w_tick := w_tick w2 + 2\<rparr>"
  obtain r3 w3 where l3: "?look ?w2 = (r3, w3)" by fastforce
  have "?H [] once_up"
    by (rule key_history.new_source) (simp_all add: once_up_def demo_at_def)
  from key_history.look_up [OF key_history.look_up [OF this l1] l2]
  obtain e1 e2 where h2: "?H [e2, e1] w2" and e: "le_kid e1 = ''k1''" "le_end e1 = 1" "le_kid e2 = ''k1''" "le_begin e2 = 1"
    using t1 by fastforce
  from h2 have "?H [e2, e1] ?w2" by (rule key_history.meanwhile) simp_all
  from key_history.look_up [OF this l3] obtain e3 where "?H [e3, e2, e1] w3" "2 \<le> le_begin e3" by fastforce
  with e show ?thesis by blast
qed

theorem lookups_promised_witness:
  "\<exists>e1 e2 e3 w. key_history demo_jose ''https://as.example/jwks'' (30 * second) once_up [e3, e2, e1] w
    \<and> le_answer e1 = Inr () \<and> asked e1 \<and> le_answer e2 = Inr () \<and> \<not> asked e2
    \<and> (\<exists>err. le_answer e3 = Inl err) \<and> asked e3"
proof -
  let ?u = "''https://as.example/jwks''" and ?net = "w_net once_up" and ?clk = "w_clock once_up"
  obtain e1 e2 e3 and w :: "(unit, unit) world" where h: "key_history demo_jose ?u (30 * second) once_up [e3, e2, e1] w"
    and e: "le_kid e1 = ''k1''" "le_end e1 = 1" "le_kid e2 = ''k1''" "le_begin e2 = 1" "2 \<le> le_begin e3"
    using once_up_history by blast
  have u: "url_parse ?u \<noteq> None" by code_simp
  have J: "jwk_parse demo_jose b = Inr ()" "jwk_lookup demo_jose () ''k1''" for b by (simp_all add: demo_jose_def)
  have net: "key_reply demo_jose (?net 0) = Some ()" "key_reply demo_jose (?net (Suc n)) = None" for n
    by (simp_all add: once_up_def key_reply_def J)
  have clk: "?clk 0 = demo_now" "?clk (Suc 0) = demo_now" "2 \<le> n \<Longrightarrow> ?clk n = demo_now + minutes 1" for n
    by (simp_all add: once_up_def)
  have age: "time_sub demo_now demo_now \<le> 30 * second" "\<not> time_sub (demo_now + minutes 1) demo_now \<le> 30 * second"
    by code_simp+
  note p = lookups_promised [OF _ u, THEN conjunct1, unfolded as_promised_def]
  have p1: "le_gets e1 = 0" "le_gets_after e1 = 1" "le_answer e1 = Inr ()"
    using p [of demo_jose "30 * second" once_up "[e3, e2]" e1 "[]" w] h net(1)
    by (auto simp: serving_set_def brings_def)
  then have a1: "asked e1" and n1: "newest_set demo_jose ?net ?clk [e1] = Some ((), demo_now)"
    by (simp_all add: asked_def net e(2) clk(1))
  have p2: "le_gets e2 = 1" "le_gets_after e2 = 1" "le_answer e2 = Inr ()"
    using p [of demo_jose "30 * second" once_up "[e3]" e2 "[e1]" w] h a1 n1 age(1)
    by (auto simp: serving_set_def J e clk simp del: newest_set.simps)
  then have a2: "\<not> asked e2" by (simp add: asked_def)
  then have "newest_set demo_jose ?net ?clk [e2, e1] = Some ((), demo_now)" using n1 by simp
  then have p3: "le_gets e3 = 1" "le_gets_after e3 = 2" "brings demo_jose (?net 1) (le_answer e3)"
    using p [of demo_jose "30 * second" once_up "[]" e3 "[e2, e1]" w] h a1 a2 age(2) clk(3) [OF e(5)]
    by (auto simp: serving_set_def simp del: newest_set.simps)
  then have "\<exists>err. le_answer e3 = Inl err" "asked e3" using net(2) [of 0] by (simp_all add: brings_def asked_def)
  with h p1 p2 a1 a2 show ?thesis by blast
qed

end
