(* ===== verification/Spec2Isabelle.thy ===== *)
theory Spec2Isabelle
  imports Metadata ExchangeClaims KeysClaims ExchangeStub Assurance DiscoveryConc RedisReplay Consumers
    RequestsConc SystemConc Modes NoAlg KeysHistory
begin

text \<open>
  A verification of aoa, a Go library that makes an HTTP service an OAuth 2 resource server: bearer
  tokens with sender constraint (DPoP), protected resource metadata, and token exchange on both sides.

  The program. \<open>RequireBearer\<close> (bearer.go) builds a middleware from its options. Each request runs
  through it: the token is taken from the header, verified (verify.go, with keys from jwks.go) into
  claims (claims.go), held against audience, scopes and the claim validator, and against the DPoP rules
  (dpop.go, with the proof of dpop_proof.go, the nonce of dpop_nonce.go and the replay cache of
  dpop_replay.go). A denial writes a challenge (bearer_errors.go) and an audit event (audit.go); an
  admission calls the next handler with the claims. The challenge names the metadata document that
  metadata.go and handler.go serve and the chi adapter mounts. exchange_validator.go is the token
  endpoint of RFC 8693, over the same verifier; exchange.go, exchange_client_auth.go,
  exchange_dpop.go and exchange_discovery.go are a client of such an endpoint. The programs under
  examples/ wire these parts together, internal/jwktest has the signers and servers of the tests.

  The theories, in the order of the imports.
  \<^item> Prelude: results as sums (\<open>Inl\<close> an error text), their sequencing, lists.
  \<^item> GoText, GoCodec, GoTime, GoJson, GoJsonPrint, GoUrl, GoUrlPrint, GoHttp, GoForm: what the code uses
    of Go's standard library: bytes, runes and quoting; base64url, SHA-256 and HMAC; instants as
    nanoseconds since year 1 with the wrap-around of int64 seconds; JSON both ways; URLs; headers and
    responses; form values.
  \<^item> World: the world of the middleware, a record of the clock (a function of the number of readings),
    the answers of the network, the audit log, the JWKS cache, the replay cache, and the caller's state.
  \<^item> Jose, Claims, Keys, Verify, Challenge, DpopProof, Nonce, Replay, Dpop, Resource, Bearer: the
    middleware, one theory per file of the code, a definition per function, in its order of effects.
  \<^item> KeysConc, KeysClaims: any number of callers of \<open>setForKID\<close> and \<open>refresh\<close> at once, as a step relation
    whose steps are the regions under the mutex, the wait on the channel, the fetch and its close.
  \<^item> KeysHistory: the key source over its life, as the history of its lookups, and what they are to
    answer, from the replies of the server and the readings of the clock alone.
  \<^item> Admission, Outcomes, Sessions: what the middleware admits, as a predicate; what a denial is; runs
    of many requests.
  \<^item> Metadata: metadata.go, handler.go and the chi adapter.
  \<^item> ExchangeTypes, ExchangeValidator, Delegation: the server side of token exchange.
  \<^item> ExchangeClient, Exchanger, ExchangeFlow, ExchangeReply, ExchangeRun: its client side, with its own
    world (the clock, random readings, the discovery cache and the other side), and both joined.
  \<^item> DiscoveryConc: any number of callers of \<open>tokenEndpoint\<close> at once, as a step relation whose steps
    are the two regions under the mutex and the fetch between them.
  \<^item> RequestsConc: any number of requests at once through a middleware with the in-memory replay cache, as
    a step relation whose steps are the checks before the cache, the clock reading of \<open>Seen\<close> and its
    region under the mutex; a request alone computes the sequential handler (\<open>request_alone\<close>).
  \<^item> SystemConc: the step relations of KeysConc and RequestsConc joined: concurrent requests through a
    middleware with a remote key source and the in-memory replay cache. A request alone computes the
    sequential handler (\<open>system_alone\<close>).
  \<^item> Modes: the order of the DPoP modes and what a stricter one changes.
  \<^item> ExchangeStub, TestSigner, NoAlg: the token endpoint, signers, forged proofs, key sets and JWKS
    server of the project's tests (internal/jwktest).
  \<^item> DpopExample, RedisReplay, Consumers: the programs of examples/, from their keys to what they
    answer or print, and what users see of claims (claims.go) and emitters (audit.go).
  \<^item> Demo, ExchangeDemo: concrete deployments on which the definitions are evaluated.
  \<^item> Metadata, ExchangeTypes, ExchangeClaims, KeysClaims, ExchangeStub, Assurance, DiscoveryConc,
    DpopExample, RedisReplay, RequestsConc, SystemConc, KeysHistory and this theory hold the properties C1 to C40,
    each with the witness that its hypotheses can hold.

  The interfaces are locales, each interpreted on the code's own definitions: \<open>key_source\<close> (static and
  remote keys), \<open>replay_cache\<close> (the in-memory cache), \<open>graceful_nonce\<close> (the HMAC nonces) and \<open>pipeline\<close>
  (a middleware of the library's own parts).

  What the lemmas show. C1 says that the handler admits exactly what a declarative predicate admits;
  C2 to C5, C35 and C36 what that means for bound tokens, modes, algorithms, issuers, audiences,
  expiry and outages; C6, C7, C10 and C15 when a proof can be used again, with the in-memory cache
  or one shared through Redis, and (C11) by requests that run at the same time; C14 which tokens
  concurrent requests are admitted with while they share one fetch of the keys; C8, C21 and C37 what
  is answered and recorded; C9 what a whole program does, from key generation to the two answers it
  prints; C12, C23 and C32 how nonces proceed, C24 discovery with concurrent callers; C13 and C16 the
  metadata and its way to the client; C17 to C20, C22, C25 and C26 that both sides of an exchange
  agree and whom a grant trusts; C27 to C31 and C38 the key source, alone and with concurrent callers;
  C33 and C34 the configurations. C7, C30, C39 and C40 state limits of the code.

  Parameters. The JOSE library is the record \<open>jose\<close> and, for signing, \<open>signing_lib\<close>: their fields are
  the functions the code calls. What is assumed of them is named: \<open>jwt_validates\<close> (issuer, exp and
  nbf are checked with the skew), \<open>jws_sound\<close> and \<open>signs_for\<close> (a signed text parses and verifies under
  the public key) and \<open>issues\<close> (a signed token verifies under the JWKS of its key). \<open>token_lib\<close> adds key
  generation and token signing, for the tests and examples; Redis is the function \<open>set_nx\<close>, with
  \<open>set_nx_sound\<close>: SET NX sets a key exactly when it is not there. The callbacks of the options (claim validator, error handler, policy), the HTTP client and the
  next handler are arguments.

  Bounds. JSON parsing takes fuel: twice the length of the text plus two is enough, and more changes
  nothing (\<open>json_parse_fuel\<close>); nesting is limited to 10000 as in Go, bodies to the limits the code
  sets. \<open>read_params\<close> takes the number of parameters. Every other recursion terminates by its measure.
  A run of the key source takes at most five steps for each caller (C28), one of discovery (C24) or of
  requests (C11) three, one of the system of both (C14) eight.
  C9 allows a minute between the first and the last reading of the clock. Durations and instants are
  integers; where Go's int64 wraps, the definition wraps.

  Not modelled: the loggers behind the slog emitter (output only), contexts beyond the claims they
  carry and their cancellation, the timeout of HTTP clients, the texts of errors of Go's JSON and URL
  parsers behind the prefix the code gives, the listening and printing of the examples and how the
  routers match paths, how Go prints the floats that \<open>PublicJWKSNoAlg\<close> of the tests makes of JSON numbers
  (a parameter, \<open>fl\<close>), what the HTTP connection drops of a response that the handler wrote (the body of
  an answer to HEAD, the content headers of a 304), and a claim validator that writes to the claims it is given. The clock is one
  number: the monotonic reading of Go's time runs with the wall clock.
\<close>

section \<open>The middleware\<close>

text \<open>
  C1. The handler calls the next one exactly when the request meets every condition of the
  declarative predicate \<open>admits\<close> (a token that verifies, an accepted audience, every required
  scope, the claim validator, and the sender constraint of the DPoP mode); the response is
  untouched until then, and the world is the one the checks leave, with the events of an
  admission appended.
\<close>

theorem admits_exactly:
  "guard J mw r rsp w = (Some c, rsp', w') \<longleftrightarrow>
     rsp' = rsp \<and> (\<exists>scheme raw w2. admits J mw r scheme raw c w w2
        \<and> w' = allow_events mw r c scheme w2)"
  by (rule guard_Some)

text \<open>
  C2. The downgrade defence: in every DPoP mode, a token whose payload carries cnf.jkt and that is
  presented as Bearer is denied, and the next handler plays no part in the answer.
\<close>

theorem no_downgrade:
  assumes "extract_token r = Some (''Bearer'', raw)" and "extract_cnf (token_payload raw) \<noteq> []"
  shows "fst (guard J mw r rsp w) = None \<and> handler J mw nxt r rsp w = handler J mw nxt' r rsp w"
proof -
  have "fst (guard J mw r rsp w) = None" using assms by (rule bound_bearer_denied)
  then show ?thesis by (simp add: handler_denied)
qed

theorem no_downgrade_witness:
  "fst (guard demo_jose (demo_mw DPoPOptional) (bearer_request demo_bound) new_response demo_world) = None"
  using no_downgrade [OF demo_extract(2) demo_bound_cnf] by blast

text \<open>
  C3. Sender constraint: whoever is admitted with a bound token presented it as DPoP, with one
  proof whose verified key has the thumbprint the token names, whose ath is the hash of this
  token, and whose method and target are those of this request.
\<close>

theorem bound_needs_proof:
  assumes "guard J mw r rsp w = (Some c, rsp', w')" and "bound_key_thumbprint c \<noteq> []"
  shows "\<exists>raw rp p. extract_token r = Some (''DPoP'', raw)
    \<and> header_values (req_header r) ''DPoP'' = [rp] \<and> proves J (mw_dpop_algs mw) rp p
    \<and> dp_jkt p = extract_cnf (token_payload raw) \<and> dp_ath p = ath_for raw
    \<and> equal_fold (dp_htm p) (req_method r)
    \<and> htu_equal (dp_htu p) (request_htu r (mw_trust_fwd mw))"
proof -
  obtain scheme raw w1 e w2 where f: "extract_token r = Some (scheme, raw)"
    "cl_cnf_jkt c = extract_cnf (token_payload raw)"
    "sender_ok J mw r raw c scheme (w1\<lparr>w_ext := e\<rparr>) w2"
    using admitted_facts [OF assms(1)] by blast
  then have s: "scheme = ''DPoP''" using assms(2) by (auto simp: sender_ok_def split: if_splits)
  then obtain rp p where "proof_ok J mw r raw c rp p (w1\<lparr>w_ext := e\<rparr>) w2"
    using f(3) by (auto simp: sender_ok_def)
  then show ?thesis
    using f s by (auto simp: proof_ok_def proof_fits_def bound_key_thumbprint_def)
qed

theorem bound_needs_proof_witness:
  "\<exists>raw rp p. extract_token (dpop_request demo_bound) = Some (''DPoP'', raw)
    \<and> header_values (req_header (dpop_request demo_bound)) ''DPoP'' = [rp]
    \<and> proves demo_jose (mw_dpop_algs (demo_mw DPoPRequired)) rp p
    \<and> dp_jkt p = extract_cnf (token_payload raw) \<and> dp_ath p = ath_for raw
    \<and> equal_fold (dp_htm p) (req_method (dpop_request demo_bound))
    \<and> htu_equal (dp_htu p) (request_htu (dpop_request demo_bound) (mw_trust_fwd (demo_mw DPoPRequired)))"
  by (rule bound_needs_proof [OF demo_guard_dpop [OF _ demo_window_now(1) demo_unseen]])
    (simp_all add: bound_key_thumbprint_def demo_claims_def)

text \<open>
  C4. Under \<open>DPoPRequired\<close> every admitted request used the DPoP scheme with a bound token; with
  DPoP off none did, and no admitted token is bound.
\<close>

theorem mode_decides_scheme:
  assumes "guard J mw r rsp w = (Some c, rsp', w')"
  shows "(mw_dpop_mode mw = DPoPRequired \<longrightarrow>
      (\<exists>raw. extract_token r = Some (''DPoP'', raw)) \<and> bound_key_thumbprint c \<noteq> [])
    \<and> (mw_dpop_mode mw = DPoPOff \<longrightarrow>
      (\<exists>raw. extract_token r = Some (''Bearer'', raw)) \<and> bound_key_thumbprint c = [])"
proof -
  obtain scheme raw w1 e w2 where f: "extract_token r = Some (scheme, raw)"
    "sender_ok J mw r raw c scheme (w1\<lparr>w_ext := e\<rparr>) w2"
    using admitted_facts [OF assms] by blast
  then show ?thesis
    using extract_token_scheme [OF f(1)] by (auto simp: sender_ok_def split: if_splits)
qed

theorem mode_decides_scheme_witness:
  "bound_key_thumbprint (demo_claims ''YWJj'') \<noteq> [] \<and> bound_key_thumbprint (demo_claims []) = []"
  using mode_decides_scheme [OF demo_guard_dpop [OF _ demo_window_now(1) demo_unseen, of DPoPRequired]]
    mode_decides_scheme [OF demo_guard_bearer [of DPoPOff]]
  by (simp add: demo_mw_def)

text \<open>
  C5. What an admission says of the token, for a middleware built by \<open>RequireBearer\<close>: its
  algorithm is asymmetric, its issuer is the configured one, one of its audiences is the resource
  or a configured audience, it has every required scope, and if it has an expiry then the clock,
  read during the request, was before it (up to the skew).
\<close>

theorem admitted_token:
  assumes "require_bearer J opts w0 = (Inr mw, w1)" and "jwt_validates J"
    and "guard J mw r rsp w = (Some c, rsp', w')"
  shows "cl_issuer c = bo_issuer opts
    \<and> (\<exists>scheme raw kid alg. extract_token r = Some (scheme, raw)
         \<and> header_kid_alg J raw = Inr (kid, alg) \<and> asymmetric J alg)
    \<and> (\<exists>a \<in> set (cl_audience c). a = bo_resource opts \<and> a \<noteq> [] \<or> a \<in> set (bo_audience opts))
    \<and> set (bo_required_scopes opts) \<subseteq> set (cl_scope c)
    \<and> (cl_expiry c \<noteq> zero_time \<longrightarrow> (\<exists>i \<ge> w_tick w. w_clock w i - mw_skew mw < cl_expiry c))"
proof -
  have cfg: "configure J opts = Inr mw"
    using assms(1) by (simp add: require_bearer_def split: sum.splits)
  obtain algs ks where d: "parse_algs J (bo_allowed_algorithms opts) = Inr algs"
    "resolve_key_source J (bo_keys_jwks opts) (bo_jwks_uri opts) (bo_jwks_cache_ttl opts) = Inr ks"
    "mw_keys mw = ks" "mw_issuer mw = bo_issuer opts" "mw_audiences mw = accepted_audiences opts"
    "mw_required_scope mw = bo_required_scopes opts" "mw_algs mw = algs"
    using configure_InrD [OF cfg] by blast
  obtain scheme raw where f: "extract_token r = Some (scheme, raw)"
    "verified_at J (verifier_of mw) raw w c" "claims_ok mw c"
    using admitted_facts [OF assms(3)] by blast
  from f(2) obtain kid alg k x tok where v: "header_kid_alg J raw = Inr (kid, alg)" "alg \<in> set algs"
    "ks kid w = (Inr k, x)"
    "jwt_parse J raw k (bo_issuer opts) (mw_skew mw) (w_clock x (w_tick x)) = Inr tok"
    "c = new_claims tok raw"
    unfolding verified_at_def using d by auto
  have "asymmetric J alg" using parse_algs_set(2) [OF d(1)] v(2) by blast
  moreover have iss: "tok_issuer tok = Some (bo_issuer opts)"
    and exp: "tok_expiration tok = Some e \<Longrightarrow> w_clock x (w_tick x) - mw_skew mw < e" for e
    using assms(2) v(4) unfolding jwt_validates_def by blast+
  moreover have "w_clock x = w_clock w" "w_tick w \<le> w_tick x"
    using key_source.lookup_quiet [OF resolve_key_source_quiet [OF d(2)] v(3)]
    by (simp_all add: quiet_def later_def)
  ultimately show ?thesis
    using f v d
    by (auto simp: claims_ok_def accepted_audiences_def new_claims_def or_zero_def
        split: if_splits option.splits)
qed

theorem admitted_token_witness:
  "cl_issuer (demo_claims []) = ''https://as.example''"
proof -
  have "require_bearer demo_jose (demo_opts DPoPOff) demo_world
      = (Inr (demo_mw DPoPOff), demo_world\<lparr>w_keys := empty_key_cache, w_mem := new_mem_replay\<rparr>)"
    by (simp add: require_bearer_def demo_configure)
  from admitted_token [OF this demo_jwt_validates demo_guard_bearer]
  show ?thesis by (simp add: demo_opts_def)
qed

text \<open>
  C6. No replay: with the library's own replay cache (and no nonces, or its own nonce source), after
  one admitted DPoP request no request with the same jti is admitted until the clock has reached
  the recorded expiry, whatever requests come in between and whatever they do.
\<close>

theorem no_replay:
  assumes "require_bearer J opts w0 = (Inr mw, w00)" and "bo_dpop opts \<noteq> DPoPOff"
    and "bo_dpop_replay opts = None"
    and "bo_dpop_nonce opts = None \<or> (\<exists>s. bo_dpop_nonce opts = Some (new_dpop_nonce_source s))"
    and "unmeddling nxt" and "steady (w_clock w)"
    and "guard J mw r1 rsp1 w = (Some c1, rsp1', w1)"
    and "extract_token r1 = Some (''DPoP'', raw1)" and "proof_of J mw r1 p1"
    and "w2 = serve_all J mw nxt rs (snd (nxt c1 r1 rsp1' w1))"
    and "guard J mw r2 rsp2 w2 = (Some c2, rsp2', w3)"
    and "extract_token r2 = Some (''DPoP'', raw2)" and "proof_of J mw r2 p2"
    and "dp_jti p2 = dp_jti p1"
  shows "expiry_of mw p1 \<le> w_clock w (w_tick w3)"
proof -
  have cfg: "configure J opts = Inr mw"
    using assms(1) by (simp add: require_bearer_def split: sum.splits)
  have "pipeline mw" using cfg assms(3,4) by (rule configure_pipeline)
  moreover have "mw_replay mw = mem_seen" using configure_mem_seen [OF cfg assms(2,3)] .
  ultimately show ?thesis by (rule pipeline.no_second_admission [OF _ _ assms(5-14)])
qed

theorem no_replay_witness:
  "expiry_of (demo_mw DPoPRequired) demo_proof \<le> demo_expiry"
proof -
  let ?m = "demo_mw DPoPRequired" and ?r = "dpop_request demo_bound"
  have rb: "require_bearer demo_jose (demo_opts DPoPRequired) demo_world
      = (Inr ?m, demo_world\<lparr>w_keys := empty_key_cache, w_mem := new_mem_replay\<rparr>)"
    by (simp add: require_bearer_def demo_configure)
  obtain evs m k w2 where g1: "guard demo_jose ?m ?r new_response (demo_at demo_expiry 0 [] new_mem_replay)
      = (Some (demo_claims ''YWJj''), new_response, demo_at demo_expiry k evs m)"
    and g2: "guard demo_jose ?m ?r new_response (demo_at demo_expiry k evs m)
      = (Some (demo_claims ''YWJj''), new_response, w2)" and clk: "w_clock w2 = (\<lambda>_. demo_expiry)"
    using demo_twice by blast
  have pr: "proof_of demo_jose ?m ?r demo_proof"
    using demo_proves [of DPoPRequired] by (auto simp: proof_of_def demo_headers)
  have un: "unmeddling quiet_next" by (simp add: unmeddling_def quiet_next_def)
  have st: "steady (w_clock (demo_at demo_expiry 0 [] new_mem_replay))" by (simp add: steady_def)
  have mid: "demo_at demo_expiry k evs m = serve_all demo_jose ?m quiet_next []
      (snd (quiet_next (demo_claims ''YWJj'') ?r new_response (demo_at demo_expiry k evs m)))"
    by (simp add: serve_all_def quiet_next_def)
  from no_replay [OF rb _ _ _ un st g1 demo_extract(3) pr mid g2 demo_extract(3) pr refl]
  show ?thesis by (simp add: demo_opts_def)
qed

text \<open>
  C7. The bound of C6 is tight: at the very instant of expiry, which the window of \<open>iat\<close> still
  contains, the same request is admitted twice in a row.
\<close>

theorem replay_at_expiry:
  "\<exists>w1 w2. guard demo_jose (demo_mw DPoPRequired) (dpop_request demo_bound) new_response
       (demo_at (time_add (dp_iat demo_proof) (mw_proof_max_age (demo_mw DPoPRequired))) 0 [] new_mem_replay)
     = (Some (demo_claims ''YWJj''), new_response, w1)
   \<and> guard demo_jose (demo_mw DPoPRequired) (dpop_request demo_bound) new_response w1
     = (Some (demo_claims ''YWJj''), new_response, w2)"
proof -
  have "time_add (dp_iat demo_proof) (mw_proof_max_age (demo_mw DPoPRequired)) = demo_expiry"
    using demo_time_add(1) [of demo_now] by (simp add: demo_proof_def demo_mw_def)
  then show ?thesis using demo_twice by metis
qed

text \<open>
  C8. A denial, for a middleware built with the library's own parts: exactly one event is emitted,
  for this request, of a rejection kind and with outcome deny or error; the response has status
  401 or 403, no body, and a \<open>WWW-Authenticate\<close> challenge with the configured realm.
\<close>

theorem denied_response:
  assumes "require_bearer J opts w0 = (Inr mw, w1)" and "bo_dpop_replay opts = None"
    and "bo_dpop_nonce opts = None \<or> (\<exists>s. bo_dpop_nonce opts = Some (new_dpop_nonce_source s))"
    and "bo_error_handler opts = None"
    and "guard J mw r new_response w = (None, rsp', w')"
  shows "\<exists>ev ae. w_audit w' = w_audit w @ [ev] \<and> about mw r ev
    \<and> ev_kind ev \<in> {EventTokenRejected, EventDPoPRejected, EventJTIReplay}
    \<and> ev_outcome ev \<in> {OutcomeDeny, OutcomeError}
    \<and> resp_status rsp' = Some (ae_status ae) \<and> ae_status ae \<in> {401, 403} \<and> resp_body rsp' = []
    \<and> build_challenge (uprint J) ae (fst (derive_challenge_params opts)) (snd (derive_challenge_params opts))
        \<in> set (header_values (resp_header rsp') ''WWW-Authenticate'')"
proof -
  have cfg: "configure J opts = Inr mw"
    using assms(1) by (simp add: require_bearer_def split: sum.splits)
  have "pipeline mw" using cfg assms(2,3) by (rule configure_pipeline)
  from pipeline.guard_None [OF this assms(5)] have d: "denial mw r new_response w rsp' w'" .
  obtain ae where "rsp' = mw_on_error mw r (AuthError ae) new_response" "ae_status ae \<in> {401, 403}"
    using denial_response [OF d] by blast
  moreover have "mw_on_error mw = (\<lambda>_. default_error_handler (uprint J)
      (fst (derive_challenge_params opts)) (snd (derive_challenge_params opts)))"
    using configure_InrD [OF cfg] assms(4) by auto
  ultimately show ?thesis
    using denial_audit [OF d]
    by (auto simp: default_error_handler_status default_error_handler_body
        default_error_handler_challenge new_response_def)
qed

theorem denied_response_witness:
  "\<exists>rsp' w' ev. guard demo_jose (demo_mw DPoPOff) (bearer_request demo_bound) new_response demo_world
      = (None, rsp', w') \<and> w_audit w' = [ev] \<and> resp_body rsp' = []"
proof -
  have rb: "require_bearer demo_jose (demo_opts DPoPOff) demo_world
      = (Inr (demo_mw DPoPOff), demo_world\<lparr>w_keys := empty_key_cache, w_mem := new_mem_replay\<rparr>)"
    by (simp add: require_bearer_def demo_configure)
  obtain rsp' w' where g: "guard demo_jose (demo_mw DPoPOff) (bearer_request demo_bound) new_response demo_world
      = (None, rsp', w')"
    using bound_bearer_denied [OF demo_extract(2) demo_bound_cnf] by (metis prod.collapse)
  with denied_response [OF rb _ _ _ g] show ?thesis by (auto simp: demo_opts_def)
qed

text \<open>
  An admission emits token_validated, after dpop_verified when a proof was verified, each with
  outcome allow and the subject and issuer of the token, and nothing else.
\<close>

theorem admitted_events:
  assumes "require_bearer J opts w0 = (Inr mw, w1)" and "bo_dpop_replay opts = None"
    and "bo_dpop_nonce opts = None \<or> (\<exists>s. bo_dpop_nonce opts = Some (new_dpop_nonce_source s))"
    and "guard J mw r rsp w = (Some c, rsp', w')" and "extract_token r = Some (scheme, raw)"
  shows "\<exists>evs. w_audit w' = w_audit w @ evs
    \<and> map ev_kind evs = (if scheme = ''DPoP'' then [EventDPoPVerified, EventTokenValidated]
                         else [EventTokenValidated])
    \<and> (\<forall>ev \<in> set evs. about mw r ev \<and> ev_outcome ev = OutcomeAllow
         \<and> ev_subject ev = cl_subject c \<and> ev_issuer ev = cl_issuer c)"
proof -
  have "configure J opts = Inr mw"
    using assms(1) by (simp add: require_bearer_def split: sum.splits)
  then have "pipeline mw" using assms(2,3) by (rule configure_pipeline)
  then show ?thesis using assms(4,5) by (rule pipeline.guard_Some_audit)
qed

theorem admitted_events_witness:
  "\<exists>w'. guard demo_jose (demo_mw DPoPRequired) (dpop_request demo_bound) new_response demo_world
      = (Some (demo_claims ''YWJj''), new_response, w')
    \<and> map ev_kind (w_audit w') = [EventDPoPVerified, EventTokenValidated]"
proof -
  have rb: "require_bearer demo_jose (demo_opts DPoPRequired) demo_world
      = (Inr (demo_mw DPoPRequired), demo_world\<lparr>w_keys := empty_key_cache, w_mem := new_mem_replay\<rparr>)"
    by (simp add: require_bearer_def demo_configure)
  have on: "DPoPRequired \<noteq> DPoPOff" by simp
  note g = demo_guard_dpop [OF on demo_window_now(1) demo_unseen, of new_response 0 "[]"]
  from admitted_events [OF rb _ _ g demo_extract(3)] show ?thesis
    using g by (auto simp: demo_opts_def)
qed

section \<open>The replay cache and the nonces\<close>

text \<open>
  C10. Over any run of calls at instants that do not go back, the in-memory cache answers as an
  unbounded record of expiries that never sweeps: sweeping is invisible.
\<close>

theorem replay_refines:
  assumes "represents t m r" and "sorted (map fst cs)" and "\<forall>c \<in> set cs. t \<le> fst c"
  shows "mem.answers cs m = spec_answers cs r"
  using assms by (rule answers_refine)

theorem replay_refines_witness:
  "mem.answers [(1, ''a'', 5), (3, ''a'', 9), (5, ''a'', 9)] new_mem_replay = [False, True, False]"
proof -
  have "represents 0 new_mem_replay Map.empty" by (simp add: represents_def new_mem_replay_def)
  from replay_refines [OF this, of "[(1, ''a'', 5), (3, ''a'', 9), (5, ''a'', 9)]"]
  show ?thesis by (simp add: spec_seen_def)
qed

text \<open>
  Accepted once: after the cache has answered that a jti is new, every later call for that jti
  in any interleaving with others is answered as a replay, as long as the clock readings up to it
  are before the expiry that was recorded; the readings need not be in order.
\<close>

theorem replay_once:
  assumes "seen_at t j e m = (False, m')"
    and "\<forall>c \<in> set (take (Suc i) cs). fst c < e" and "i < length cs" and "fst (snd (cs ! i)) = j"
  shows "mem.answers cs m' ! i"
  using assms by (rule mem.accepted_once)

theorem replay_once_witness:
  "mem.answers [(4, ''b'', 7), (3, ''a'', 9)] (snd (seen_at 1 ''a'' 5 new_mem_replay)) ! 1"
  by (rule replay_once [of 1 "''a''" 5 new_mem_replay])
    (auto simp: fst_seen_at new_mem_replay_def prod_eq_iff)

text \<open>
  C12. The nonce challenge can be met: when the nonce check answers with a challenge, a proof that
  carries the advertised nonce passes it at any instant up to five minutes after the challenge, for
  any request and under any instance with the same secret.
\<close>

theorem nonce_challenge_met:
  assumes "mw_nonce mw = Some (new_dpop_nonce_source s)"
    and "mw_nonce mw' = Some (new_dpop_nonce_source s)"
    and "check_nonce mw r p w = (Some ae, w1)" and "later w1 w2" and "steady (w_clock w)"
    and "after_epoch (w_clock w (w_tick w1 - 1))" and "after_epoch (w_clock w (w_tick w2))"
    and "w_clock w (w_tick w2) - w_clock w (w_tick w1 - 1) \<le> minutes 5"
    and "dp_nonce p' = ae_nonce ae"
  shows "ae_code ae = ''use_dpop_nonce'' \<and> fst (check_nonce mw' r' p' w2) = None"
proof -
  let ?src = "new_dpop_nonce_source s"
  obtain ok v where v: "(if dp_nonce p = [] then (False, w) else ns_valid ?src r (dp_nonce p) w) = (ok, v)"
    by fastforce
  obtain n u where c: "ns_current ?src r v = (n, u)" by fastforce
  have ae: "ae = (errUseDPoPNonce (mw_dpop_algs_list mw))\<lparr>ae_nonce := n\<rparr>" "w1 = u"
    using assms(1,3) v c by (auto simp: check_nonce_def split: if_splits)
  have "quiet w v" using v hmac.valid_quiet by (auto split: if_splits)
  then have clk: "w_clock v = w_clock w" by (simp add: quiet_def later_def)
  have tick: "w_tick v = w_tick w1 - 1"
    using c ae(2) by (auto simp: new_dpop_nonce_source_def hmac_current_def now_def Let_def)
  have "fst (ns_valid ?src r' n w2)"
    by (rule hmac.grace [OF c]) (use assms(4-8) ae(2) clk tick in simp_all)
  moreover have "n \<noteq> []" using c by (rule hmac.nonempty)
  ultimately have "fst (check_nonce mw' r' p' w2) = None"
    using assms(2,9) ae(1)
    by (auto simp: check_nonce_def split_beta Let_def)
  moreover have "ae_code ae = ''use_dpop_nonce''" by (simp add: ae auth_error_defs)
  ultimately show ?thesis by simp
qed

theorem nonce_challenge_met_witness:
  "\<exists>ae w1. check_nonce ((demo_mw DPoPRequired)\<lparr>mw_nonce := Some (new_dpop_nonce_source ''k'')\<rparr>)
      (dpop_request demo_bound) demo_proof demo_world = (Some ae, w1)
    \<and> fst (check_nonce ((demo_mw DPoPRequired)\<lparr>mw_nonce := Some (new_dpop_nonce_source ''k'')\<rparr>)
      (dpop_request demo_bound) (demo_proof\<lparr>dp_nonce := ae_nonce ae\<rparr>) w1) = None"
proof -
  let ?m = "(demo_mw DPoPRequired)\<lparr>mw_nonce := Some (new_dpop_nonce_source ''k'')\<rparr>"
  obtain ae w1 where c: "check_nonce ?m (dpop_request demo_bound) demo_proof demo_world = (Some ae, w1)"
    by (simp add: check_nonce_def demo_proof_def split_beta)
  have "after_epoch demo_now" by (simp add: after_epoch_def demo_now_def nanos_def unix_to_internal_def)
  with c nonce_challenge_met [OF _ _ c later_refl, of "''k''" ?m "demo_proof\<lparr>dp_nonce := ae_nonce ae\<rparr>"]
  show ?thesis by (intro exI [of _ ae] exI [of _ w1]) (auto simp: steady_def minutes_def nanos_def)
qed

text \<open>
  C16. The discovery a denial starts: for a middleware and a mounted document of one plain resource
  URI, the \<open>resource_metadata\<close> URL of every challenge has the resource's scheme and host, and its
  path is the one under which GET is mounted; the answer is a 200 whose body names that resource.
\<close>

theorem challenge_leads_to_metadata:
  assumes plain: "plain_scheme s" "plain_host h" "plain_path p"
    and res: "bo_resource opts = s @ ''://'' @ h @ p" "md_resource meta = bo_resource opts"
    and mnt: "mount meta mopts rt0 = (Inr (), rt)"
    and ok: "json_ok (JObj (typed_fields meta))" "json_ok (JObj (md_extra meta))"
      "json_depth (JObj (md_extra meta)) \<le> max_nesting" "distinct (map fst (md_extra meta))"
  shows "\<exists>u hd ms. url_parse (snd (derive_challenge_params opts)) = Some u
    \<and> url_scheme u = s \<and> url_host u = h \<and> map_of rt (''GET'', url_path u) = Some hd
    \<and> (let rsp = serve_metadata hd (r\<lparr>req_method := ''GET''\<rparr>) new_response in
       resp_status rsp = Some 200 \<and> json_parse (resp_body rsp) = Some (JObj ms)
       \<and> map_of ms ''resource'' = Some (JStr (bo_resource opts)))"
proof -
  let ?q = "WellKnownSuffix @ trim_right (CHR ''/'') p"
  have path: "metadata_path_for (md_resource meta) = Inr ?q"
    using metadata_path_plain [OF plain] by (simp add: res)
  have url: "snd (derive_challenge_params opts) = s @ ''://'' @ h @ ?q"
    using path resource_metadata_url_plain [OF plain, of ?q] res plain(1)
    by (simp add: derive_challenge_params_def plain_scheme_def)
  have "url_parse (s @ ''://'' @ h @ ?q) = Some (empty_url\<lparr>url_scheme := s, url_host := h, url_path := ?q\<rparr>)"
    by (rule url_parse_plain [OF plain(1,2) plain_path_well_known [OF plain(3)]])
  moreover obtain hd where hd: "new_metadata_handler meta mopts = Inr hd"
    and rt: "map_of rt (''GET'', ?q) = Some hd"
    using mount_Inr [OF mnt] path by auto
  obtain body ms where m: "marshal_metadata meta = Inr body" "json_parse body = Some (JObj ms)"
    "map_of ms = map_of (md_extra meta) ++ map_of (typed_fields meta)"
    using marshal_reads [OF ok] by blast
  have "mh_body hd = body" using hd m(1) by (auto simp: new_metadata_handler_def)
  then show ?thesis
    using calculation rt m url resource_first [of meta] res(2)
    by (intro exI [of _ "empty_url\<lparr>url_scheme := s, url_host := h, url_path := ?q\<rparr>"] exI [of _ hd] exI [of _ ms])
      (simp add: serve_metadata_def set_headers_def set_cors_headers_def Let_def map_add_Some_iff
        new_response_def)
qed

theorem challenge_leads_to_metadata_witness:
  "\<exists>u hd. url_parse (snd (derive_challenge_params
        ((demo_opts DPoPOff)\<lparr>bo_resource := ''https://h/mcp''\<rparr>))) = Some u
     \<and> url_path u = ''/.well-known/oauth-protected-resource/mcp''
     \<and> resp_status (serve_metadata hd (bearer_request []\<lparr>req_method := ''GET''\<rparr>) new_response) = Some 200"
proof -
  have "fst (mount demo_metadata demo_handler_options []) = Inr ()" by (rule demo_mounts)
  then obtain rt where m: "mount demo_metadata demo_handler_options [] = (Inr (), rt)"
    by (cases "mount demo_metadata demo_handler_options []") simp
  have p: "plain_scheme ''https''" "plain_host ''h''" "plain_path ''/mcp''"
    "md_resource demo_metadata = ''https'' @ ''://'' @ ''h'' @ ''/mcp''"
    by code_simp+
  have "url_parse (snd (derive_challenge_params ((demo_opts DPoPOff)\<lparr>bo_resource := ''https://h/mcp''\<rparr>)))
    = Some (empty_url\<lparr>url_scheme := ''https'', url_host := ''h'',
        url_path := ''/.well-known/oauth-protected-resource/mcp''\<rparr>)"
    by code_simp
  then show ?thesis
    using challenge_leads_to_metadata [OF p(1-3) _ _ m demo_metadata_ok(1,2) _ demo_metadata_ok(3),
        of "(demo_opts DPoPOff)\<lparr>bo_resource := ''https://h/mcp''\<rparr>" "bearer_request []"]
      demo_metadata_ok(4) p(4)
    by (auto simp: max_nesting_def Let_def)
qed

end
